(* ===== verification/DI_Prelude.thy ===== *)
theory DI_Prelude
  imports Main
begin

text \<open>
  Generic material shared by every component theory of the model of the
  dependency-injection library: the outcome type of a JavaScript computation
  that may throw (\<open>Ok\<close> value or \<open>Err\<close> exception), the result of a
  computation over a state that may also run out of fuel (\<open>None\<close>), the
  sequencing combinator \<open>bindr\<close> with its congruence rule for the function
  package, and allocation at the end of a list heap.
\<close>

named_theorems res_simps "rewrite rules for results of the resolution semantics"
named_theorems heap_simps "rewrite rules for reads after allocation and update"

datatype ('a, 'e) outcome = Ok 'a | Err 'e

text \<open>
  A result is \<open>None\<close> when the computation did not finish within the fuel it
  was given, and otherwise the outcome together with the state reached; a thrown
  exception keeps the mutations performed before it, as in JavaScript.
\<close>

type_synonym ('a, 'e, 's) res = "(('a, 'e) outcome \<times> 's) option"

definition bindr :: "('a, 'e, 's) res \<Rightarrow> ('a \<Rightarrow> 's \<Rightarrow> ('b, 'e, 's) res) \<Rightarrow> ('b, 'e, 's) res" where
  "bindr m f = (case m of
      None \<Rightarrow> None
    | Some (Err e, s) \<Rightarrow> Some (Err e, s)
    | Some (Ok v, s) \<Rightarrow> f v s)"

lemma bindr_None [simp, res_simps]: "bindr None f = None"
  by (simp add: bindr_def)

lemma bindr_Err [simp, res_simps]: "bindr (Some (Err e, s)) f = Some (Err e, s)"
  by (simp add: bindr_def)

lemma bindr_Ok [simp, res_simps]: "bindr (Some (Ok v, s)) f = f v s"
  by (simp add: bindr_def)

lemma bindr_cong [fundef_cong]:
  "m = m' \<Longrightarrow> (\<And>v s. m' = Some (Ok v, s) \<Longrightarrow> f v s = g v s) \<Longrightarrow> bindr m f = bindr m' g"
  by (auto simp: bindr_def split: option.splits outcome.splits)

lemma bindr_split:
  "P (bindr m f) \<longleftrightarrow>
     (m = None \<longrightarrow> P None) \<and>
     (\<forall>e s. m = Some (Err e, s) \<longrightarrow> P (Some (Err e, s))) \<and>
     (\<forall>v s. m = Some (Ok v, s) \<longrightarrow> P (f v s))"
  by (cases m) (auto simp: bindr_def split: outcome.splits)

lemma bindr_split_asm:
  "P (bindr m f) \<longleftrightarrow>
     \<not> ((m = None \<and> \<not> P None) \<or>
        (\<exists>e s. m = Some (Err e, s) \<and> \<not> P (Some (Err e, s))) \<or>
        (\<exists>v s. m = Some (Ok v, s) \<and> \<not> P (f v s)))"
  by (auto simp: bindr_split)

lemmas bindr_splits = bindr_split bindr_split_asm

lemma bindr_eq_Some_Ok:
  "bindr m f = Some (Ok w, t) \<longleftrightarrow> (\<exists>v s. m = Some (Ok v, s) \<and> f v s = Some (Ok w, t))"
  by (auto simp: bindr_def split: option.splits outcome.splits prod.splits)

lemma bindr_not_None:
  "bindr m f \<noteq> None \<longleftrightarrow> m \<noteq> None \<and> (\<forall>v s. m = Some (Ok v, s) \<longrightarrow> f v s \<noteq> None)"
  by (auto simp: bindr_def split: option.splits outcome.splits prod.splits)

text \<open>A bitwise AND with a power of two tests one bit.\<close>

unbundle bit_operations_syntax

lemma and_pow2: "(a::nat) AND 2 ^ k = (if bit a k then 2 ^ k else 0)"
  by (rule bit_eqI) (auto simp add: bit_and_iff bit_exp_iff)

text \<open>The simplifier reduces \<open>bit (numeral k) j\<close> to this goal and leaves it open.\<close>

lemma bit_Suc_0_0 [simp]: "bit (Suc 0) 0"
  by (simp add: bit_0)

text \<open>Allocation of a fresh object at the next free address of a list heap.\<close>

definition alloc :: "'a \<Rightarrow> 'a list \<Rightarrow> nat \<times> 'a list" where
  "alloc x xs = (length xs, xs @ [x])"

lemma alloc_fst [simp, heap_simps]: "fst (alloc x xs) = length xs"
  by (simp add: alloc_def)

lemma alloc_snd [simp, heap_simps]: "snd (alloc x xs) = xs @ [x]"
  by (simp add: alloc_def)

lemma nth_append_old [heap_simps]: "i < length xs \<Longrightarrow> (xs @ ys) ! i = xs ! i"
  by (simp add: nth_append)

lemma nth_update_other [heap_simps]: "i \<noteq> j \<Longrightarrow> xs[j := x] ! i = xs ! i"
  by simp

end
