(* ===== verification/Types.thy ===== *)
theory Types
  imports DI_Prelude
begin

text \<open>
  The data of \<open>src/src/types.ts\<close> and \<open>src/src/decorator.ts\<close>: tokens, the
  JavaScript values the injector stores and returns, the exceptions it throws,
  the scope flags \<open>InjectFlags\<close>/\<open>OptionFlags\<close>, dependency declarations,
  provider declarations with their shape predicates (\<open>isUseValue\<close> \<dots>), and the
  parameter-decorator entries and metadata keys that the handler chain reads.
\<close>

unbundle bit_operations_syntax

subsection \<open>Tokens and values\<close>

text \<open>
  A \<open>Token\<close> (\<open>types.ts\<close> line 57) is compared by identity: a class reference
  (\<open>Cls\<close>, a function, so \<open>isType\<close> holds), a primitive string key (\<open>Key\<close>), an
  object identity such as an \<open>InjectionToken\<close> instance (\<open>Ident\<close>), the identity
  of a dependency array used as a token by \<open>getInjector\<close> (\<open>ArrTok\<close>), or
  \<open>undefined\<close>.
\<close>

datatype token = Cls string | Key string | Ident nat | ArrTok nat | TUndef

fun isType :: "token \<Rightarrow> bool" where
  "isType (Cls _) = True"
| "isType _ = False"

text \<open>
  Function values the injector calls: the four parameter handlers registered by
  \<open>coreInjectorFactory\<close> (\<open>injector.ts\<close> lines 79--109) and user functions
  (\<open>useFactory\<close>), the latter named by an index into the user-function table.
\<close>

datatype fn = HDefault | HOptional | HSkipSelf | HInject | UserFn nat

datatype val =
    Undef
  | Null
  | VBool bool
  | VNum int
  | VStr string
  | VObj nat            \<comment> \<open>a class instance, by its address in the object heap\<close>
  | VArr "val list"
  | VInj nat            \<comment> \<open>an injector, by its address\<close>
  | VFn fn

text \<open>JavaScript truthiness, as used by \<open>if (value)\<close> and \<open>if (def)\<close>.\<close>

fun truthy :: "val \<Rightarrow> bool" where
  "truthy Undef = False"
| "truthy Null = False"
| "truthy (VBool b) = b"
| "truthy (VNum n) = (n \<noteq> 0)"
| "truthy (VStr s) = (s \<noteq> [])"
| "truthy (VObj _) = True"
| "truthy (VArr _) = True"
| "truthy (VInj _) = True"
| "truthy (VFn _) = True"

text \<open>The exceptions the code throws.\<close>

datatype error =
    NotFoundError          \<comment> \<open>\<open>StaticInjectorNotFoundError\<close>\<close>
  | ParentNotFoundError    \<comment> \<open>\<open>StaticInjectorParentNotFoundError\<close>\<close>
  | UnknownProviderError   \<comment> \<open>\<open>Error('unkonw provider')\<close>\<close>
  | RecordCreateError      \<comment> \<open>\<open>Error('record create error')\<close>\<close>
  | TypeError              \<comment> \<open>a JavaScript \<open>TypeError\<close>: calling a non-function, spreading a non-iterable\<close>

subsection \<open>Scope flags\<close>

text \<open>\<open>enum InjectFlags\<close> and \<open>enum OptionFlags\<close> (\<open>types.ts\<close> lines 118--136).\<close>

definition InjectFlags_Default :: nat where "InjectFlags_Default = 0"
definition OptionFlags_Self :: nat where "OptionFlags_Self = push_bit 0 1"
definition OptionFlags_Parent :: nat where "OptionFlags_Parent = push_bit 1 1"
definition OptionFlags_Optional :: nat where "OptionFlags_Optional = push_bit 2 1"
definition OptionFlags_Default :: nat where "OptionFlags_Default = OptionFlags_Self OR OptionFlags_Parent"

lemma option_flag_values [simp]:
  "InjectFlags_Default = 0" "OptionFlags_Self = 1" "OptionFlags_Parent = 2"
  "OptionFlags_Optional = 4" "OptionFlags_Default = 3"
  by (simp_all add: InjectFlags_Default_def OptionFlags_Self_def OptionFlags_Parent_def
      OptionFlags_Optional_def OptionFlags_Default_def)

subsection \<open>Dependency declarations\<close>

text \<open>
  \<open>DependencyOperation\<close> and \<open>Dependency\<close> (\<open>types.ts\<close> lines 60--61): a
  modifier instance (\<open>new Optional()\<close>, \<open>new SkipSelf()\<close>, \<open>new Self()\<close>,
  \<open>new Inject(token)\<close> of \<open>decorator.ts\<close>) or a plain token; a dependency is a
  bare token or an array of operations, the array carrying its object identity.
\<close>

datatype dep_op = OpOptional | OpSkipSelf | OpSelf | OpInject token | OpToken token

datatype dep = DTok token | DList nat "dep_op list"

text \<open>
  The \<open>instanceof\<close> tests of \<open>decorator.ts\<close> on an entry of a dependency
  array (\<open>isOptional\<close>, \<open>isSkipSelf\<close>, \<open>isSelf\<close>, \<open>isInject\<close>), the
  \<open>token\<close> field read by \<open>(d as InjectDef).token\<close> (\<open>undefined\<close> on any other
  entry), and the entry read as a token by \<open>token = d\<close>. A modifier object read
  as a token never occurs in \<open>getInjector\<close>, whose tests catch modifiers first.
\<close>

fun isOptional :: "dep_op \<Rightarrow> bool" where
  "isOptional OpOptional = True"
| "isOptional _ = False"

fun isSkipSelf :: "dep_op \<Rightarrow> bool" where
  "isSkipSelf OpSkipSelf = True"
| "isSkipSelf _ = False"

fun isSelf :: "dep_op \<Rightarrow> bool" where
  "isSelf OpSelf = True"
| "isSelf _ = False"

fun isInject :: "dep_op \<Rightarrow> bool" where
  "isInject (OpInject _) = True"
| "isInject _ = False"

fun injectDef_token :: "dep_op \<Rightarrow> token" where
  "injectDef_token (OpInject t) = t"
| "injectDef_token _ = TUndef"

fun dep_as_token :: "dep_op \<Rightarrow> token" where
  "dep_as_token (OpToken t) = t"
| "dep_as_token _ = TUndef"

subsection \<open>Provider declarations\<close>

text \<open>
  A provider object literal (\<open>UseValue\<close>, \<open>UseClass\<close>, \<open>UseFactory\<close>,
  \<open>UseExisting\<close>, \<open>ConstructorProvider\<close> of \<open>types.ts\<close> lines 63--108): each
  optional member is \<open>None\<close> when the key is absent, so that \<open>Reflect.has\<close> is
  a test for \<open>Some\<close>. A \<open>Provider\<close> (line 110) is a class, an array of
  providers, or such an object.
\<close>

record provider_obj =
  provide :: token
  multi :: bool
  useValue :: "val option"
  useClass :: "string option"
  useFactory :: "nat option"
  useExisting :: "token option"
  deps :: "dep list option"

datatype provider = PType string | PArr "provider list" | PObj provider_obj

text \<open>The object literal \<open>{provide: t}\<close>, extended with record updates.\<close>

definition provider_base :: "token \<Rightarrow> provider_obj" where
  "provider_base t = \<lparr>provide = t, multi = False, useValue = None, useClass = None,
     useFactory = None, useExisting = None, deps = None\<rparr>"

definition isUseValue :: "provider_obj \<Rightarrow> bool" where
  "isUseValue p = (useValue p \<noteq> None)"

definition isUseClass :: "provider_obj \<Rightarrow> bool" where
  "isUseClass p = (useClass p \<noteq> None)"

definition isUseFactory :: "provider_obj \<Rightarrow> bool" where
  "isUseFactory p = (useFactory p \<noteq> None)"

definition isUseExisting :: "provider_obj \<Rightarrow> bool" where
  "isUseExisting p = (useExisting p \<noteq> None)"

definition isConstructorProvider :: "provider_obj \<Rightarrow> bool" where
  "isConstructorProvider p = isType (provide p)"

text \<open>
  The provider shapes, in the order \<open>createProviderRecord\<close> tests them, each with
  the member its type guard narrows to (\<open>val.useValue\<close>, \<open>val.useClass\<close>,
  \<open>val.useFactory\<close>, \<open>val.useExisting\<close>, \<open>val.provide\<close>).
\<close>

datatype shape = SUseValue val | SUseClass string | SUseFactory nat | SUseExisting token
  | SConstructor string

subsection \<open>Parameter decorators\<close>

text \<open>
  An \<open>IParameterDecorator\<close> entry as the decorator library records it for a
  constructor parameter: the metadata key under which its handler is registered
  (\<open>name\<close>), the declared parameter type (\<open>type\<close>) and the arguments given to
  the decorator (\<open>args\<close>, absent for argument-less decorators).
\<close>

record pdec =
  pd_name :: token
  pd_type :: token
  pd_args :: "token list option"

text \<open>The metadata keys of \<open>decorator.ts\<close>.\<close>

definition InjectableMetadataKey :: token where
  "InjectableMetadataKey = Key ''@noding/di InjectableMetadataKey''"

definition OptionalMetadataKey :: token where
  "OptionalMetadataKey = Key ''@noding/di InjectableMetadataKey''"

definition SkipSelfMetadataKey :: token where
  "SkipSelfMetadataKey = Key ''@noding/di SkipSelfMetadataKey''"

definition SelfMetadataKey :: token where
  "SelfMetadataKey = Key ''@noding/di SelfMetadataKey''"

definition InjectMetadataKey :: token where
  "InjectMetadataKey = Key ''@noding/di InjectMetadataKey''"

text \<open>
  \<open>defaultParameterHandlerToken\<close> is imported from \<open>./token\<close>, a module that is
  not part of the sources; it is some string key distinct from the others.
\<close>

definition defaultParameterHandlerToken :: token where
  "defaultParameterHandlerToken = Key ''@noding/di defaultParameterHandlerToken''"

lemmas metadata_keys = InjectableMetadataKey_def OptionalMetadataKey_def SkipSelfMetadataKey_def
  SelfMetadataKey_def InjectMetadataKey_def defaultParameterHandlerToken_def

end
