(* ===== verification/Store.thy ===== *)
theory Store
  imports Types
begin

text \<open>
  The mutable state of the library as an explicit store: the \<open>Record\<close> class of
  \<open>types.ts\<close> (a record object pointing to a shared options object, so that
  \<open>setRecord\<close> aliases options between records), the \<open>StaticInjector\<close> objects
  of \<open>injector.ts\<close> (token map, parent, name), the instances built by
  \<open>new type(...)\<close>, and the parameter-decorator metadata of each class, which
  \<open>createTypeRecord\<close> mutates. The factory closures of \<open>util.ts\<close> are a
  datatype of their captured variables; the \<open>createXRecord\<close> functions that
  build them are the \<open>*_opts\<close> definitions of this theory.
\<close>

subsection \<open>Factory closures and record options\<close>

text \<open>
  The variable a multi-record factory captures as \<open>record\<close>/\<open>_pre\<close>: nothing,
  the existing record, or (through the misplaced argument of
  \<open>createMultiUseValueRecord\<close>) the injector.
\<close>

datatype prev = PrevNone | PrevRec nat | PrevInj nat

text \<open>
  The factory closures of \<open>util.ts\<close>, one constructor per closure, with the
  variables it captures:
  \<^item> \<open>FConstructor\<close>: \<open>createConstructorRecord\<close> (lines 75--87), provider class and \<open>deps\<close>;
  \<^item> \<open>FUseClassDeps\<close>: \<open>createUseClassRecord\<close> with \<open>deps\<close> (lines 153--161);
  \<^item> \<open>FType\<close>: \<open>createTypeRecord\<close> (lines 189--215);
  \<^item> \<open>FUseExisting\<close>: \<open>createUseExistingRecord\<close> (lines 116--120);
  \<^item> \<open>FUseFactory\<close>: \<open>createUseFactoryRecord\<close> (lines 132--141), \<open>deps || []\<close>;
  \<^item> \<open>FMulti\<close>: the five \<open>createMultiXRecord\<close> closures, with the shape and
    \<open>deps\<close> of the provider, the injector and the captured previous record.
  Each closure also captures the injector it was created for.
\<close>

datatype fact =
    FConstructor string "dep list option" nat
  | FUseClassDeps string "dep list" nat
  | FType string nat
  | FUseExisting token nat
  | FUseFactory nat "dep list" nat
  | FMulti shape "dep list option" nat prev

text \<open>The options object of a \<open>Record\<close>: \<open>factory?\<close> and \<open>value?\<close> (absent is \<open>undefined\<close>).\<close>

record rec_options =
  factory :: "fact option"
  rvalue :: val

record injector =
  records :: "token \<Rightarrow> nat option"   \<comment> \<open>\<open>_record: Map<Token, Record>\<close>\<close>
  parent :: "nat option"
  name :: "string option"

text \<open>
  The store. \<open>recs\<close> maps a \<open>Record\<close> object to the address of its current
  options object in \<open>opts\<close>; \<open>objs\<close> holds the instances built by
  \<open>new C(...args)\<close> with their class and arguments; \<open>meta\<close> is the decorator
  metadata \<open>getDecorator(type).parameters.constructor\<close> as a list of
  (parameter index, decorator array) entries; \<open>user_fns\<close> gives the result of
  each user factory function on its arguments.
\<close>

record state =
  injs :: "injector list"
  recs :: "nat list"
  opts :: "rec_options list"
  objs :: "(string \<times> val list) list"
  meta :: "string \<Rightarrow> (nat \<times> pdec list) list"
  user_fns :: "nat \<Rightarrow> val list \<Rightarrow> val"

text \<open>The store at program start: no objects yet; the decorator metadata and the user functions are given.\<close>

definition init_state :: "(string \<Rightarrow> (nat \<times> pdec list) list) \<Rightarrow> (nat \<Rightarrow> val list \<Rightarrow> val) \<Rightarrow> state" where
  "init_state md fns = \<lparr>injs = [], recs = [], opts = [], objs = [], meta = md, user_fns = fns\<rparr>"

subsection \<open>The Record class\<close>

text \<open>\<open>new Record(options)\<close>: allocate the options object and the record.\<close>

definition new_record :: "rec_options \<Rightarrow> state \<Rightarrow> nat \<times> state" where
  "new_record opt s =
     (let (oi, os) = alloc opt (opts s); (r, rs) = alloc oi (recs s)
      in (r, s\<lparr>opts := os, recs := rs\<rparr>))"

definition getOptions :: "state \<Rightarrow> nat \<Rightarrow> rec_options" where
  "getOptions s r = opts s ! (recs s ! r)"

text \<open>\<open>this.options.value = val\<close>: writes the options object the record currently points to.\<close>

definition setValue :: "nat \<Rightarrow> val \<Rightarrow> state \<Rightarrow> state" where
  "setValue r v s =
     (let oi = recs s ! r in s\<lparr>opts := (opts s)[oi := (opts s ! oi)\<lparr>rvalue := v\<rparr>]\<rparr>)"

definition setFactory :: "nat \<Rightarrow> fact \<Rightarrow> state \<Rightarrow> state" where
  "setFactory r f s =
     (let oi = recs s ! r in s\<lparr>opts := (opts s)[oi := (opts s ! oi)\<lparr>factory := Some f\<rparr>]\<rparr>)"

text \<open>\<open>setRecord(record)\<close>: \<open>this.options = record.getOptions()\<close>, an aliasing assignment.\<close>

definition setRecord :: "nat \<Rightarrow> nat \<Rightarrow> state \<Rightarrow> state" where
  "setRecord r r' s = s\<lparr>recs := (recs s)[r := recs s ! r']\<rparr>"

subsection \<open>Instances\<close>

text \<open>\<open>new C(...args)\<close> for a user class: a fresh instance of \<open>C\<close> holding its arguments.\<close>

definition new_obj :: "string \<Rightarrow> val list \<Rightarrow> state \<Rightarrow> (val, error, state) res" where
  "new_obj c args s = (let (a, os) = alloc (c, args) (objs s) in Some (Ok (VObj a), s\<lparr>objs := os\<rparr>))"

subsection \<open>Record builders\<close>

text \<open>\<open>createTypeRecord(type, injector)\<close>: a record whose factory is the closure \<open>FType\<close>.\<close>

definition createTypeRecord_opts :: "string \<Rightarrow> nat \<Rightarrow> rec_options" where
  "createTypeRecord_opts c i = \<lparr>factory = Some (FType c i), rvalue = Undef\<rparr>"

definition createUseValueRecord_opts :: "val \<Rightarrow> rec_options" where
  "createUseValueRecord_opts v = \<lparr>factory = None, rvalue = v\<rparr>"

definition createUseClassRecord_opts :: "string \<Rightarrow> dep list option \<Rightarrow> nat \<Rightarrow> rec_options" where
  "createUseClassRecord_opts c ds i =
     (case ds of
        Some d \<Rightarrow> \<lparr>factory = Some (FUseClassDeps c d i), rvalue = Undef\<rparr>
      | None \<Rightarrow> createTypeRecord_opts c i)"

definition createUseFactoryRecord_opts :: "nat \<Rightarrow> dep list option \<Rightarrow> nat \<Rightarrow> rec_options" where
  "createUseFactoryRecord_opts f ds i =
     \<lparr>factory = Some (FUseFactory f (case ds of None \<Rightarrow> [] | Some d \<Rightarrow> d) i), rvalue = Undef\<rparr>"

definition createUseExistingRecord_opts :: "token \<Rightarrow> nat \<Rightarrow> rec_options" where
  "createUseExistingRecord_opts t i = \<lparr>factory = Some (FUseExisting t i), rvalue = Undef\<rparr>"

definition createConstructorRecord_opts :: "string \<Rightarrow> dep list option \<Rightarrow> nat \<Rightarrow> rec_options" where
  "createConstructorRecord_opts c ds i = \<lparr>factory = Some (FConstructor c ds i), rvalue = Undef\<rparr>"

text \<open>The single (non-multi) record builder for each provider shape.\<close>

fun createRecord_opts :: "shape \<Rightarrow> dep list option \<Rightarrow> nat \<Rightarrow> rec_options" where
  "createRecord_opts (SUseValue v) ds i = createUseValueRecord_opts v"
| "createRecord_opts (SUseClass c) ds i = createUseClassRecord_opts c ds i"
| "createRecord_opts (SUseFactory f) ds i = createUseFactoryRecord_opts f ds i"
| "createRecord_opts (SUseExisting t) ds i = createUseExistingRecord_opts t i"
| "createRecord_opts (SConstructor c) ds i = createConstructorRecord_opts c ds i"

text \<open>
  \<open>createMultiUseValueRecord(val, record?)\<close>: its factory builds the value record
  and calls \<open>createMulti(current, record)\<close>; \<open>pre\<close> is what was passed as
  \<open>record\<close>.
\<close>

definition createMultiUseValueRecord_opts :: "val \<Rightarrow> prev \<Rightarrow> rec_options" where
  "createMultiUseValueRecord_opts v pre =
     \<lparr>factory = Some (FMulti (SUseValue v) None 0 pre), rvalue = Undef\<rparr>"

text \<open>
  The multi builders as \<open>createProviderRecord\<close> calls them:
  \<open>createMultiRecord(it, injector, record)\<close>. \<open>createMultiConstructorRecord\<close>,
  \<open>createMultiUseExistingRecord\<close>, \<open>createMultiUseFactoryRecord\<close> and
  \<open>createMultiUseClassRecord\<close> take \<open>(val, injector, record?)\<close>, but
  \<open>createMultiUseValueRecord\<close> is declared \<open>(val, record?)\<close>, so the injector
  lands in its \<open>record\<close> parameter.
\<close>

fun createMultiRecord_opts :: "shape \<Rightarrow> dep list option \<Rightarrow> nat \<Rightarrow> nat option \<Rightarrow> rec_options" where
  "createMultiRecord_opts (SUseValue v) ds i r = createMultiUseValueRecord_opts v (PrevInj i)"
| "createMultiRecord_opts sh ds i r =
     \<lparr>factory = Some (FMulti sh ds i (case r of None \<Rightarrow> PrevNone | Some x \<Rightarrow> PrevRec x)),
      rvalue = Undef\<rparr>"

subsection \<open>Injector maps\<close>

text \<open>\<open>injector._record.set(token, record)\<close>.\<close>

definition record_set :: "nat \<Rightarrow> token \<Rightarrow> nat \<Rightarrow> state \<Rightarrow> state" where
  "record_set i t r s =
     s\<lparr>injs := (injs s)[i := (injs s ! i)\<lparr>records := (records (injs s ! i))(t \<mapsto> r)\<rparr>]\<rparr>"

subsection \<open>Hierarchical record lookup\<close>

text \<open>
  \<open>StaticInjector.getRecord\<close>: the injector's own map, then the parent chain.
  The first argument bounds the length of the chain walked; parents are created
  before their children, so the address of the injector plus one is enough.
\<close>

fun getRecord :: "nat \<Rightarrow> state \<Rightarrow> nat \<Rightarrow> token \<Rightarrow> nat option" where
  "getRecord 0 s i t = None"
| "getRecord (Suc n) s i t =
     (case records (injs s ! i) t of
        Some r \<Rightarrow> Some r
      | None \<Rightarrow> (case parent (injs s ! i) of
                  Some p \<Rightarrow> getRecord n s p t
                | None \<Rightarrow> None))"

end
