(* ===== verification/Resolve.thy ===== *)
theory Resolve
  imports Store
begin

text \<open>
  The resolution engine: \<open>StaticInjector.get\<close> (\<open>injector.ts\<close> lines 27--49),
  \<open>Record.create\<close> (\<open>types.ts\<close> lines 28--37), the factory closures of
  \<open>util.ts\<close>, \<open>createMulti\<close> (lines 11--19), \<open>getInjector\<close> (lines
  89--114), the parameter loop of \<open>createTypeRecord\<close> (lines 189--215) with
  the handler chain built by its \<open>reduce\<close>, and the four parameter handlers
  registered by \<open>coreInjectorFactory\<close> (\<open>injector.ts\<close> lines 77--110).

  These functions call one another (a factory calls \<open>get\<close>, which creates a
  record, which runs a factory \<dots>), and the source has no cycle detection, so
  they are one mutually recursive definition with a fuel argument: every call
  spends one unit, and \<open>None\<close> is a call stack that did not come back within
  the fuel. A finished call gives the outcome (value or thrown error) and the
  store after it.
\<close>

subsection \<open>Pure helpers\<close>

text \<open>\<open>StaticInjector.get\<close>, lines 28--35: the three booleans read from \<open>flags\<close>.\<close>

definition get_flags :: "nat \<Rightarrow> bool \<times> bool \<times> bool" where
  "get_flags flags =
     (if flags \<noteq> InjectFlags_Default
      then (OptionFlags_Self AND flags = OptionFlags_Self,
            OptionFlags_Parent AND flags = OptionFlags_Parent,
            OptionFlags_Optional AND flags = OptionFlags_Optional)
      else (True, True, False))"

text \<open>One step of the \<open>dep.forEach\<close> scan of \<open>getInjector\<close> (lines 93--109).\<close>

definition scan_dep :: "nat \<times> token \<Rightarrow> dep_op \<Rightarrow> nat \<times> token" where
  "scan_dep acc d =
     (let (flags, token) = acc in
      if isOptional d then (flags OR OptionFlags_Optional, token)
      else if isSkipSelf d then (flags OR OptionFlags_Parent, token)
      else if isSelf d then (flags OR OptionFlags_Self, token)
      else if isInject d then (flags, injectDef_token d)
      else (flags, dep_as_token d))"

text \<open>
  The flags and the token \<open>getInjector\<close> resolves an array dependency with:
  the scan starts from \<open>OptionFlags.Default\<close> and from the array itself as token.
\<close>

definition dep_flags_token :: "nat \<Rightarrow> dep_op list \<Rightarrow> nat \<times> token" where
  "dep_flags_token a ops = foldl scan_dep (OptionFlags_Default, ArrTok a) ops"

text \<open>\<open>[...pre, current]\<close>: arrays and strings are iterable, other values throw.\<close>

fun spread :: "val \<Rightarrow> val list option" where
  "spread (VArr xs) = Some xs"
| "spread (VStr cs) = Some (map (\<lambda>c. VStr [c]) cs)"
| "spread _ = None"

text \<open>
  \<open>createTypeRecord\<close>: the current decorator array of parameter \<open>k\<close>, the
  in-place \<open>reverse()\<close> of that array, and \<open>Array.from(res)\<close> on the
  array-like \<open>{length: n}\<close> filled by \<open>Reflect.set(res, index, ...)\<close>.
\<close>

definition param_decorators :: "state \<Rightarrow> string \<Rightarrow> nat \<Rightarrow> pdec list" where
  "param_decorators s c k = (case map_of (meta s c) k of Some a \<Rightarrow> a | None \<Rightarrow> [])"

definition reverse_args :: "string \<Rightarrow> nat \<Rightarrow> state \<Rightarrow> state" where
  "reverse_args c k s =
     s\<lparr>meta := (meta s)(c := map (\<lambda>(k', a). if k' = k then (k', rev a) else (k', a)) (meta s c))\<rparr>"

definition array_from :: "nat \<Rightarrow> (nat \<times> val) list \<Rightarrow> val list" where
  "array_from n res = map (\<lambda>j. case map_of res j of Some v \<Rightarrow> v | None \<Rightarrow> Undef) [0..<n]"

text \<open>\<open>emptyParameterHandler(injector, def)\<close>: the end of every handler chain returns the default.\<close>

definition emptyParameterHandler :: "val \<Rightarrow> val" where
  "emptyParameterHandler d = d"

declare emptyParameterHandler_def [simp]

text \<open>
  \<open>try { return next(injector, def) } catch (e) { return undefined }\<close> of the
  Optional handler: a thrown error becomes \<open>undefined\<close>, with the mutations made
  before it kept.
\<close>

definition catch_undef :: "(val, error, state) res \<Rightarrow> (val, error, state) res" where
  "catch_undef m = (case m of
      None \<Rightarrow> None
    | Some (Ok v, s1) \<Rightarrow> Some (Ok v, s1)
    | Some (Err e, s1) \<Rightarrow> Some (Ok Undef, s1))"

subsection \<open>The resolution functions\<close>

text \<open>
  \<^item> \<open>injector_get n i t def flags\<close>: \<open>injector.get(token, def, flags)\<close> on injector \<open>i\<close>;
  \<^item> \<open>record_create n r\<close>: \<open>record.create()\<close>;
  \<^item> \<open>run_factory n f\<close>: calling the factory closure \<open>f\<close>;
  \<^item> \<open>createMulti n cur pre\<close>: \<open>createMulti(_current, _pre)\<close>;
  \<^item> \<open>getInjector n i dep\<close>, and \<open>resolve_deps\<close> for \<open>deps.map(...)\<close>;
  \<^item> \<open>type_params\<close>: the \<open>entities.map\<close> loop of \<open>createTypeRecord\<close>,
    accumulating the \<open>Reflect.set\<close> writes;
  \<^item> \<open>call_chain n i ds def\<close>: the \<open>InjectableParameterHandler\<close> that the
    \<open>reduce\<close> builds from the decorator array \<open>ds\<close> (outermost first;
    \<open>[]\<close> is \<open>emptyParameterHandler\<close>), called as \<open>item(injector, def)\<close>;
  \<^item> \<open>call_handler n h i p next def\<close>: calling the handler value \<open>h\<close>
    fetched by \<open>injector.get(next.name)\<close> as \<open>h(injector, p, next, def)\<close>.
\<close>

function (sequential) injector_get :: "nat \<Rightarrow> nat \<Rightarrow> token \<Rightarrow> val \<Rightarrow> nat \<Rightarrow> state \<Rightarrow> (val, error, state) res"
and record_create :: "nat \<Rightarrow> nat \<Rightarrow> state \<Rightarrow> (val, error, state) res"
and run_factory :: "nat \<Rightarrow> fact \<Rightarrow> state \<Rightarrow> (val, error, state) res"
and createMulti :: "nat \<Rightarrow> nat \<Rightarrow> prev \<Rightarrow> state \<Rightarrow> (val, error, state) res"
and getInjector :: "nat \<Rightarrow> nat \<Rightarrow> dep \<Rightarrow> state \<Rightarrow> (val, error, state) res"
and resolve_deps :: "nat \<Rightarrow> nat \<Rightarrow> dep list \<Rightarrow> state \<Rightarrow> (val list, error, state) res"
and type_params :: "nat \<Rightarrow> nat \<Rightarrow> string \<Rightarrow> nat list \<Rightarrow> (nat \<times> val) list \<Rightarrow> state \<Rightarrow>
    ((nat \<times> val) list, error, state) res"
and call_chain :: "nat \<Rightarrow> nat \<Rightarrow> pdec list \<Rightarrow> val \<Rightarrow> state \<Rightarrow> (val, error, state) res"
and call_handler :: "nat \<Rightarrow> val \<Rightarrow> nat \<Rightarrow> pdec \<Rightarrow> pdec list \<Rightarrow> val \<Rightarrow> state \<Rightarrow> (val, error, state) res"
where
  "injector_get 0 i t d flags s = None"
| "injector_get (Suc n) i t d flags s =
     (let (isSelf, isParent, isOptional) = get_flags flags; inj = injs s ! i in
      case (if isSelf then records inj t else None) of
        Some r \<Rightarrow> record_create n r s
      | None \<Rightarrow>
          if parent inj \<noteq> None \<and> isParent
          then injector_get n (the (parent inj)) t d InjectFlags_Default s
          else if isOptional then Some (Ok d, s)
          else Some (Err NotFoundError, s))"
| "record_create 0 r s = None"
| "record_create (Suc n) r s =
     (let opt = getOptions s r in
      if truthy (rvalue opt) then Some (Ok (rvalue opt), s)
      else case factory opt of
        Some f \<Rightarrow> bindr (run_factory n f s) (\<lambda>v s'. Some (Ok v, setValue r v s'))
      | None \<Rightarrow> Some (Err RecordCreateError, s))"
| "run_factory 0 f s = None"
| "run_factory (Suc n) (FConstructor c ds i) s =
     (case ds of
        Some d \<Rightarrow> bindr (resolve_deps n i d s) (\<lambda>ps s'. new_obj c ps s')
      | None \<Rightarrow> (let (r, s') = new_record (createTypeRecord_opts c i) s in record_create n r s'))"
| "run_factory (Suc n) (FUseClassDeps c d i) s =
     bindr (resolve_deps n i d s) (\<lambda>ps s'. new_obj c ps s')"
| "run_factory (Suc n) (FType c i) s =
     (let keys = map fst (meta s c) in
      if keys = [] then new_obj c [] s
      else bindr (type_params n i c keys [] s) (\<lambda>res s'. new_obj c (array_from (length keys) res) s'))"
| "run_factory (Suc n) (FUseExisting t i) s = injector_get n i t Undef InjectFlags_Default s"
| "run_factory (Suc n) (FUseFactory f d i) s =
     bindr (resolve_deps n i d s) (\<lambda>ps s'. Some (Ok (user_fns s' f ps), s'))"
| "run_factory (Suc n) (FMulti sh ds i pr) s =
     (let (cur, s') = new_record (createRecord_opts sh ds i) s in createMulti n cur pr s')"
| "createMulti 0 cur pr s = None"
| "createMulti (Suc n) cur pr s =
     bindr (record_create n cur s) (\<lambda>current s1.
       case pr of
         PrevNone \<Rightarrow> Some (Ok (VArr [current]), s1)
       | PrevInj _ \<Rightarrow> Some (Err TypeError, s1)
       | PrevRec r \<Rightarrow>
           bindr (record_create n r s1) (\<lambda>pre s2.
             case spread pre of
               Some xs \<Rightarrow> Some (Ok (VArr (xs @ [current])), s2)
             | None \<Rightarrow> Some (Err TypeError, s2)))"
| "getInjector 0 i dp s = None"
| "getInjector (Suc n) i (DTok t) s = injector_get n i t Undef InjectFlags_Default s"
| "getInjector (Suc n) i (DList a ops) s =
     (let (flags, t) = dep_flags_token a ops in injector_get n i t Undef flags s)"
| "resolve_deps 0 i ds s = None"
| "resolve_deps (Suc n) i [] s = Some (Ok [], s)"
| "resolve_deps (Suc n) i (dp # ds) s =
     bindr (getInjector n i dp s) (\<lambda>v s1.
       bindr (resolve_deps n i ds s1) (\<lambda>vs s2. Some (Ok (v # vs), s2)))"
| "type_params 0 i c ks acc s = None"
| "type_params (Suc n) i c [] acc s = Some (Ok acc, s)"
| "type_params (Suc n) i c (k # ks) acc s =
     (let args = param_decorators s c k; s1 = reverse_args c k s in
      bindr (call_chain n i args Undef s1) (\<lambda>v s2. type_params n i c ks (acc @ [(k, v)]) s2))"
| "call_chain 0 i ps d s = None"
| "call_chain (Suc n) i [] d s = Some (Ok (emptyParameterHandler d), s)"
| "call_chain (Suc n) i (p # ps) d s =
     bindr (injector_get n i (pd_name p) Undef InjectFlags_Default s) (\<lambda>h s1. call_handler n h i p ps d s1)"
| "call_handler 0 h i p ps d s = None"
| "call_handler (Suc n) h i p ps d s =
     (case h of
        VFn HDefault \<Rightarrow>
          if truthy d then call_chain n i ps d s
          else bindr (injector_get n i (pd_type p) d InjectFlags_Default s) (\<lambda>r s1. call_chain n i ps r s1)
      | VFn HOptional \<Rightarrow> catch_undef (call_chain n i ps d s)
      | VFn HSkipSelf \<Rightarrow>
          (case parent (injs s ! i) of
             Some q \<Rightarrow> call_chain n q ps d s
           | None \<Rightarrow> Some (Err ParentNotFoundError, s))
      | VFn HInject \<Rightarrow>
          (let t = (case pd_args p of None \<Rightarrow> pd_type p | Some [] \<Rightarrow> TUndef | Some (t # _) \<Rightarrow> t) in
           bindr (injector_get n i t Undef InjectFlags_Default s) (\<lambda>r s1. call_chain n i ps r s1))
      | _ \<Rightarrow> Some (Err TypeError, s))"
  by pat_completeness auto
termination
  \<comment> \<open>every call spends one unit of the fuel, the first argument of each function\<close>
  by (relation "measure (case_sum (case_sum (case_sum fst fst) (case_sum fst fst))
      (case_sum (case_sum fst fst) (case_sum fst (case_sum fst fst))))") simp_all

end
