(* ===== verification/Frame.thy ===== *)
theory Frame
  imports Resolve
begin

text \<open>
  What resolution may change in the store. \<open>get\<close>, \<open>create\<close> and the factories
  never touch an injector (maps, parents, names), never reassign a \<open>Record\<close> to
  other options, never change a factory, and never remove anything: they allocate
  records, options and instances, write \<open>value\<close> fields, and reverse decorator
  arrays in place. \<open>frame s s'\<close> says that \<open>s'\<close> arises from \<open>s\<close> so;
  \<open>frames s m\<close> says it of the final store of a finished result \<open>m\<close>.
\<close>

text \<open>Every record points to an allocated options object.\<close>

definition recs_ok :: "state \<Rightarrow> bool" where
  "recs_ok s \<longleftrightarrow> list_all (\<lambda>k. k < length (opts s)) (recs s)"

definition frame :: "state \<Rightarrow> state \<Rightarrow> bool" where
  "frame s s' \<longleftrightarrow>
     injs s' = injs s \<and>
     (\<exists>rs. recs s' = recs s @ rs) \<and>
     length (opts s) \<le> length (opts s') \<and>
     (\<forall>k < length (opts s). factory (opts s' ! k) = factory (opts s ! k)) \<and>
     (\<exists>os. objs s' = objs s @ os) \<and>
     (\<forall>c. map fst (meta s' c) = map fst (meta s c)) \<and>
     user_fns s' = user_fns s \<and>
     (recs_ok s \<longrightarrow> recs_ok s')"

definition frames :: "state \<Rightarrow> ('a, error, state) res \<Rightarrow> bool" where
  "frames s m \<longleftrightarrow> (\<forall>out s'. m = Some (out, s') \<longrightarrow> frame s s')"

lemma frame_refl [simp]: "frame s s"
  by (auto simp: frame_def)

lemma frame_trans: "frame s1 s2 \<Longrightarrow> frame s2 s3 \<Longrightarrow> frame s1 s3"
  by (fastforce simp: frame_def)

lemma frames_None [simp]: "frames s None"
  by (simp add: frames_def)

lemma frames_Some [simp]: "frames s (Some (out, s')) \<longleftrightarrow> frame s s'"
  by (simp add: frames_def)

lemma frames_bindr:
  assumes "frames s m"
    and "\<And>v s1. m = Some (Ok v, s1) \<Longrightarrow> frames s1 (f v s1)"
  shows "frames s (bindr m f)"
  using assms by (auto simp: frames_def bindr_def frame_trans split: option.splits outcome.splits)

lemma frames_frame: "frame s s1 \<Longrightarrow> frames s1 m \<Longrightarrow> frames s m"
  by (auto simp: frames_def intro: frame_trans)

lemma frame_new_record: "new_record opt s = (r, s') \<Longrightarrow> frame s s'"
  by (fastforce simp: frame_def recs_ok_def new_record_def alloc_def nth_append list_all_iff less_Suc_eq)

lemma frame_setValue: "frame s (setValue r v s)"
  by (cases "recs s ! r < length (opts s)")
     (auto simp: frame_def recs_ok_def setValue_def Let_def nth_list_update list_update_beyond)

lemma frames_new_obj: "frames s (new_obj c args s)"
  by (auto simp: frame_def recs_ok_def new_obj_def alloc_def)

lemma frame_reverse_args: "frame s (reverse_args c k s)"
  by (auto simp: frame_def recs_ok_def reverse_args_def case_prod_beta comp_def)

lemma frames_let_new_record:
  "(\<And>r s'. new_record opt s = (r, s') \<Longrightarrow> frames s' (g r s')) \<Longrightarrow>
   frames s (case new_record opt s of (r, s') \<Rightarrow> g r s')"
  by (auto intro: frames_frame frame_new_record split: prod.split)

lemma frames_new_record_state:
  "new_record opt s = (r, s') \<Longrightarrow> frames s' m \<Longrightarrow> frames s m"
  by (rule frames_frame [OF frame_new_record])

lemma frames_after_reverse:
  "frames (reverse_args c k s) (call_chain n i ps d (reverse_args c k s)) \<Longrightarrow>
   frames s (call_chain n i ps d (reverse_args c k s))"
  by (rule frames_frame [OF frame_reverse_args])

lemma frames_catch_undef: "frames s m \<Longrightarrow> frames s (catch_undef m)"
  by (auto simp: frames_def catch_undef_def split: option.splits outcome.splits)

lemmas frame_intros = frames_bindr frames_let_new_record frames_after_reverse frames_catch_undef

lemma resolution_frames:
  "frames s (injector_get n i t d flags s)"
  "frames s (record_create n r s)"
  "frames s (run_factory n f s)"
  "frames s (createMulti n cur pr s)"
  "frames s (getInjector n i dp s)"
  "frames s (resolve_deps n i ds s)"
  "frames s (type_params n i c ks acc s)"
  "frames s (call_chain n i ps d s)"
  "frames s (call_handler n h i p ps d s)"
proof (induction n i t d flags s and n r s and n f s and n cur pr s and n i dp s and n i ds s
    and n i c ks acc s and n i ps d s and n h i p ps d s
    rule: injector_get_record_create_run_factory_createMulti_getInjector_resolve_deps_type_params_call_chain_call_handler.induct)
qed (auto simp: Let_def frame_setValue frames_new_obj intro!: frame_intros
    intro: frames_new_record_state
    split: prod.splits option.splits if_splits outcome.splits val.splits fn.splits list.splits
      prev.splits)

end
