(* ===== verification/Fuel.thy ===== *)
theory Fuel
  imports Resolve
begin

text \<open>
  Fuel adequacy of the resolution semantics: a call that finishes with some fuel
  finishes with the same outcome and store under any larger fuel. So \<open>None\<close> at
  fuel \<open>n\<close> means only that the call stack is deeper than \<open>n\<close>, and a result
  obtained once is the result of the code.
\<close>

definition fuel_le :: "('a, error, state) res \<Rightarrow> ('a, error, state) res \<Rightarrow> bool" where
  "fuel_le m m' \<longleftrightarrow> (\<forall>r. m = Some r \<longrightarrow> m' = Some r)"

lemma fuel_le_None [simp]: "fuel_le None m'"
  by (simp add: fuel_le_def)

lemma fuel_le_Some [simp]: "fuel_le (Some r) m' \<longleftrightarrow> m' = Some r"
  by (simp add: fuel_le_def)

lemma fuel_le_refl [simp]: "fuel_le m m"
  by (simp add: fuel_le_def)

lemma fuel_le_bindr:
  assumes "fuel_le m m'"
    and "\<And>v s. m = Some (Ok v, s) \<Longrightarrow> fuel_le (f v s) (g v s)"
  shows "fuel_le (bindr m f) (bindr m' g)"
  using assms by (cases m) (auto simp: fuel_le_def bindr_def split: outcome.splits)

lemma fuel_le_catch_undef: "fuel_le m m' \<Longrightarrow> fuel_le (catch_undef m) (catch_undef m')"
  by (cases m) (auto simp: fuel_le_def catch_undef_def split: outcome.splits)

lemma all_ge_Suc: "(\<forall>m\<ge>Suc n. P m) \<longleftrightarrow> (\<forall>m\<ge>n. P (Suc m))"
  by (auto dest: Suc_le_D)

lemmas fuel_le_intros = fuel_le_bindr fuel_le_catch_undef

lemma resolution_fuel_mono:
  "\<forall>m\<ge>n. fuel_le (injector_get n i t d flags s) (injector_get m i t d flags s)"
  "\<forall>m\<ge>n. fuel_le (record_create n r s) (record_create m r s)"
  "\<forall>m\<ge>n. fuel_le (run_factory n f s) (run_factory m f s)"
  "\<forall>m\<ge>n. fuel_le (createMulti n cur pr s) (createMulti m cur pr s)"
  "\<forall>m\<ge>n. fuel_le (getInjector n i dp s) (getInjector m i dp s)"
  "\<forall>m\<ge>n. fuel_le (resolve_deps n i ds s) (resolve_deps m i ds s)"
  "\<forall>m\<ge>n. fuel_le (type_params n i c ks acc s) (type_params m i c ks acc s)"
  "\<forall>m\<ge>n. fuel_le (call_chain n i ps d s) (call_chain m i ps d s)"
  "\<forall>m\<ge>n. fuel_le (call_handler n h i p ps d s) (call_handler m h i p ps d s)"
proof (induction n i t d flags s and n r s and n f s and n cur pr s and n i dp s and n i ds s
    and n i c ks acc s and n i ps d s and n h i p ps d s
    rule: injector_get_record_create_run_factory_createMulti_getInjector_resolve_deps_type_params_call_chain_call_handler.induct)
qed (auto simp: Let_def all_ge_Suc intro!: fuel_le_intros
    split: prod.splits option.splits if_splits outcome.splits val.splits fn.splits list.splits
      prev.splits)

text \<open>
  Evaluating a call at a concrete fuel: the fuel numeral is unfolded one
  \<open>Suc\<close> at a time, and no other numeral of the call (flags, indices) is touched.
\<close>

lemma fuel_numeral:
  "injector_get (numeral k) = injector_get (Suc (pred_numeral k))"
  "record_create (numeral k) = record_create (Suc (pred_numeral k))"
  "run_factory (numeral k) = run_factory (Suc (pred_numeral k))"
  "createMulti (numeral k) = createMulti (Suc (pred_numeral k))"
  "getInjector (numeral k) = getInjector (Suc (pred_numeral k))"
  "resolve_deps (numeral k) = resolve_deps (Suc (pred_numeral k))"
  "type_params (numeral k) = type_params (Suc (pred_numeral k))"
  "call_chain (numeral k) = call_chain (Suc (pred_numeral k))"
  "call_handler (numeral k) = call_handler (Suc (pred_numeral k))"
  by (simp_all only: numeral_eq_Suc)

end
