(* ===== verification/Memo.thy ===== *)
theory Memo
  imports Frame Fuel
begin

text \<open>
  \<open>Record.create\<close> (\<open>types.ts\<close> lines 28--37): memoization of a produced value,
  the consequence of its truthiness test (a falsy result is not cached and a
  falsy \<open>useValue\<close> cannot be created at all), together with the two general
  facts every resolution obeys: it only extends the store (frame), and more fuel
  never changes a finished result.
\<close>

text \<open>An example store: a record whose factory returns 0, and one holding the value 0.\<close>

abbreviation falsy_state :: state where
  "falsy_state \<equiv>
     \<lparr>injs = [\<lparr>records = [Key ''z'' \<mapsto> 0], parent = None, name = None\<rparr>], recs = [0, 1],
      opts = [\<lparr>factory = Some (FUseFactory 0 [] 0), rvalue = Undef\<rparr>,
              \<lparr>factory = None, rvalue = VNum 0\<rparr>],
      objs = [], meta = \<lambda>_. [], user_fns = \<lambda>_ _. VNum 0\<rparr>"

abbreviation truthy_state :: state where
  "truthy_state \<equiv> falsy_state\<lparr>user_fns := \<lambda>_ _. VNum 5\<rparr>"

lemma frame_recs_nth: "frame s s' \<Longrightarrow> r < length (recs s) \<Longrightarrow> recs s' ! r = recs s ! r"
  by (auto simp: frame_def nth_append)

lemma frame_opts_length: "frame s s' \<Longrightarrow> k < length (opts s) \<Longrightarrow> k < length (opts s')"
  by (auto simp: frame_def)

lemma frame_factory: "frame s s' \<Longrightarrow> k < length (opts s) \<Longrightarrow> factory (opts s' ! k) = factory (opts s ! k)"
  by (auto simp: frame_def)

lemma getOptions_setValue_same:
  "recs s ! r < length (opts s) \<Longrightarrow> getOptions (setValue r v s) r = (getOptions s r)\<lparr>rvalue := v\<rparr>"
  by (simp add: getOptions_def setValue_def Let_def)

lemma rvalue_update_eq:
  "(x::rec_options)\<lparr>rvalue := v\<rparr> = y\<lparr>rvalue := v\<rparr> \<longleftrightarrow> factory x = factory y"
  by (cases x; cases y) simp

text \<open>One creation, by its two paths: a truthy stored value, or the factory's result stored.\<close>

lemma record_create_Suc_cases:
  assumes "record_create (Suc n) r s = Some (Ok v, s')"
  shows "(truthy (rvalue (getOptions s r)) \<and> v = rvalue (getOptions s r) \<and> s' = s) \<or>
         (\<exists>f s1. \<not> truthy (rvalue (getOptions s r)) \<and> factory (getOptions s r) = Some f \<and>
            run_factory n f s = Some (Ok v, s1) \<and> s' = setValue r v s1)"
  using assms by (auto simp: Let_def bindr_eq_Some_Ok split: if_splits option.splits)

lemma create_stores_value:
  assumes "record_create (Suc n) r s = Some (Ok v, s')"
    and "r < length (recs s)" and "recs s ! r < length (opts s)"
  shows "getOptions s' r = (getOptions s r)\<lparr>rvalue := v\<rparr>"
  using record_create_Suc_cases [OF assms(1)]
proof
  assume "truthy (rvalue (getOptions s r)) \<and> v = rvalue (getOptions s r) \<and> s' = s"
  then show ?thesis by simp
next
  assume "\<exists>f s1. \<not> truthy (rvalue (getOptions s r)) \<and> factory (getOptions s r) = Some f \<and>
            run_factory n f s = Some (Ok v, s1) \<and> s' = setValue r v s1"
  then obtain f s1 where run: "run_factory n f s = Some (Ok v, s1)" and s': "s' = setValue r v s1"
    by blast
  have fr: "frame s s1" using resolution_frames(3) [of s n f] run by simp
  then have "recs s1 ! r = recs s ! r" and "recs s ! r < length (opts s1)"
    using assms(2,3) by (simp_all add: frame_recs_nth frame_opts_length)
  moreover have "factory (opts s1 ! (recs s ! r)) = factory (opts s ! (recs s ! r))"
    using fr assms(3) by (rule frame_factory)
  ultimately have "getOptions s' r = (getOptions s1 r)\<lparr>rvalue := v\<rparr>"
    and "factory (getOptions s1 r) = factory (getOptions s r)"
    using s' by (simp_all add: getOptions_setValue_same) (simp add: getOptions_def)
  then show ?thesis by (simp add: rvalue_update_eq)
qed

subsection \<open>Claims\<close>

text \<open>
  C5. Resolution only extends the store: after \<open>get\<close> the injectors are the same,
  every record still points to its options object, every factory is unchanged,
  and records, options and instances have only been appended.
\<close>

theorem get_frame:
  assumes "injector_get n i t d flags s = Some (out, s')"
  shows "frame s s'"
  using resolution_frames(1) [of s n i t d flags] assms by simp

theorem get_frame_witness:
  "injector_get (Suc 3) 0 (Key ''z'') Undef 0 truthy_state
     = Some (Ok (VNum 5), setValue 0 (VNum 5) truthy_state)
   \<and> frame truthy_state (setValue 0 (VNum 5) truthy_state)"
proof -
  have h: "injector_get (Suc 3) 0 (Key ''z'') Undef 0 truthy_state
     = Some (Ok (VNum 5), setValue 0 (VNum 5) truthy_state)"
    by (simp add: get_flags_def getOptions_def numeral_eq_Suc)
  show ?thesis using h get_frame [OF h] by blast
qed

text \<open>
  More fuel never changes a finished lookup: a result of \<open>get\<close> is the
  result of the code, whatever larger call-stack bound is chosen.
\<close>

theorem get_fuel_mono:
  assumes "injector_get n i t d flags s = Some res" and "n \<le> m"
  shows "injector_get m i t d flags s = Some res"
  using resolution_fuel_mono(1) [of n i t d flags s] assms by (auto simp: fuel_le_def)

theorem get_fuel_mono_witness:
  "injector_get (Suc 3) 0 (Key ''z'') Undef 0 truthy_state
     = Some (Ok (VNum 5), setValue 0 (VNum 5) truthy_state)
   \<and> Suc 3 \<le> 100
   \<and> injector_get 100 0 (Key ''z'') Undef 0 truthy_state
     = Some (Ok (VNum 5), setValue 0 (VNum 5) truthy_state)"
proof -
  have h: "injector_get (Suc 3) 0 (Key ''z'') Undef 0 truthy_state
     = Some (Ok (VNum 5), setValue 0 (VNum 5) truthy_state)"
    by (simp add: get_flags_def getOptions_def numeral_eq_Suc)
  have le: "Suc 3 \<le> (100::nat)" by simp
  show ?thesis using h le get_fuel_mono [OF h le] by blast
qed

text \<open>
  C4. Memoization: once \<open>create()\<close> has returned a truthy value, every later
  \<open>create()\<close> of the record returns that value at once and changes nothing;
  the factory is not run again.
\<close>

theorem create_memoizes:
  assumes "record_create (Suc n) r s = Some (Ok v, s')" and "truthy v"
    and "r < length (recs s)" and "recs s ! r < length (opts s)"
  shows "record_create (Suc m) r s' = Some (Ok v, s')"
proof -
  have "getOptions s' r = (getOptions s r)\<lparr>rvalue := v\<rparr>"
    using assms(1,3,4) by (rule create_stores_value)
  with assms(2) show ?thesis by simp
qed

theorem create_memoizes_witness:
  "record_create (Suc 2) 0 truthy_state = Some (Ok (VNum 5), setValue 0 (VNum 5) truthy_state)
   \<and> truthy (VNum 5) \<and> 0 < length (recs truthy_state)
   \<and> recs truthy_state ! 0 < length (opts truthy_state)
   \<and> record_create (Suc 7) 0 (setValue 0 (VNum 5) truthy_state)
       = Some (Ok (VNum 5), setValue 0 (VNum 5) truthy_state)"
proof -
  have h1: "record_create (Suc 2) 0 truthy_state = Some (Ok (VNum 5), setValue 0 (VNum 5) truthy_state)"
    by (simp add: getOptions_def numeral_eq_Suc)
  have h2: "truthy (VNum 5)" and h3: "0 < length (recs truthy_state)"
    and h4: "recs truthy_state ! 0 < length (opts truthy_state)" by simp_all
  show ?thesis using h1 h2 h3 h4 create_memoizes [OF h1 h2 h3 h4, of 7] by blast
qed

text \<open>
  C17. The memo test is truthiness, not presence: after \<open>create()\<close> returned a
  falsy value (\<open>0\<close>, the empty string, \<open>false\<close>, \<open>null\<close>, \<open>undefined\<close>), the
  next \<open>create()\<close> runs the factory again.
\<close>

theorem create_reruns_factory_on_falsy:
  assumes "record_create (Suc n) r s = Some (Ok v, s')" and "\<not> truthy v"
    and "factory (getOptions s r) = Some f"
    and "r < length (recs s)" and "recs s ! r < length (opts s)"
  shows "record_create (Suc m) r s' = bindr (run_factory m f s') (\<lambda>w s''. Some (Ok w, setValue r w s''))"
proof -
  have "getOptions s' r = (getOptions s r)\<lparr>rvalue := v\<rparr>"
    using assms(1,4,5) by (rule create_stores_value)
  with assms(2,3) show ?thesis by simp
qed

theorem create_reruns_factory_on_falsy_witness:
  "record_create (Suc 2) 0 falsy_state = Some (Ok (VNum 0), setValue 0 (VNum 0) falsy_state)
   \<and> \<not> truthy (VNum 0) \<and> factory (getOptions falsy_state 0) = Some (FUseFactory 0 [] 0)
   \<and> 0 < length (recs falsy_state) \<and> recs falsy_state ! 0 < length (opts falsy_state)
   \<and> record_create (Suc 2) 0 (setValue 0 (VNum 0) falsy_state)
       = bindr (run_factory 2 (FUseFactory 0 [] 0) (setValue 0 (VNum 0) falsy_state))
           (\<lambda>w s''. Some (Ok w, setValue 0 w s''))"
proof -
  have h1: "record_create (Suc 2) 0 falsy_state = Some (Ok (VNum 0), setValue 0 (VNum 0) falsy_state)"
    by (simp add: getOptions_def numeral_eq_Suc)
  have h2: "\<not> truthy (VNum 0)" and h3: "factory (getOptions falsy_state 0) = Some (FUseFactory 0 [] 0)"
    and h4: "0 < length (recs falsy_state)" and h5: "recs falsy_state ! 0 < length (opts falsy_state)"
    by (simp_all add: getOptions_def)
  show ?thesis using h1 h2 h3 h4 h5 create_reruns_factory_on_falsy [OF h1 h2 h3 h4 h5, of 2] by blast
qed

text \<open>
  C18. A record holding a falsy value and no factory, as \<open>createUseValueRecord\<close>
  builds for \<open>{useValue: 0}\<close> and the like, cannot be created: \<open>create()\<close>
  throws \<open>record create error\<close>.
\<close>

theorem create_falsy_value_fails:
  assumes "getOptions s r = createUseValueRecord_opts v" and "\<not> truthy v"
  shows "record_create (Suc n) r s = Some (Err RecordCreateError, s)"
  using assms by (simp add: createUseValueRecord_opts_def)

theorem create_falsy_value_fails_witness:
  "getOptions falsy_state 1 = createUseValueRecord_opts (VNum 0) \<and> \<not> truthy (VNum 0)
   \<and> record_create (Suc 0) 1 falsy_state = Some (Err RecordCreateError, falsy_state)"
proof -
  have h1: "getOptions falsy_state 1 = createUseValueRecord_opts (VNum 0)"
    by (simp add: getOptions_def createUseValueRecord_opts_def)
  have h2: "\<not> truthy (VNum 0)" by simp
  show ?thesis using h1 h2 create_falsy_value_fails [OF h1 h2, of 0] by blast
qed

end
