(* ===== verification/Register.thy ===== *)
theory Register
  imports Store
begin

text \<open>
  Provider registration: \<open>createProviderRecord\<close> and \<open>getRecordHandler\<close>
  (\<open>util.ts\<close> lines 21--63), the \<open>StaticInjector\<close> constructor and
  \<open>createInjector\<close> (\<open>injector.ts\<close> lines 18--26, 60--62), and the injector
  factories \<open>createInjectorFactory\<close>, \<open>topInjectorFactory\<close> and
  \<open>coreInjectorFactory\<close> with its four handler providers (lines 63--110).
  Registration always terminates; a thrown error keeps the mutations made
  before it, so every operation returns its outcome with the store.
\<close>

type_synonym 'a reg = "('a, error) outcome \<times> state"

subsection \<open>Classification and the record handler\<close>

text \<open>The \<open>if\<close> chain of \<open>createProviderRecord\<close> (lines 49--61), first match wins.\<close>

definition classify :: "provider_obj \<Rightarrow> shape option" where
  "classify p =
     (if isUseValue p then Some (SUseValue (the (useValue p)))
      else if isUseClass p then Some (SUseClass (the (useClass p)))
      else if isUseFactory p then Some (SUseFactory (the (useFactory p)))
      else if isUseExisting p then Some (SUseExisting (the (useExisting p)))
      else case provide p of Cls c \<Rightarrow> Some (SConstructor c) | _ \<Rightarrow> None)"

text \<open>
  \<open>getRecordHandler(it, record, _record, injector)(createMultiRecord, createRecord)\<close>:
  an existing record (found in this injector or an ancestor) is overwritten in
  place by \<open>setRecord\<close>; otherwise the new record is set in this injector's map.
\<close>

definition getRecordHandler :: "provider_obj \<Rightarrow> shape \<Rightarrow> nat option \<Rightarrow> nat \<Rightarrow> state \<Rightarrow> state" where
  "getRecordHandler p sh record i s =
     (let newopts = (if multi p then createMultiRecord_opts sh (deps p) i record
                     else createRecord_opts sh (deps p) i);
          (r', s1) = new_record newopts s
      in case record of
           Some r \<Rightarrow> setRecord r r' s1
         | None \<Rightarrow> record_set i (provide p) r' s1)"

subsection \<open>createProviderRecord\<close>

text \<open>
  The ancestor walk of \<open>injector.getRecord(it.provide)\<close> is bounded by the number
  of injectors, which is enough since parents are created before their children.
\<close>

fun createProviderRecord :: "provider \<Rightarrow> nat \<Rightarrow> state \<Rightarrow> unit reg"
and createProviderRecords :: "provider list \<Rightarrow> nat \<Rightarrow> state \<Rightarrow> unit reg" where
  "createProviderRecord (PType c) i s =
     (let (r, s1) = new_record (createTypeRecord_opts c i) s in (Ok (), record_set i (Cls c) r s1))"
| "createProviderRecord (PArr ps) i s = createProviderRecords ps i s"
| "createProviderRecord (PObj p) i s =
     (let record = getRecord (length (injs s)) s i (provide p) in
      case classify p of
        None \<Rightarrow> (Err UnknownProviderError, s)
      | Some sh \<Rightarrow> (Ok (), getRecordHandler p sh record i s))"
| "createProviderRecords [] i s = (Ok (), s)"
| "createProviderRecords (p # ps) i s =
     (case createProviderRecord p i s of
        (Ok _, s1) \<Rightarrow> createProviderRecords ps i s1
      | (Err e, s1) \<Rightarrow> (Err e, s1))"

subsection \<open>Injectors\<close>

text \<open>The abstract class \<open>Injector\<close>, used as the token of the self record.\<close>

definition Injector_token :: token where
  "Injector_token = Cls ''Injector''"

text \<open>
  \<open>new StaticInjector(providers, name, parent)\<close>, i.e. \<open>createInjector\<close>: the
  new injector gets the next address, its map the self record
  \<open>Injector \<mapsto> new Record({value: this})\<close>, then each provider is registered
  in order.
\<close>

definition createInjector :: "provider list \<Rightarrow> string option \<Rightarrow> nat option \<Rightarrow> state \<Rightarrow> nat reg" where
  "createInjector providers nm par s =
     (let i = length (injs s);
          s1 = s\<lparr>injs := injs s @ [\<lparr>records = Map.empty, parent = par, name = nm\<rparr>]\<rparr>;
          (r, s2) = new_record \<lparr>factory = None, rvalue = VInj i\<rparr> s1;
          s3 = record_set i Injector_token r s2
      in case createProviderRecords providers i s3 of
           (Ok _, s4) \<Rightarrow> (Ok i, s4)
         | (Err e, s4) \<Rightarrow> (Err e, s4))"

type_synonym injector_factory = "provider list \<Rightarrow> state \<Rightarrow> nat reg"

definition createInjectorFactory ::
  "injector_factory \<Rightarrow> string \<Rightarrow> provider list \<Rightarrow> state \<Rightarrow> injector_factory reg" where
  "createInjectorFactory par nm providers s =
     (case par providers s of
        (Ok p, s1) \<Rightarrow> (Ok (\<lambda>all. createInjector all (Some nm) (Some p)), s1)
      | (Err e, s1) \<Rightarrow> (Err e, s1))"

definition topInjectorFactory :: injector_factory where
  "topInjectorFactory providers = createInjector providers (Some ''top'') None"

text \<open>The four handler providers registered by \<open>coreInjectorFactory\<close>.\<close>

definition handler_providers :: "provider list" where
  "handler_providers =
     [PObj ((provider_base defaultParameterHandlerToken)\<lparr>useValue := Some (VFn HDefault)\<rparr>),
      PObj ((provider_base OptionalMetadataKey)\<lparr>useValue := Some (VFn HOptional)\<rparr>),
      PObj ((provider_base SkipSelfMetadataKey)\<lparr>useValue := Some (VFn HSkipSelf)\<rparr>),
      PObj ((provider_base InjectMetadataKey)\<lparr>useValue := Some (VFn HInject)\<rparr>)]"

text \<open>
  \<open>coreInjectorFactory\<close> is built at module load: the top injector holding the
  handlers is created then, and each call creates a \<open>core\<close> child of it.
\<close>

definition coreInjectorFactory :: "state \<Rightarrow> injector_factory reg" where
  "coreInjectorFactory s = createInjectorFactory topInjectorFactory ''core'' handler_providers s"

end
