(* ===== verification/Scope.thy ===== *)
theory Scope
  imports Resolve
begin

text \<open>
  Scoped lookup of \<open>StaticInjector.get\<close> (\<open>injector.ts\<close> lines 27--49):
  which of the own map, the parent and the default a call consults under each
  flag value, and the refinement of \<open>get\<close> with default flags by the
  ancestor walk \<open>getRecord\<close>: a default lookup creates the nearest ancestor's
  record for the token and throws \<open>NotFoundError\<close> when there is none.
\<close>

unbundle bit_operations_syntax

text \<open>
  The ancestor chain of an injector ends at a root within \<open>k\<close> steps. Parents are
  created before their children, so the chain of injector \<open>i\<close> ends within
  \<open>i + 1\<close> steps in every store built by \<open>createInjector\<close>.
\<close>

fun reaches_root :: "nat \<Rightarrow> state \<Rightarrow> nat \<Rightarrow> bool" where
  "reaches_root 0 s i = False"
| "reaches_root (Suc k) s i = (case parent (injs s ! i) of None \<Rightarrow> True | Some p \<Rightarrow> reaches_root k s p)"

text \<open>
  Example stores: one root injector binding the key \<open>a\<close> to the value 1, and a
  child of it that binds nothing.
\<close>

abbreviation one_value_state :: state where
  "one_value_state \<equiv>
     \<lparr>injs = [\<lparr>records = [Key ''a'' \<mapsto> 0], parent = None, name = None\<rparr>], recs = [0],
      opts = [\<lparr>factory = None, rvalue = VNum 1\<rparr>], objs = [], meta = \<lambda>_. [],
      user_fns = \<lambda>_ _. Undef\<rparr>"

abbreviation child_state :: state where
  "child_state \<equiv>
     \<lparr>injs = [\<lparr>records = [Key ''a'' \<mapsto> 0], parent = None, name = None\<rparr>,
             \<lparr>records = Map.empty, parent = Some 0, name = None\<rparr>], recs = [0],
      opts = [\<lparr>factory = None, rvalue = VNum 1\<rparr>], objs = [], meta = \<lambda>_. [],
      user_fns = \<lambda>_ _. Undef\<rparr>"

subsection \<open>Reading the flags\<close>

lemma and_flag_bit:
  "((1::nat) AND n = 1) = odd n"
  "((2::nat) AND n = 2) = bit n 1"
  "((4::nat) AND n = 4) = bit n 2"
  using and_pow2 [of n 1] and_pow2 [of n 2]
  by (simp_all add: one_and_eq odd_iff_mod_2_eq_one and.commute)

lemma get_flags_eq:
  "get_flags flags =
     (if flags = 0 then (True, True, False) else (odd flags, bit flags 1, bit flags 2))"
  by (simp add: get_flags_def and_flag_bit odd_iff_mod_2_eq_one)

text \<open>\<open>get\<close> after one step, with the three tests of the source as conditions.\<close>

lemma injector_get_Suc:
  "injector_get (Suc n) i t d flags s =
     (if (flags = 0 \<or> odd flags) \<and> records (injs s ! i) t \<noteq> None
      then record_create n (the (records (injs s ! i) t)) s
      else if parent (injs s ! i) \<noteq> None \<and> (flags = 0 \<or> bit flags 1)
      then injector_get n (the (parent (injs s ! i))) t d 0 s
      else if flags \<noteq> 0 \<and> bit flags 2 then Some (Ok d, s)
      else Some (Err NotFoundError, s))"
  by (cases "records (injs s ! i) t"; cases "parent (injs s ! i)")
     (simp_all add: get_flags_eq Let_def)

subsection \<open>One level of lookup\<close>

text \<open>C6. A local record wins whenever the Self bit is read (or the flags are the default).\<close>

theorem get_self_first:
  assumes "records (injs s ! i) t = Some r"
    and "flags = InjectFlags_Default \<or> odd flags"
  shows "injector_get (Suc n) i t d flags s = record_create n r s"
  using assms by (simp add: injector_get_Suc del: injector_get.simps)

theorem get_self_first_witness:
  "records (injs one_value_state ! 0) (Key ''a'') = Some 0
   \<and> (OptionFlags_Default = InjectFlags_Default \<or> odd OptionFlags_Default)
   \<and> injector_get (Suc 1) 0 (Key ''a'') Undef OptionFlags_Default one_value_state
       = record_create 1 0 one_value_state"
  using get_self_first [of one_value_state 0 "Key ''a''" 0 OptionFlags_Default 1 Undef]
  by simp

text \<open>
  C7. Without a local record, a lookup whose Parent bit is read delegates to the
  parent, and the delegation resets the flags to \<open>InjectFlags.Default\<close>.
\<close>

theorem get_parent_fallback:
  assumes "records (injs s ! i) t = None"
    and "parent (injs s ! i) = Some p"
    and "flags = InjectFlags_Default \<or> bit flags 1"
  shows "injector_get (Suc n) i t d flags s = injector_get n p t d InjectFlags_Default s"
  using assms by (simp add: injector_get_Suc del: injector_get.simps)

theorem get_parent_fallback_witness:
  "records (injs child_state ! 1) (Key ''a'') = None
   \<and> parent (injs child_state ! 1) = Some 0
   \<and> (InjectFlags_Default = InjectFlags_Default \<or> bit InjectFlags_Default 1)
   \<and> injector_get (Suc 2) 1 (Key ''a'') Undef InjectFlags_Default child_state
       = injector_get 2 0 (Key ''a'') Undef InjectFlags_Default child_state"
  using get_parent_fallback [of child_state 1 "Key ''a''" 0 InjectFlags_Default 2 Undef]
  by simp

text \<open>
  C19. With \<open>InjectFlags.Self\<close> only, a token the injector does not bind itself
  throws \<open>NotFoundError\<close>, whatever its ancestors bind.
\<close>

theorem get_self_only_not_found:
  assumes "records (injs s ! i) t = None"
  shows "injector_get (Suc n) i t d OptionFlags_Self s = Some (Err NotFoundError, s)"
  using assms by (simp add: injector_get_Suc del: injector_get.simps)

theorem get_self_only_not_found_witness:
  "records (injs child_state ! 1) (Key ''a'') = None
   \<and> injector_get (Suc 2) 1 (Key ''a'') Undef OptionFlags_Self child_state
       = Some (Err NotFoundError, child_state)"
  using get_self_only_not_found [of child_state 1 "Key ''a''" 2 Undef]
  by simp

text \<open>
  C20. \<open>get(token, def, InjectFlags.Optional)\<close> reads neither the Self nor the
  Parent bit: it returns the default without looking the token up, even where the
  injector binds it.
\<close>

theorem get_optional_alone_skips_lookup:
  "injector_get (Suc n) i t d OptionFlags_Optional s = Some (Ok d, s)"
  by (simp add: injector_get_Suc del: injector_get.simps)

theorem get_optional_alone_skips_lookup_witness:
  "records (injs one_value_state ! 0) (Key ''a'') = Some 0
   \<and> injector_get (Suc 3) 0 (Key ''a'') (VNum 9) OptionFlags_Optional one_value_state
       = Some (Ok (VNum 9), one_value_state)"
  using get_optional_alone_skips_lookup [of 3 0 "Key ''a''" "VNum 9" one_value_state]
  by simp

subsection \<open>Default lookup refines the ancestor walk\<close>

lemma get_chain_found:
  "getRecord k s i t = Some r \<Longrightarrow>
   \<exists>j<k. \<forall>n. injector_get (Suc (n + j)) i t d InjectFlags_Default s = record_create n r s"
proof (induction k arbitrary: i)
  case 0
  then show ?case by simp
next
  case (Suc k)
  show ?case
  proof (cases "records (injs s ! i) t")
    case (Some r')
    with Suc.prems have "r' = r" by simp
    with Some show ?thesis by (auto simp: injector_get_Suc simp del: injector_get.simps)
  next
    case None
    with Suc.prems obtain p where p: "parent (injs s ! i) = Some p" and "getRecord k s p t = Some r"
      by (auto split: option.splits)
    then obtain j where "j < k" and
      IH: "\<forall>n. injector_get (Suc (n + j)) p t d InjectFlags_Default s = record_create n r s"
      using Suc.IH by blast
    have "\<forall>n. injector_get (Suc (n + Suc j)) i t d InjectFlags_Default s = record_create n r s"
      using None p IH by (simp add: injector_get_Suc del: injector_get.simps)
    with \<open>j < k\<close> show ?thesis by (intro exI [of _ "Suc j"]) simp
  qed
qed

lemma get_chain_missing:
  "reaches_root k s i \<Longrightarrow> getRecord k s i t = None \<Longrightarrow>
   injector_get (n + k) i t d InjectFlags_Default s = Some (Err NotFoundError, s)"
proof (induction k arbitrary: i)
  case 0
  then show ?case by simp
next
  case (Suc k)
  then have loc: "records (injs s ! i) t = None" by (auto split: option.splits)
  show ?case
  proof (cases "parent (injs s ! i)")
    case None
    with loc show ?thesis by (simp add: injector_get_Suc del: injector_get.simps)
  next
    case (Some p)
    with Suc.prems loc have "reaches_root k s p" and "getRecord k s p t = None" by simp_all
    then have "injector_get (n + k) p t d InjectFlags_Default s = Some (Err NotFoundError, s)"
      by (rule Suc.IH)
    with loc Some show ?thesis by (simp add: injector_get_Suc del: injector_get.simps)
  qed
qed

text \<open>
  C3. Refinement, found case: when the ancestor walk \<open>getRecord\<close> finds a record
  for the token, \<open>get\<close> with default flags creates exactly that record, after
  one step per level climbed.
\<close>

theorem get_refines_getRecord_found:
  assumes "getRecord k s i t = Some r"
  shows "\<exists>j<k. \<forall>n. injector_get (Suc (n + j)) i t d InjectFlags_Default s = record_create n r s"
  using assms by (rule get_chain_found)

theorem get_refines_getRecord_found_witness:
  "getRecord 2 child_state 1 (Key ''a'') = Some 0
   \<and> (\<exists>j<2. \<forall>n. injector_get (Suc (n + j)) 1 (Key ''a'') Undef InjectFlags_Default child_state
        = record_create n 0 child_state)"
proof -
  have h: "getRecord 2 child_state 1 (Key ''a'') = Some 0" by (simp add: numeral_eq_Suc)
  show ?thesis using h get_refines_getRecord_found [OF h] by blast
qed

text \<open>
  C11. Refinement, missing case: when the chain ends at a root and no injector on it
  binds the token, \<open>get\<close> with default flags throws \<open>NotFoundError\<close> and
  changes nothing.
\<close>

theorem get_refines_getRecord_missing:
  assumes "reaches_root k s i" and "getRecord k s i t = None"
  shows "injector_get (n + k) i t d InjectFlags_Default s = Some (Err NotFoundError, s)"
  using assms by (rule get_chain_missing)

theorem get_refines_getRecord_missing_witness:
  "reaches_root 2 child_state 1 \<and> getRecord 2 child_state 1 (Key ''b'') = None
   \<and> injector_get (0 + 2) 1 (Key ''b'') Undef InjectFlags_Default child_state
       = Some (Err NotFoundError, child_state)"
proof -
  have h1: "reaches_root 2 child_state 1" by (simp add: numeral_eq_Suc)
  have h2: "getRecord 2 child_state 1 (Key ''b'') = None" by (simp add: numeral_eq_Suc)
  show ?thesis using h1 h2 get_refines_getRecord_missing [OF h1 h2, of 0 Undef] by blast
qed

text \<open>
  C16. The Optional flag does not survive delegation: a lookup with
  \<open>Self | Parent | Optional\<close> from an injector that has a parent, of a token no
  injector on the chain binds, throws \<open>NotFoundError\<close> instead of returning the
  default, since the parent is asked with \<open>InjectFlags.Default\<close>.
\<close>

theorem get_optional_lost_below_root:
  assumes "parent (injs s ! i) = Some p"
    and "reaches_root k s p"
    and "getRecord (Suc k) s i t = None"
  shows "injector_get (Suc (n + k)) i t d (OptionFlags_Default OR OptionFlags_Optional) s
           = Some (Err NotFoundError, s)"
proof -
  from assms(1,3) have loc: "records (injs s ! i) t = None" and up: "getRecord k s p t = None"
    by (auto split: option.splits)
  have "injector_get (n + k) p t d InjectFlags_Default s = Some (Err NotFoundError, s)"
    using assms(2) up by (rule get_chain_missing)
  with assms(1) loc show ?thesis by (simp add: injector_get_Suc del: injector_get.simps)
qed

theorem get_optional_lost_below_root_witness:
  "parent (injs child_state ! 1) = Some 0 \<and> reaches_root 1 child_state 0
   \<and> getRecord (Suc 1) child_state 1 (Key ''b'') = None
   \<and> injector_get (Suc (0 + 1)) 1 (Key ''b'') Undef (OptionFlags_Default OR OptionFlags_Optional) child_state
       = Some (Err NotFoundError, child_state)"
proof -
  have h1: "parent (injs child_state ! 1) = Some 0" by simp
  have h2: "reaches_root 1 child_state 0" by (simp add: numeral_eq_Suc)
  have h3: "getRecord (Suc 1) child_state 1 (Key ''b'') = None" by (simp add: numeral_eq_Suc)
  show ?thesis using h1 h2 h3 get_optional_lost_below_root [OF h1 h2 h3, of 0 Undef] by blast
qed

end
