(* ===== verification/Multi.thy ===== *)
theory Multi
  imports Memo Register Scope
begin

text \<open>
  Multi bindings (\<open>util.ts\<close> lines 11--19, 21--38, 66--73, 116--188):
  registering a \<open>multi\<close> provider for a token that already has a record
  rewrites that record in place with \<open>setRecord\<close>, and the new options' factory
  captures the record itself as \<open>_pre\<close>. The record then refers to itself:
  creating it runs \<open>createMulti(current, record)\<close>, which creates the record
  again. This theory proves that such a record never yields a value, that for a
  \<open>useFactory\<close> member resolution does not return under any call-depth bound,
  and what the first, single multi registration yields.
\<close>

text \<open>
  The state \<open>setRecord\<close> leaves after a second \<open>multi\<close> registration: record
  \<open>r\<close> points to options holding no truthy value whose factory is a multi
  closure capturing \<open>r\<close> itself.
\<close>

definition multi_self_loop :: "nat \<Rightarrow> state \<Rightarrow> bool" where
  "multi_self_loop r s \<longleftrightarrow>
     r < length (recs s) \<and> recs s ! r < length (opts s) \<and>
     \<not> truthy (rvalue (getOptions s r)) \<and>
     (case factory (getOptions s r) of Some (FMulti sh ds i (PrevRec r')) \<Rightarrow> r' = r | _ \<Rightarrow> False)"

subsection \<open>Reads of record options after allocation and writes\<close>

lemma getOptions_new_record_old [heap_simps]:
  "r < length (recs s) \<Longrightarrow> recs s ! r < length (opts s) \<Longrightarrow>
   getOptions (snd (new_record opt s)) r = getOptions s r"
  by (simp add: new_record_def getOptions_def alloc_def nth_append)

lemma getOptions_new_record_new [heap_simps]:
  "getOptions (snd (new_record opt s)) (fst (new_record opt s)) = opt"
  by (simp add: new_record_def getOptions_def alloc_def nth_append)

lemma getOptions_setValue_other [heap_simps]:
  "recs s ! r' \<noteq> recs s ! r \<Longrightarrow> getOptions (setValue r' v s) r = getOptions s r"
  by (simp add: getOptions_def setValue_def Let_def)

lemma new_record_lengths [heap_simps]:
  "length (recs (snd (new_record opt s))) = Suc (length (recs s))"
  "length (opts (snd (new_record opt s))) = Suc (length (opts s))"
  by (simp_all add: new_record_def alloc_def)

lemma new_record_recs_new [heap_simps]:
  "recs (snd (new_record opt s)) ! fst (new_record opt s) = length (opts s)"
  by (simp add: new_record_def alloc_def nth_append)

lemma new_record_recs_old [heap_simps]:
  "r < length (recs s) \<Longrightarrow> recs (snd (new_record opt s)) ! r = recs s ! r"
  by (simp add: new_record_def alloc_def nth_append)

lemma setValue_lengths [heap_simps]:
  "length (recs (setValue r v s)) = length (recs s)"
  "length (opts (setValue r v s)) = length (opts s)"
  "recs (setValue r v s) = recs s"
  by (simp_all add: setValue_def Let_def)

lemma new_record_eq:
  "new_record opt s = (length (recs s), s\<lparr>opts := opts s @ [opt], recs := recs s @ [length (opts s)]\<rparr>)"
  by (simp add: new_record_def alloc_def)

subsection \<open>A multi record over a useFactory member never returns\<close>

lemma multi_factory_record_diverges:
  assumes "factory (getOptions s r) = Some (FMulti (SUseFactory f) None i (PrevRec r))"
    and "\<not> truthy (rvalue (getOptions s r))"
    and "r < length (recs s)" and "recs s ! r < length (opts s)"
  shows "record_create n r s = None"
  using assms
proof (induction n arbitrary: s rule: less_induct)
  case (less n)
  show ?case
  proof (cases "n < 6")
    case True
    then consider "n = 0" | "n = 1" | "n = 2" | "n = 3" | "n = 4" | "n = 5" by linarith
    then show ?thesis using less.prems
      by cases (simp_all add: new_record_eq getOptions_def nth_append createUseFactoryRecord_opts_def
          numeral_eq_Suc)
  next
    case False
    then have "n = Suc (Suc (Suc (Suc (Suc (Suc (n - 6))))))" by simp
    then obtain k where n: "n = Suc (Suc (Suc (Suc (Suc (Suc k)))))" by blast
    let ?cur = "length (recs s)"
    let ?s1 = "s\<lparr>opts := opts s @ [createUseFactoryRecord_opts f None i], recs := recs s @ [length (opts s)]\<rparr>"
    let ?s2 = "setValue ?cur (user_fns s f []) ?s1"
    have ih: "record_create (Suc (Suc (Suc k))) r ?s2 = None"
      using less.prems
      by (intro less.IH) (simp_all add: n getOptions_def setValue_def nth_append)
    show ?thesis using less.prems ih
      by (simp add: n new_record_eq getOptions_def nth_append createUseFactoryRecord_opts_def)
  qed
qed

subsection \<open>Registration leaves the self-referential record\<close>

lemma getRecord_same_injs:
  "injs s' = injs s \<Longrightarrow> getRecord k s' i t = getRecord k s i t"
  by (induction k arbitrary: i) (simp_all split: option.splits)

lemma multi_factory_registration:
  assumes "multi p" and "classify p = Some (SUseFactory f)"
    and "getRecord (length (injs s)) s i (provide p) = Some r" and "r < length (recs s)"
    and "createProviderRecord (PObj p) i s = (Ok (), s')"
  shows "factory (getOptions s' r) = Some (FMulti (SUseFactory f) (deps p) i (PrevRec r))"
    and "rvalue (getOptions s' r) = Undef"
    and "r < length (recs s')" and "recs s' ! r < length (opts s')"
    and "injs s' = injs s"
  using assms
  by (auto simp: getRecordHandler_def new_record_eq setRecord_def getOptions_def nth_append)

text \<open>A record that never finishes creation makes every lookup reaching it never finish.\<close>

lemma get_diverges_if_record_diverges:
  assumes "getRecord k s i t = Some r" and "\<forall>m. record_create m r s = None"
  shows "injector_get n i t d InjectFlags_Default s = None"
proof (rule ccontr)
  assume "injector_get n i t d InjectFlags_Default s \<noteq> None"
  then obtain res where res: "injector_get n i t d InjectFlags_Default s = Some res" by blast
  obtain j where j: "\<forall>m. injector_get (Suc (m + j)) i t d InjectFlags_Default s = record_create m r s"
    using get_chain_found [OF assms(1)] by blast
  have "n \<le> Suc (n + j)" by simp
  then have "fuel_le (injector_get n i t d InjectFlags_Default s)
                     (injector_get (Suc (n + j)) i t d InjectFlags_Default s)"
    using resolution_fuel_mono(1) [of n i t d InjectFlags_Default s] by blast
  then have "injector_get (Suc (n + j)) i t d InjectFlags_Default s = Some res"
    using res by (simp only: fuel_le_Some)
  moreover have "injector_get (Suc (n + j)) i t d InjectFlags_Default s = None"
    using j assms(2) by (simp only:)
  ultimately show False by (simp only: option.distinct)
qed

subsection \<open>Examples\<close>

text \<open>A multi \<open>useFactory\<close> provider for the key \<open>m\<close>, and a store whose user function \<open>f\<close> returns \<open>f + 1\<close>.\<close>

abbreviation multi_factory_provider :: "nat \<Rightarrow> provider_obj" where
  "multi_factory_provider f \<equiv> (provider_base (Key ''m''))\<lparr>multi := True, useFactory := Some f\<rparr>"

abbreviation multi_store0 :: state where
  "multi_store0 \<equiv> init_state (\<lambda>_. []) (\<lambda>f _. VNum (int f + 1))"

text \<open>
  The store after \<open>createInjector([{provide: 'm', multi: true, useFactory: f0}])\<close>:
  the self record and the multi record, whose closure captured no previous record.
\<close>

abbreviation multi_store1 :: state where
  "multi_store1 \<equiv>
     \<lparr>injs = [\<lparr>records = [Injector_token \<mapsto> 0, Key ''m'' \<mapsto> 1], parent = None, name = None\<rparr>],
      recs = [0, 1],
      opts = [\<lparr>factory = None, rvalue = VInj 0\<rparr>,
              \<lparr>factory = Some (FMulti (SUseFactory 0) None 0 PrevNone), rvalue = Undef\<rparr>],
      objs = [], meta = \<lambda>_. [], user_fns = \<lambda>f _. VNum (int f + 1)\<rparr>"

lemmas multi_example_simps = Let_def new_record_eq record_set_def classify_def
  isUseValue_def isUseClass_def isUseFactory_def isUseExisting_def provider_base_def
  getRecordHandler_def setRecord_def getOptions_def

lemma multi_store1_created:
  "createInjector [PObj (multi_factory_provider 0)] None None multi_store0 = (Ok 0, multi_store1)"
  by (simp add: createInjector_def init_state_def multi_example_simps Injector_token_def)

text \<open>The store of \<open>createInjector([])\<close>: the root injector with only its self record.\<close>

abbreviation multi_store_empty :: state where
  "multi_store_empty \<equiv>
     \<lparr>injs = [\<lparr>records = [Injector_token \<mapsto> 0], parent = None, name = None\<rparr>],
      recs = [0], opts = [\<lparr>factory = None, rvalue = VInj 0\<rparr>],
      objs = [], meta = \<lambda>_. [], user_fns = \<lambda>f _. VNum (int f + 1)\<rparr>"

text \<open>Registration of a multi provider for a token no injector on the chain binds.\<close>

lemma multi_first_registration:
  assumes "multi p" and "classify p = Some sh"
    and "getRecord (length (injs s)) s i (provide p) = None" and "i < length (injs s)"
    and "createProviderRecord (PObj p) i s = (Ok (), s')"
  shows "s' = record_set i (provide p) (length (recs s))
                (snd (new_record (createMultiRecord_opts sh (deps p) i None) s))"
  using assms by (simp add: getRecordHandler_def new_record_eq)

lemma record_set_lookup:
  "i < length (injs s) \<Longrightarrow> records (injs (record_set i t r s) ! i) t = Some r"
  by (simp add: record_set_def)

lemma fuel_at_least:
  "k \<le> (n::nat) \<Longrightarrow> \<exists>m. n = m + k"
  by (rule exI [of _ "n - k"]) simp

subsection \<open>Claims\<close>

text \<open>
  C1. A second \<open>multi\<close> registration for a token makes it unresolvable: after
  registering a \<open>multi\<close> \<open>useFactory\<close> provider (without \<open>deps\<close>) for a token
  that already has a record, \<open>get\<close> of that token does not return under any
  call-depth bound (in JavaScript, the call stack overflows), instead of
  returning the array of both members.
\<close>

theorem multi_rebinding_diverges:
  assumes "multi p" and "classify p = Some (SUseFactory f)" and "deps p = None"
    and "getRecord (length (injs s)) s i (provide p) = Some r" and "r < length (recs s)"
    and "createProviderRecord (PObj p) i s = (Ok (), s')"
  shows "injector_get n i (provide p) d InjectFlags_Default s' = None"
proof -
  note reg = multi_factory_registration [OF assms(1,2,4,5,6)]
  have "getRecord (length (injs s)) s' i (provide p) = Some r"
    using assms(4) by (simp only: getRecord_same_injs [OF reg(5)])
  moreover have "\<forall>m. record_create m r s' = None"
    using reg(1-4) assms(3) by (auto intro: multi_factory_record_diverges)
  ultimately show ?thesis by (rule get_diverges_if_record_diverges)
qed

theorem multi_rebinding_diverges_witness:
  "createProviderRecord (PObj (multi_factory_provider 1)) 0 multi_store1
     = (Ok (), setRecord 1 2 (snd (new_record
          \<lparr>factory = Some (FMulti (SUseFactory 1) None 0 (PrevRec 1)), rvalue = Undef\<rparr> multi_store1)))
   \<and> (\<forall>n. injector_get n 0 (Key ''m'') Undef 0 (setRecord 1 2 (snd (new_record
          \<lparr>factory = Some (FMulti (SUseFactory 1) None 0 (PrevRec 1)), rvalue = Undef\<rparr> multi_store1))) = None)"
proof -
  let ?s' = "setRecord 1 2 (snd (new_record
          \<lparr>factory = Some (FMulti (SUseFactory 1) None 0 (PrevRec 1)), rvalue = Undef\<rparr> multi_store1))"
  have h1: "multi (multi_factory_provider 1)" by simp
  have h2: "classify (multi_factory_provider 1) = Some (SUseFactory 1)"
    by (simp add: multi_example_simps)
  have h3: "deps (multi_factory_provider 1) = None" by (simp add: provider_base_def)
  have h4: "getRecord (length (injs multi_store1)) multi_store1 0 (provide (multi_factory_provider 1)) = Some 1"
    by (simp add: provider_base_def Injector_token_def)
  have h5: "1 < length (recs multi_store1)" by simp
  have h6: "createProviderRecord (PObj (multi_factory_provider 1)) 0 multi_store1 = (Ok (), ?s')"
    by (simp add: multi_example_simps Injector_token_def createMultiRecord_opts.simps)
  have "\<forall>n. injector_get n 0 (provide (multi_factory_provider 1)) Undef InjectFlags_Default ?s' = None"
    using multi_rebinding_diverges [OF h1 h2 h3 h4 h5 h6] by blast
  then show ?thesis using h6 by (simp add: provider_base_def)
qed

text \<open>
  C10. A single \<open>multi\<close> \<open>useFactory\<close> provider works: registered for a token
  no injector on the chain binds, \<open>get\<close> returns the one-element array of the
  factory's result (given a call depth of seven).
\<close>

theorem multi_single_factory_returns:
  assumes "multi p" and "classify p = Some (SUseFactory f)" and "deps p = None"
    and "getRecord (length (injs s)) s i (provide p) = None" and "i < length (injs s)"
    and "createProviderRecord (PObj p) i s = (Ok (), s')" and "7 \<le> n"
  shows "\<exists>s''. injector_get n i (provide p) d InjectFlags_Default s' = Some (Ok (VArr [user_fns s f []]), s'')"
proof -
  obtain m where "n = m + 7" using fuel_at_least [OF assms(7)] by blast
  then have n: "n = Suc (Suc (Suc (Suc (Suc (Suc (Suc m))))))" by simp
  have s': "s' = record_set i (provide p) (length (recs s))
                (snd (new_record (createMultiRecord_opts (SUseFactory f) (deps p) i None) s))"
    by (rule multi_first_registration [OF assms(1,2,4,5,6)])
  show ?thesis
    using assms(3,5)
    by (simp add: n s' record_set_def new_record_eq getOptions_def get_flags_def setValue_def
        createUseFactoryRecord_opts_def nth_append Let_def)
qed

theorem multi_single_factory_returns_witness:
  "createProviderRecord (PObj (multi_factory_provider 0)) 0 multi_store_empty = (Ok (), multi_store1)
   \<and> (\<exists>s''. injector_get 7 0 (Key ''m'') Undef 0 multi_store1 = Some (Ok (VArr [VNum 1]), s''))"
proof -
  have h1: "multi (multi_factory_provider 0)" by simp
  have h2: "classify (multi_factory_provider 0) = Some (SUseFactory 0)"
    by (simp add: multi_example_simps)
  have h3: "deps (multi_factory_provider 0) = None" by (simp add: provider_base_def)
  have h4: "getRecord (length (injs multi_store_empty)) multi_store_empty 0
              (provide (multi_factory_provider 0)) = None"
    by (simp add: provider_base_def Injector_token_def)
  have h5: "0 < length (injs multi_store_empty)" by simp
  have h6: "createProviderRecord (PObj (multi_factory_provider 0)) 0 multi_store_empty = (Ok (), multi_store1)"
    by (simp add: multi_example_simps Injector_token_def)
  have h7: "7 \<le> (7::nat)" by simp
  have "\<exists>s''. injector_get 7 0 (provide (multi_factory_provider 0)) Undef InjectFlags_Default multi_store1
           = Some (Ok (VArr [user_fns multi_store_empty 0 []]), s'')"
    by (rule multi_single_factory_returns [OF h1 h2 h3 h4 h5 h6 h7])
  then show ?thesis using h6 by (simp add: provider_base_def)
qed

text \<open>
  C15. A \<open>multi\<close> \<open>useValue\<close> provider can never be resolved: because
  \<open>createMultiUseValueRecord\<close> receives the injector in its \<open>record\<close>
  parameter, \<open>createMulti\<close> calls \<open>create\<close> on the injector and throws a
  \<open>TypeError\<close>; a falsy value throws \<open>record create error\<close> before that.
\<close>

theorem multi_useValue_get_fails:
  assumes "multi p" and "classify p = Some (SUseValue v)"
    and "getRecord (length (injs s)) s i (provide p) = None" and "i < length (injs s)"
    and "createProviderRecord (PObj p) i s = (Ok (), s')" and "5 \<le> n"
  shows "\<exists>s''. injector_get n i (provide p) d InjectFlags_Default s'
            = Some (Err (if truthy v then TypeError else RecordCreateError), s'')"
proof -
  obtain m where "n = m + 5" using fuel_at_least [OF assms(6)] by blast
  then have n: "n = Suc (Suc (Suc (Suc (Suc m))))" by simp
  have s': "s' = record_set i (provide p) (length (recs s))
                (snd (new_record (createMultiRecord_opts (SUseValue v) (deps p) i None) s))"
    by (rule multi_first_registration [OF assms(1,2,3,4,5)])
  show ?thesis
    using assms(4)
    by (simp add: n s' record_set_def new_record_eq getOptions_def get_flags_def
        createMultiUseValueRecord_opts_def createUseValueRecord_opts_def nth_append Let_def)
qed

theorem multi_useValue_get_fails_witness:
  "createProviderRecord (PObj ((provider_base (Key ''v''))\<lparr>multi := True, useValue := Some (VNum 7)\<rparr>)) 0
      multi_store_empty
     = (Ok (), record_set 0 (Key ''v'') 1
                 (snd (new_record (createMultiUseValueRecord_opts (VNum 7) (PrevInj 0)) multi_store_empty)))
   \<and> (\<exists>s''. injector_get 5 0 (Key ''v'') Undef 0
         (record_set 0 (Key ''v'') 1
            (snd (new_record (createMultiUseValueRecord_opts (VNum 7) (PrevInj 0)) multi_store_empty)))
         = Some (Err TypeError, s''))"
proof -
  let ?p = "(provider_base (Key ''v''))\<lparr>multi := True, useValue := Some (VNum 7)\<rparr>"
  let ?s' = "record_set 0 (Key ''v'') 1
               (snd (new_record (createMultiUseValueRecord_opts (VNum 7) (PrevInj 0)) multi_store_empty))"
  have h1: "multi ?p" by simp
  have h2: "classify ?p = Some (SUseValue (VNum 7))" by (simp add: multi_example_simps)
  have h3: "getRecord (length (injs multi_store_empty)) multi_store_empty 0 (provide ?p) = None"
    by (simp add: provider_base_def Injector_token_def)
  have h4: "0 < length (injs multi_store_empty)" by simp
  have h5: "createProviderRecord (PObj ?p) 0 multi_store_empty = (Ok (), ?s')"
    by (simp add: multi_example_simps Injector_token_def)
  have h6: "5 \<le> (5::nat)" by simp
  have "\<exists>s''. injector_get 5 0 (provide ?p) Undef InjectFlags_Default ?s'
          = Some (Err (if truthy (VNum 7) then TypeError else RecordCreateError), s'')"
    by (rule multi_useValue_get_fails [OF h1 h2 h3 h4 h5 h6])
  then show ?thesis using h5 by (simp add: provider_base_def)
qed

end
