(* ===== verification/Registration.thy ===== *)
theory Registration
  imports Register Scope
begin

text \<open>
  Properties of provider registration (\<open>createProviderRecord\<close>,
  \<open>getRecordHandler\<close>, \<open>util.ts\<close> lines 21--63) and its effect on later
  lookups: the shape tests are a first-match chain, so a provider with several
  shape members is accepted with the first; a provider with none is rejected;
  and a single (non-multi) provider for a token an ancestor already binds
  rewrites the ancestor's record in place instead of adding a binding to the
  registering injector.
\<close>

lemma classify_useValue: "useValue p = Some v \<Longrightarrow> classify p = Some (SUseValue v)"
  by (simp add: classify_def isUseValue_def)

lemma createProviderRecord_obj:
  "classify p = Some sh \<Longrightarrow>
   createProviderRecord (PObj p) i s = (Ok (), getRecordHandler p sh (getRecord (length (injs s)) s i (provide p)) i s)"
  by simp

subsection \<open>Claims\<close>

text \<open>
  C25. A provider object with a \<open>useValue\<close> member is registered as a value
  binding whatever other shape members (\<open>useClass\<close>, \<open>useFactory\<close>,
  \<open>useExisting\<close>) it also has: registration succeeds instead of rejecting the
  ambiguous provider, and the other members are ignored.
\<close>

theorem useValue_wins:
  assumes "useValue p = Some v" and "\<not> multi p"
    and "getRecord (length (injs s)) s i (provide p) = None"
  shows "createProviderRecord (PObj p) i s =
           (Ok (), record_set i (provide p) (length (recs s)) (snd (new_record (createUseValueRecord_opts v) s)))"
  using assms by (simp add: createProviderRecord_obj classify_useValue getRecordHandler_def new_record_def alloc_def)

theorem useValue_wins_witness:
  "createProviderRecord (PObj ((provider_base (Key ''b''))\<lparr>useValue := Some (VNum 2), useFactory := Some 0\<rparr>)) 0
      one_value_state
   = (Ok (), record_set 0 (Key ''b'') 1 (snd (new_record (createUseValueRecord_opts (VNum 2)) one_value_state)))"
proof -
  let ?p = "(provider_base (Key ''b''))\<lparr>useValue := Some (VNum 2), useFactory := Some 0\<rparr>"
  have h1: "useValue ?p = Some (VNum 2)" and h2: "\<not> multi ?p"
    and h3: "getRecord (length (injs one_value_state)) one_value_state 0 (provide ?p) = None"
    by (simp_all add: provider_base_def)
  show ?thesis using useValue_wins [OF h1 h2 h3] by (simp add: provider_base_def)
qed

text \<open>
  C26. A provider object with no shape member whose \<open>provide\<close> is not a class
  is rejected with \<open>Error('unkonw provider')\<close>, leaving the store unchanged.
\<close>

theorem unknown_provider_rejected:
  assumes "useValue p = None" and "useClass p = None" and "useFactory p = None"
    and "useExisting p = None" and "\<not> isType (provide p)"
  shows "createProviderRecord (PObj p) i s = (Err UnknownProviderError, s)"
proof -
  have "classify p = None"
    using assms by (cases "provide p") (simp_all add: classify_def isUseValue_def isUseClass_def
        isUseFactory_def isUseExisting_def)
  then show ?thesis by simp
qed

theorem unknown_provider_rejected_witness:
  "createProviderRecord (PObj (provider_base (Key ''b''))) 0 one_value_state
   = (Err UnknownProviderError, one_value_state)"
proof -
  have h: "useValue (provider_base (Key ''b'')) = None" "useClass (provider_base (Key ''b'')) = None"
    "useFactory (provider_base (Key ''b'')) = None" "useExisting (provider_base (Key ''b'')) = None"
    "\<not> isType (provide (provider_base (Key ''b'')))"
    by (simp_all add: provider_base_def)
  show ?thesis by (rule unknown_provider_rejected [OF h])
qed

text \<open>
  C14. Registering a single \<open>useValue\<close> provider in a child injector for a token
  that only its parent binds rewrites the parent's record: the child still
  binds nothing of its own, and the parent's \<open>get\<close> now returns the child's
  value.
\<close>

theorem child_registration_rebinds_parent:
  assumes "useValue p = Some v" and "truthy v" and "\<not> multi p"
    and "records (injs s ! c) (provide p) = None" and "parent (injs s ! c) = Some q"
    and "records (injs s ! q) (provide p) = Some r" and "q < c" and "c < length (injs s)"
    and "r < length (recs s)"
    and "createProviderRecord (PObj p) c s = (Ok (), s')"
  shows "records (injs s' ! c) (provide p) = None
         \<and> injector_get (Suc (Suc n)) q (provide p) d InjectFlags_Default s' = Some (Ok v, s')"
proof -
  have "\<exists>k. length (injs s) = Suc (Suc k)"
    using assms(7,8) by (rule_tac exI [of _ "length (injs s) - 2"]) simp
  then obtain k where k: "length (injs s) = Suc (Suc k)" by blast
  have "getRecord (length (injs s)) s c (provide p) = Some r"
    using assms(4-6) by (simp add: k)
  then have s': "s' = setRecord r (length (recs s)) (snd (new_record (createUseValueRecord_opts v) s))"
    using assms(1,3,10) by (simp add: createProviderRecord_obj classify_useValue getRecordHandler_def new_record_def alloc_def)
  have "records (injs s' ! c) (provide p) = None"
    using assms(4) by (simp add: s' setRecord_def new_record_def alloc_def)
  moreover have "injector_get (Suc (Suc n)) q (provide p) d InjectFlags_Default s' = Some (Ok v, s')"
    using assms(2,6,9) unfolding s' by (simp add: setRecord_def new_record_def alloc_def getOptions_def
        get_flags_def createUseValueRecord_opts_def nth_append)
  ultimately show ?thesis by blast
qed

theorem child_registration_rebinds_parent_witness:
  "createProviderRecord (PObj ((provider_base (Key ''a''))\<lparr>useValue := Some (VNum 5)\<rparr>)) 1 child_state
     = (Ok (), setRecord 0 1 (snd (new_record (createUseValueRecord_opts (VNum 5)) child_state)))
   \<and> records (injs (setRecord 0 1 (snd (new_record (createUseValueRecord_opts (VNum 5)) child_state))) ! 1)
       (Key ''a'') = None
   \<and> injector_get 2 0 (Key ''a'') Undef 0
       (setRecord 0 1 (snd (new_record (createUseValueRecord_opts (VNum 5)) child_state)))
     = Some (Ok (VNum 5), setRecord 0 1 (snd (new_record (createUseValueRecord_opts (VNum 5)) child_state)))"
proof -
  let ?p = "(provider_base (Key ''a''))\<lparr>useValue := Some (VNum 5)\<rparr>"
  let ?s' = "setRecord 0 1 (snd (new_record (createUseValueRecord_opts (VNum 5)) child_state))"
  have h1: "useValue ?p = Some (VNum 5)" and h2: "truthy (VNum 5)" and h3: "\<not> multi ?p"
    and h4: "records (injs child_state ! 1) (provide ?p) = None"
    and h5: "parent (injs child_state ! 1) = Some 0"
    and h6: "records (injs child_state ! 0) (provide ?p) = Some 0"
    and h7: "0 < (1::nat)" and h8: "1 < length (injs child_state)" and h9: "0 < length (recs child_state)"
    by (simp_all add: provider_base_def)
  have h10: "createProviderRecord (PObj ?p) 1 child_state = (Ok (), ?s')"
    by (simp add: provider_base_def classify_def isUseValue_def getRecordHandler_def new_record_def alloc_def)
  have "records (injs ?s' ! 1) (provide ?p) = None
        \<and> injector_get (Suc (Suc 0)) 0 (provide ?p) Undef InjectFlags_Default ?s' = Some (Ok (VNum 5), ?s')"
    by (rule child_registration_rebinds_parent [OF h1 h2 h3 h4 h5 h6 h7 h8 h9 h10])
  then show ?thesis using h10 by (simp add: provider_base_def numeral_2_eq_2 del: injector_get.simps)
qed

text \<open>
  C28. Registration and lookup round trip: after registering a single
  \<open>useValue\<close> provider with a truthy value for a token no injector on the
  chain binds, \<open>get\<close> of the token from that injector returns the value and
  changes nothing.
\<close>

theorem useValue_roundtrip:
  assumes "useValue p = Some v" and "truthy v" and "\<not> multi p"
    and "getRecord (length (injs s)) s i (provide p) = None" and "i < length (injs s)"
    and "createProviderRecord (PObj p) i s = (Ok (), s')"
  shows "injector_get (Suc (Suc n)) i (provide p) d InjectFlags_Default s' = Some (Ok v, s')"
proof -
  have s': "s' = record_set i (provide p) (length (recs s)) (snd (new_record (createUseValueRecord_opts v) s))"
    using assms(1,3,4,6)
    by (simp add: createProviderRecord_obj classify_useValue getRecordHandler_def new_record_def alloc_def)
  show ?thesis
    using assms(2,5) unfolding s'
    by (simp add: record_set_def new_record_def alloc_def getOptions_def get_flags_def
        createUseValueRecord_opts_def nth_append)
qed

theorem useValue_roundtrip_witness:
  "createProviderRecord (PObj ((provider_base (Key ''b''))\<lparr>useValue := Some (VNum 2)\<rparr>)) 0 one_value_state
     = (Ok (), record_set 0 (Key ''b'') 1 (snd (new_record (createUseValueRecord_opts (VNum 2)) one_value_state)))
   \<and> injector_get 2 0 (Key ''b'') Undef 0
       (record_set 0 (Key ''b'') 1 (snd (new_record (createUseValueRecord_opts (VNum 2)) one_value_state)))
     = Some (Ok (VNum 2),
             record_set 0 (Key ''b'') 1 (snd (new_record (createUseValueRecord_opts (VNum 2)) one_value_state)))"
proof -
  let ?p = "(provider_base (Key ''b''))\<lparr>useValue := Some (VNum 2)\<rparr>"
  let ?s' = "record_set 0 (Key ''b'') 1 (snd (new_record (createUseValueRecord_opts (VNum 2)) one_value_state))"
  have h1: "useValue ?p = Some (VNum 2)" and h2: "truthy (VNum 2)" and h3: "\<not> multi ?p"
    and h4: "getRecord (length (injs one_value_state)) one_value_state 0 (provide ?p) = None"
    and h5: "0 < length (injs one_value_state)"
    by (simp_all add: provider_base_def)
  have h6: "createProviderRecord (PObj ?p) 0 one_value_state = (Ok (), ?s')"
    by (simp add: provider_base_def classify_def isUseValue_def getRecordHandler_def new_record_def alloc_def)
  have "injector_get (Suc (Suc 0)) 0 (provide ?p) Undef InjectFlags_Default ?s' = Some (Ok (VNum 2), ?s')"
    by (rule useValue_roundtrip [OF h1 h2 h3 h4 h5 h6])
  then show ?thesis using h6 by (simp add: provider_base_def numeral_2_eq_2 del: injector_get.simps)
qed

text \<open>
  C29. Registering a class and resolving it round trip: after
  \<open>createProviderRecord(C)\<close> for a class without decorated constructor
  parameters, \<open>get(C)\<close> returns a fresh instance built by \<open>new C()\<close>, the one
  object it allocates.
\<close>

theorem class_roundtrip:
  assumes "meta s c = []" and "i < length (injs s)"
    and "createProviderRecord (PType c) i s = (Ok (), s')"
  shows "\<exists>s''. injector_get (Suc (Suc (Suc n))) i (Cls c) d InjectFlags_Default s'
                = Some (Ok (VObj (length (objs s))), s'') \<and> objs s'' = objs s @ [(c, [])]"
proof -
  have s': "s' = record_set i (Cls c) (length (recs s)) (snd (new_record (createTypeRecord_opts c i) s))"
    using assms(3) by (simp add: new_record_def alloc_def)
  show ?thesis
    using assms(1,2) unfolding s'
    by (simp add: record_set_def new_record_def alloc_def getOptions_def get_flags_def setValue_def
        createTypeRecord_opts_def new_obj_def nth_append)
qed

theorem class_roundtrip_witness:
  "createProviderRecord (PType ''C'') 0 one_value_state
     = (Ok (), record_set 0 (Cls ''C'') 1 (snd (new_record (createTypeRecord_opts ''C'' 0) one_value_state)))
   \<and> (\<exists>s''. injector_get 3 0 (Cls ''C'') Undef 0
       (record_set 0 (Cls ''C'') 1 (snd (new_record (createTypeRecord_opts ''C'' 0) one_value_state)))
       = Some (Ok (VObj 0), s'') \<and> objs s'' = [(''C'', [])])"
proof -
  let ?s' = "record_set 0 (Cls ''C'') 1 (snd (new_record (createTypeRecord_opts ''C'' 0) one_value_state))"
  have h1: "meta one_value_state ''C'' = []" and h2: "0 < length (injs one_value_state)" by simp_all
  have h3: "createProviderRecord (PType ''C'') 0 one_value_state = (Ok (), ?s')"
    by (simp add: new_record_def alloc_def)
  have "\<exists>s''. injector_get (Suc (Suc (Suc 0))) 0 (Cls ''C'') Undef InjectFlags_Default ?s'
          = Some (Ok (VObj (length (objs one_value_state))), s'') \<and> objs s'' = objs one_value_state @ [(''C'', [])]"
    by (rule class_roundtrip [OF h1 h2 h3])
  then show ?thesis using h3 by (simp add: numeral_3_eq_3 del: injector_get.simps)
qed

end
