(* ===== verification/Invariant.thy ===== *)
theory Invariant
  imports Multi Registration
begin

text \<open>
  The well-formedness invariant of the store, and memoization at the level of
  \<open>get\<close>. In a well-formed store every token map entry names an allocated
  record, every record points to an allocated options object, and every parent
  was created before its child (the \<open>StaticInjector\<close> constructor receives an
  existing parent). Registration and resolution preserve the invariant; in a
  well-formed store, a \<open>get\<close> that returned a truthy value returns it again
  from the store it left, without running any factory.
\<close>

definition store_ok :: "state \<Rightarrow> bool" where
  "store_ok s \<longleftrightarrow> recs_ok s \<and>
     (\<forall>j < length (injs s). (\<forall>r \<in> ran (records (injs s ! j)). r < length (recs s)) \<and>
        (\<forall>p. parent (injs s ! j) = Some p \<longrightarrow> p < j))"

subsection \<open>Store operations of registration\<close>

lemma recs_ok_nth: "recs_ok s \<Longrightarrow> r < length (recs s) \<Longrightarrow> recs s ! r < length (opts s)"
  by (simp add: recs_ok_def list_all_length)

lemma store_ok_new_record:
  "store_ok s \<Longrightarrow> store_ok (snd (new_record opt s))"
  by (fastforce simp: store_ok_def recs_ok_def new_record_def alloc_def list_all_iff less_Suc_eq)

lemma store_ok_record_set:
  "store_ok s \<Longrightarrow> r < length (recs s) \<Longrightarrow> store_ok (record_set i t r s)"
  by (cases "i < length (injs s)")
     (auto simp: store_ok_def recs_ok_def record_set_def nth_list_update ran_def split: if_splits)

lemma store_ok_setRecord:
  "store_ok s \<Longrightarrow> r' < length (recs s) \<Longrightarrow> store_ok (setRecord r r' s)"
  by (cases "r < length (recs s)")
     (auto simp: store_ok_def recs_ok_def setRecord_def list_all_length nth_list_update)

lemma getRecord_in_store:
  "store_ok s \<Longrightarrow> i < length (injs s) \<Longrightarrow> getRecord k s i t = Some r \<Longrightarrow> r < length (recs s)"
proof (induction k arbitrary: i)
  case 0
  then show ?case by simp
next
  case (Suc k)
  show ?case
  proof (cases "records (injs s ! i) t")
    case (Some r')
    then show ?thesis using Suc.prems by (auto simp: store_ok_def ran_def)
  next
    case None
    then obtain p where "parent (injs s ! i) = Some p" and "getRecord k s p t = Some r"
      using Suc.prems(3) by (auto split: option.splits)
    moreover have "p < length (injs s)" using calculation(1) Suc.prems(1,2) by (auto simp: store_ok_def)
    ultimately show ?thesis using Suc.IH Suc.prems(1) by blast
  qed
qed

lemma new_record_fst_valid: "fst (new_record opt s) < length (recs (snd (new_record opt s)))"
  by (simp add: new_record_def alloc_def)

lemma new_record_injs [simp]: "injs (snd (new_record opt s)) = injs s"
  by (simp add: new_record_def alloc_def)

lemma store_ok_getRecordHandler:
  assumes "store_ok s" and "i < length (injs s)"
    and "getRecord (length (injs s)) s i (provide p) = found"
  shows "store_ok (getRecordHandler p sh found i s)"
proof -
  define opt where "opt = (if multi p then createMultiRecord_opts sh (deps p) i found
                           else createRecord_opts sh (deps p) i)"
  have ok1: "store_ok (snd (new_record opt s))" using assms(1) by (rule store_ok_new_record)
  have h: "getRecordHandler p sh found i s =
     (case found of Some r \<Rightarrow> setRecord r (fst (new_record opt s)) (snd (new_record opt s))
      | None \<Rightarrow> record_set i (provide p) (fst (new_record opt s)) (snd (new_record opt s)))"
    unfolding opt_def getRecordHandler_def Let_def by (simp add: case_prod_beta)
  show ?thesis
    using ok1 new_record_fst_valid [of opt s] unfolding h
    by (cases found) (simp_all add: store_ok_setRecord store_ok_record_set)
qed

lemma registration_injs_length:
  "createProviderRecord p i s = (out, s') \<Longrightarrow> length (injs s') = length (injs s)"
  "createProviderRecords ps i s = (out, s') \<Longrightarrow> length (injs s') = length (injs s)"
proof (induction p i s and ps i s arbitrary: out s' and out s' rule: createProviderRecord_createProviderRecords.induct)
  case (5 p ps i s)
  obtain o1 s1 where c1: "createProviderRecord p i s = (o1, s1)" by fastforce
  show ?case
  proof (cases o1)
    case (Ok u)
    then show ?thesis using 5 c1 by (cases u) auto
  next
    case (Err e)
    then show ?thesis using 5 c1 by auto
  qed
qed (auto simp: Let_def case_prod_beta getRecordHandler_def record_set_def setRecord_def
      split: option.splits)

lemma registration_store_ok:
  "store_ok s \<Longrightarrow> i < length (injs s) \<Longrightarrow> createProviderRecord p i s = (out, s') \<Longrightarrow> store_ok s'"
  "store_ok s \<Longrightarrow> i < length (injs s) \<Longrightarrow> createProviderRecords ps i s = (out, s') \<Longrightarrow> store_ok s'"
proof (induction p i s and ps i s arbitrary: out s' and out s' rule: createProviderRecord_createProviderRecords.induct)
  case (1 c i s)
  then show ?case
    using new_record_fst_valid [of "createTypeRecord_opts c i" s]
    by (auto simp: case_prod_beta intro!: store_ok_record_set store_ok_new_record)
next
  case (2 ps i s)
  then show ?case by simp
next
  case (3 p i s)
  have "store_ok (getRecordHandler p sh (getRecord (length (injs s)) s i (provide p)) i s)" for sh
    using 3(1,2) refl by (rule store_ok_getRecordHandler)
  then show ?case using 3(1,3) by (auto simp: Let_def split: option.splits)
next
  case (4 i s)
  then show ?case by simp
next
  case (5 p ps i s)
  obtain o1 s1 where c1: "createProviderRecord p i s = (o1, s1)" by fastforce
  have ok1: "store_ok s1" using 5(1) [OF 5(3,4) c1] .
  have len: "i < length (injs s1)" using 5(4) registration_injs_length(1) [OF c1] by simp
  show ?case
  proof (cases o1)
    case (Ok u)
    then have "createProviderRecords ps i s1 = (out, s')" using 5(5) c1 by (cases u) simp
    moreover have "(Ok (), s1) = createProviderRecord p i s" using c1 Ok by (cases u) simp
    ultimately show ?thesis using 5(2) [OF _ refl ok1 len] by blast
  next
    case (Err e)
    then show ?thesis using 5(5) c1 ok1 by simp
  qed
qed

lemma store_ok_frame: "store_ok s \<Longrightarrow> frame s s' \<Longrightarrow> store_ok s'"
  by (fastforce simp: store_ok_def frame_def)

lemma store_ok_add_injector:
  "store_ok s \<Longrightarrow> (\<forall>p. par = Some p \<longrightarrow> p < length (injs s)) \<Longrightarrow>
   store_ok (s\<lparr>injs := injs s @ [\<lparr>records = Map.empty, parent = par, name = nm\<rparr>]\<rparr>)"
  by (auto simp: store_ok_def recs_ok_def nth_append less_Suc_eq)

subsection \<open>The lookup path of a successful default lookup\<close>

text \<open>
  A default-flag \<open>get\<close> that returns a value found a record on the parent
  chain at some depth \<open>j\<close>, and any store with the same injectors is looked up
  along the same path.
\<close>

lemma get_default_path:
  "injector_get n i t d 0 s = Some (Ok v, s') \<Longrightarrow>
   \<exists>m j r. n = Suc (m + j) \<and> getRecord (Suc j) s i t = Some r \<and> record_create m r s = Some (Ok v, s') \<and>
     (\<forall>s0 m'. injs s0 = injs s \<longrightarrow> injector_get (Suc (m' + j)) i t d 0 s0 = record_create m' r s0)"
proof (induction n arbitrary: i)
  case 0
  then show ?case by simp
next
  case (Suc n)
  show ?case
  proof (cases "records (injs s ! i) t")
    case (Some r)
    have "record_create n r s = Some (Ok v, s')"
      using Suc.prems Some by (simp add: injector_get_Suc del: injector_get.simps)
    moreover have "\<forall>s0 m'. injs s0 = injs s \<longrightarrow> injector_get (Suc (m' + 0)) i t d 0 s0 = record_create m' r s0"
      using Some by (simp add: injector_get_Suc del: injector_get.simps)
    ultimately show ?thesis using Some by (intro exI [of _ n] exI [of _ 0] exI [of _ r]) simp
  next
    case None
    then obtain p where par: "parent (injs s ! i) = Some p"
      using Suc.prems by (cases "parent (injs s ! i)") (simp_all add: injector_get_Suc del: injector_get.simps)
    then have "injector_get n p t d 0 s = Some (Ok v, s')"
      using Suc.prems None by (simp add: injector_get_Suc del: injector_get.simps)
    then obtain m j r where n: "n = Suc (m + j)" and gr: "getRecord (Suc j) s p t = Some r"
      and rc: "record_create m r s = Some (Ok v, s')"
      and path: "\<forall>s0 m'. injs s0 = injs s \<longrightarrow> injector_get (Suc (m' + j)) p t d 0 s0 = record_create m' r s0"
      using Suc.IH by blast
    have "getRecord (Suc (Suc j)) s i t = Some r" using None par gr by simp
    moreover have "\<forall>s0 m'. injs s0 = injs s \<longrightarrow> injector_get (Suc (m' + Suc j)) i t d 0 s0 = record_create m' r s0"
      using None par path by (simp add: injector_get_Suc del: injector_get.simps)
    ultimately show ?thesis using n rc by (intro exI [of _ m] exI [of _ "Suc j"] exI [of _ r]) simp
  qed
qed

subsection \<open>Length of the parent chain\<close>

lemma reaches_root_mono: "reaches_root k s i \<Longrightarrow> k \<le> k' \<Longrightarrow> reaches_root k' s i"
proof (induction k arbitrary: k' i)
  case 0
  then show ?case by simp
next
  case (Suc k)
  then obtain k'' where k': "k' = Suc k''" and le: "k \<le> k''" by (cases k') simp_all
  show ?case
  proof (cases "parent (injs s ! i)")
    case None
    then show ?thesis by (simp add: k')
  next
    case (Some p)
    then have "reaches_root k s p" using Suc.prems(1) by simp
    then have "reaches_root k'' s p" using le by (rule Suc.IH)
    then show ?thesis using Some by (simp add: k')
  qed
qed

text \<open>Once the walk reaches a root, a longer bound finds the same record.\<close>

lemma getRecord_enough:
  "reaches_root k s i \<Longrightarrow> k \<le> k' \<Longrightarrow> getRecord k' s i t = getRecord k s i t"
proof (induction k arbitrary: k' i)
  case 0
  then show ?case by simp
next
  case (Suc k)
  then obtain k'' where k': "k' = Suc k''" and le: "k \<le> k''" by (cases k') simp_all
  show ?case
  proof (cases "records (injs s ! i) t")
    case None
    show ?thesis
    proof (cases "parent (injs s ! i)")
      case p: (Some p)
      then have "reaches_root k s p" using Suc.prems(1) by simp
      then have "getRecord k'' s p t = getRecord k s p t" using le by (rule Suc.IH)
      then show ?thesis using None p by (simp add: k')
    qed (simp add: k' None)
  qed (simp add: k')
qed

lemma reaches_root_store_ok:
  "store_ok s \<Longrightarrow> i < length (injs s) \<Longrightarrow> reaches_root (Suc i) s i"
proof (induction i rule: less_induct)
  case (less i)
  show ?case
  proof (cases "parent (injs s ! i)")
    case None
    then show ?thesis by simp
  next
    case (Some p)
    then have "p < i" using less.prems by (auto simp: store_ok_def)
    then have "reaches_root (Suc p) s p" using less by simp
    moreover have "Suc p \<le> i" using \<open>p < i\<close> by simp
    ultimately have "reaches_root i s p" by (rule reaches_root_mono)
    then show ?thesis using Some by simp
  qed
qed

subsection \<open>Claims\<close>

text \<open>
  \<open>createInjector\<close> keeps the store well formed: when it is given an
  existing parent, every map entry names a record, every record points to
  options, and every parent precedes its child afterwards, also when a provider
  is rejected part way.
\<close>

theorem createInjector_store_ok:
  assumes "store_ok s" and "\<forall>p. par = Some p \<longrightarrow> p < length (injs s)"
    and "createInjector providers nm par s = (out, s')"
  shows "store_ok s'"
proof -
  let ?i = "length (injs s)"
  let ?s1 = "s\<lparr>injs := injs s @ [\<lparr>records = Map.empty, parent = par, name = nm\<rparr>]\<rparr>"
  let ?opt = "\<lparr>factory = None, rvalue = VInj ?i\<rparr>"
  let ?s3 = "record_set ?i Injector_token (fst (new_record ?opt ?s1)) (snd (new_record ?opt ?s1))"
  have ok1: "store_ok ?s1" using assms(1,2) by (rule store_ok_add_injector)
  have ok3: "store_ok ?s3"
    using store_ok_new_record [OF ok1, of ?opt] new_record_fst_valid [of ?opt ?s1]
    by (rule store_ok_record_set)
  have len: "?i < length (injs ?s3)" by (simp add: record_set_def)
  obtain o4 s4 where c: "createProviderRecords providers ?i ?s3 = (o4, s4)" by fastforce
  then have "s' = s4" using assms(3)
    by (cases o4) (simp_all add: createInjector_def Let_def case_prod_beta)
  then show ?thesis using registration_store_ok(2) [OF ok3 len c] by simp
qed

theorem createInjector_store_ok_witness:
  "store_ok multi_store0 \<and> createInjector [PObj (multi_factory_provider 0)] None None multi_store0 = (Ok 0, multi_store1)
   \<and> store_ok multi_store1"
proof -
  have h1: "store_ok multi_store0" by (simp add: store_ok_def recs_ok_def init_state_def)
  have h2: "\<forall>p. (None::nat option) = Some p \<longrightarrow> p < length (injs multi_store0)" by simp
  have h3: "createInjector [PObj (multi_factory_provider 0)] None None multi_store0 = (Ok 0, multi_store1)"
    by (rule multi_store1_created)
  show ?thesis using h1 h3 createInjector_store_ok [OF h1 h2 h3] by blast
qed

text \<open>
  Resolution keeps the store well formed: a \<open>get\<close> that finishes, with a
  value or an exception, leaves a well-formed store.
\<close>

theorem get_store_ok:
  assumes "store_ok s" and "injector_get n i t d flags s = Some (out, s')"
  shows "store_ok s'"
  using assms resolution_frames(1) [of s n i t d flags] by (auto intro: store_ok_frame)

theorem get_store_ok_witness:
  "store_ok truthy_state
   \<and> injector_get (Suc 3) 0 (Key ''z'') Undef 0 truthy_state = Some (Ok (VNum 5), setValue 0 (VNum 5) truthy_state)
   \<and> store_ok (setValue 0 (VNum 5) truthy_state)"
proof -
  have h1: "store_ok truthy_state" by (simp add: store_ok_def recs_ok_def)
  have h2: "injector_get (Suc 3) 0 (Key ''z'') Undef 0 truthy_state = Some (Ok (VNum 5), setValue 0 (VNum 5) truthy_state)"
    by (simp add: get_flags_def getOptions_def numeral_eq_Suc)
  show ?thesis using h1 h2 get_store_ok [OF h1 h2] by blast
qed

text \<open>
  C9. Memoization seen from \<open>get\<close>: in a well-formed store, once
  \<open>get(token)\<close> with default flags has returned a truthy value, the same call
  on the store it left returns the same value and changes nothing; no factory
  runs again.
\<close>

theorem get_memoizes:
  assumes "store_ok s" and "i < length (injs s)"
    and "injector_get n i t d InjectFlags_Default s = Some (Ok v, s')" and "truthy v"
  shows "injector_get n i t d InjectFlags_Default s' = Some (Ok v, s')"
proof -
  obtain m j r where n: "n = Suc (m + j)" and gr: "getRecord (Suc j) s i t = Some r"
    and rc: "record_create m r s = Some (Ok v, s')"
    and path: "\<forall>s0 m'. injs s0 = injs s \<longrightarrow> injector_get (Suc (m' + j)) i t d 0 s0 = record_create m' r s0"
    using get_default_path assms(3) by fastforce
  obtain m0 where m: "m = Suc m0" using rc by (cases m) simp_all
  have r: "r < length (recs s)" using getRecord_in_store [OF assms(1,2) gr] .
  then have "recs s ! r < length (opts s)" using assms(1) by (simp add: store_ok_def recs_ok_nth)
  then have "getOptions s' r = (getOptions s r)\<lparr>rvalue := v\<rparr>"
    using create_stores_value rc r m by blast
  then have "record_create m r s' = Some (Ok v, s')" using assms(4) m by simp
  moreover have "injs s' = injs s" using resolution_frames(2) [of s m r] rc by (simp add: frame_def)
  ultimately show ?thesis using path n by simp
qed

theorem get_memoizes_witness:
  "store_ok truthy_state
   \<and> injector_get 4 0 (Key ''z'') Undef 0 truthy_state = Some (Ok (VNum 5), setValue 0 (VNum 5) truthy_state)
   \<and> injector_get 4 0 (Key ''z'') Undef 0 (setValue 0 (VNum 5) truthy_state)
       = Some (Ok (VNum 5), setValue 0 (VNum 5) truthy_state)"
proof -
  have h1: "store_ok truthy_state" by (simp add: store_ok_def recs_ok_def)
  have h2: "0 < length (injs truthy_state)" by simp
  have h3: "injector_get 4 0 (Key ''z'') Undef InjectFlags_Default truthy_state
      = Some (Ok (VNum 5), setValue 0 (VNum 5) truthy_state)"
    by (simp add: get_flags_def getOptions_def numeral_eq_Suc)
  have h4: "truthy (VNum 5)" by simp
  show ?thesis using h1 h3 get_memoizes [OF h1 h2 h3 h4] by simp
qed

text \<open>
  The bound on the ancestor walk is enough: in a well-formed store,
  \<open>getRecord\<close> bounded by the number of injectors (the bound
  \<open>createProviderRecord\<close> uses) finds what any longer walk finds.
\<close>

theorem getRecord_bound_enough:
  assumes "store_ok s" and "i < length (injs s)"
  shows "getRecord (length (injs s) + m) s i t = getRecord (length (injs s)) s i t"
proof -
  have r: "reaches_root (Suc i) s i" using assms by (rule reaches_root_store_ok)
  have "getRecord (length (injs s) + m) s i t = getRecord (Suc i) s i t"
    using r assms(2) by (intro getRecord_enough) simp_all
  also have "\<dots> = getRecord (length (injs s)) s i t"
    using r assms(2) by (intro getRecord_enough [symmetric]) simp_all
  finally show ?thesis .
qed

theorem getRecord_bound_enough_witness:
  "store_ok child_state \<and> 1 < length (injs child_state)
   \<and> getRecord (length (injs child_state) + 5) child_state 1 (Key ''a'') = Some 0"
proof -
  have h1: "store_ok child_state" by (simp add: store_ok_def recs_ok_def less_Suc_eq ran_def)
  have h2: "1 < length (injs child_state)" by simp
  have "getRecord (length (injs child_state) + 5) child_state 1 (Key ''a'')
        = getRecord (length (injs child_state)) child_state 1 (Key ''a'')"
    by (rule getRecord_bound_enough [OF h1 h2])
  then show ?thesis using h1 h2 by (simp add: numeral_eq_Suc)
qed

text \<open>
  C27. A default lookup of a token whose record holds a plain value (no factory),
  or which no injector on the chain binds, returns within the number of
  injectors plus two calls: with the value, with \<open>record create error\<close> for a
  falsy value, or with \<open>StaticInjectorNotFoundError\<close>.
\<close>

theorem get_value_lookup_terminates:
  assumes "store_ok s" and "i < length (injs s)"
    and "\<forall>r. getRecord (length (injs s)) s i t = Some r \<longrightarrow> factory (getOptions s r) = None"
  shows "\<exists>res. injector_get (length (injs s) + 2) i t d InjectFlags_Default s = Some res"
proof -
  have reach: "reaches_root (Suc i) s i" using assms(1,2) by (rule reaches_root_store_ok)
  have same: "getRecord (Suc i) s i t = getRecord (length (injs s)) s i t"
    using reach assms(2) by (intro getRecord_enough [symmetric]) simp_all
  show ?thesis
  proof (cases "getRecord (Suc i) s i t")
    case None
    have "injector_get (length (injs s) + 1 - i + Suc i) i t d InjectFlags_Default s = Some (Err NotFoundError, s)"
      using get_chain_missing [OF reach None] .
    moreover have "length (injs s) + 1 - i + Suc i = length (injs s) + 2" using assms(2) by simp
    ultimately show ?thesis by auto
  next
    case (Some r)
    then have fac: "factory (getOptions s r) = None" using assms(3) same by simp
    obtain j where j: "j < Suc i"
      and path: "\<forall>n. injector_get (Suc (n + j)) i t d InjectFlags_Default s = record_create n r s"
      using get_chain_found [OF Some] by blast
    have eq: "length (injs s) + 2 = Suc (Suc (length (injs s) - j) + j)" using j assms(2) by simp
    have "record_create (Suc (length (injs s) - j)) r s \<noteq> None" using fac by (simp add: Let_def)
    then show ?thesis using path eq by (metis option.exhaust)
  qed
qed

theorem get_value_lookup_terminates_witness:
  "store_ok child_state \<and> 1 < length (injs child_state)
   \<and> getRecord (length (injs child_state)) child_state 1 (Key ''a'') = Some 0
   \<and> factory (getOptions child_state 0) = None
   \<and> (\<exists>res. injector_get (length (injs child_state) + 2) 1 (Key ''a'') Undef 0 child_state = Some res)"
proof -
  have h1: "store_ok child_state" by (simp add: store_ok_def recs_ok_def less_Suc_eq ran_def)
  have h2: "1 < length (injs child_state)" by simp
  have g: "getRecord (length (injs child_state)) child_state 1 (Key ''a'') = Some 0"
    and f: "factory (getOptions child_state 0) = None"
    by (simp_all add: getOptions_def numeral_eq_Suc)
  have h3: "\<forall>r. getRecord (length (injs child_state)) child_state 1 (Key ''a'') = Some r
          \<longrightarrow> factory (getOptions child_state r) = None"
    using g f by simp
  show ?thesis using h1 h2 g f get_value_lookup_terminates [OF h1 h2 h3, of Undef] by simp
qed

end
