(* ===== verification/Deps.thy ===== *)
theory Deps
  imports Scope
begin

text \<open>
  The dependency resolver \<open>getInjector\<close> (\<open>util.ts\<close> lines 89--114): the scan
  of an array dependency, what flags and token it yields, and how the resulting
  \<open>get\<close> call behaves. The scan ORs modifier flags into \<open>OptionFlags.Default\<close>,
  which already holds the Self and Parent bits, so \<open>SkipSelf\<close> and \<open>Self\<close>
  inside a dependency array change nothing.
\<close>

text \<open>The token an entry of a dependency array overrides the token with, if any.\<close>

fun dep_op_token :: "dep_op \<Rightarrow> token option" where
  "dep_op_token (OpInject t) = Some t"
| "dep_op_token (OpToken t) = Some t"
| "dep_op_token _ = None"

subsection \<open>The flags of the scan\<close>

text \<open>One step of the scan for each kind of entry.\<close>

lemma scan_dep_simps [simp]:
  "scan_dep (flags, tok) OpOptional = (flags OR OptionFlags_Optional, tok)"
  "scan_dep (flags, tok) OpSkipSelf = (flags OR OptionFlags_Parent, tok)"
  "scan_dep (flags, tok) OpSelf = (flags OR OptionFlags_Self, tok)"
  "scan_dep (flags, tok) (OpInject t) = (flags, t)"
  "scan_dep (flags, tok) (OpToken t) = (flags, t)"
  by (simp_all add: scan_dep_def del: option_flag_values)

lemma or_flag_table [simp]:
  "(3::nat) OR 1 = 3" "(3::nat) OR 2 = 3" "(3::nat) OR 4 = 7"
  "(7::nat) OR 1 = 7" "(7::nat) OR 2 = 7" "(7::nat) OR 4 = 7"
  by simp_all

lemma scan_dep_flags:
  "f = 3 \<or> f = 7 \<Longrightarrow>
   fst (foldl scan_dep (f, t) ops) = (if OpOptional \<in> set ops then 7 else f)"
proof (induction ops arbitrary: f t)
  case Nil
  then show ?case by simp
next
  case (Cons op ops)
  then show ?case by (cases op) auto
qed

lemma scan_dep_token:
  "snd (foldl scan_dep (f, t) ops) = last (t # List.map_filter dep_op_token ops)"
proof (induction ops arbitrary: f t)
  case Nil
  then show ?case by simp
next
  case (Cons op ops)
  then show ?case by (cases op) (simp_all add: map_filter_simps)
qed

lemma map_filter_drop_scope:
  "List.map_filter dep_op_token (filter (\<lambda>op. op \<noteq> OpSkipSelf \<and> op \<noteq> OpSelf) ops)
   = List.map_filter dep_op_token ops"
proof (induction ops)
  case Nil
  then show ?case by simp
next
  case (Cons op ops)
  then show ?case by (cases op) (simp_all add: map_filter_simps)
qed

lemma get_flags_3: "get_flags 3 = get_flags 0"
  by (simp add: get_flags_eq)

text \<open>Flags \<open>Self | Parent\<close> behave exactly as the default flags.\<close>

lemma injector_get_flags_3: "injector_get n i t d 3 s = injector_get n i t d 0 s"
  by (cases n) (simp_all only: injector_get.simps get_flags_3)

text \<open>The scan of a one-token array, unfolded without touching the flag literal.\<close>

lemma getInjector_single_token:
  "getInjector (Suc n) i (DList a [OpToken t]) s = injector_get n i t Undef 0 s"
  by (simp only: getInjector.simps dep_flags_token_def foldl.simps scan_dep_simps
      option_flag_values Let_def prod.case injector_get_flags_3)

subsection \<open>Example\<close>

text \<open>
  A root injector binding \<open>a\<close> to 1 and a child of it binding \<open>a\<close> to 2, so
  that the child's own record shadows the parent's.
\<close>

abbreviation shadow_state :: state where
  "shadow_state \<equiv>
     \<lparr>injs = [\<lparr>records = [Key ''a'' \<mapsto> 0], parent = None, name = None\<rparr>,
             \<lparr>records = [Key ''a'' \<mapsto> 1], parent = Some 0, name = None\<rparr>], recs = [0, 1],
      opts = [\<lparr>factory = None, rvalue = VNum 1\<rparr>, \<lparr>factory = None, rvalue = VNum 2\<rparr>],
      objs = [], meta = \<lambda>_. [], user_fns = \<lambda>_ _. Undef\<rparr>"

subsection \<open>Claims\<close>

text \<open>
  C8. An array dependency is resolved with \<open>get(token, undefined, flags)\<close>,
  where the token is the last \<open>Inject\<close> or plain token entry (the array itself
  if there is none) and the flags are \<open>Self | Parent | Optional\<close> when the
  array holds an \<open>Optional\<close> entry and \<open>Self | Parent\<close> otherwise.
\<close>

theorem getInjector_array:
  "getInjector (Suc n) i (DList a ops) s =
     injector_get n i (last (ArrTok a # List.map_filter dep_op_token ops)) Undef
       (if OpOptional \<in> set ops then 7 else 3) s"
  by (simp add: dep_flags_token_def scan_dep_token scan_dep_flags case_prod_beta)

theorem getInjector_array_witness:
  "getInjector 3 1 (DList 0 [OpInject (Key ''b''), OpOptional, OpToken (Key ''a'')]) shadow_state
     = injector_get 2 1 (Key ''a'') Undef 7 shadow_state"
  using getInjector_array [of 2 1 0 "[OpInject (Key ''b''), OpOptional, OpToken (Key ''a'')]" shadow_state]
  by (simp add: map_filter_simps numeral_eq_Suc del: injector_get.simps)

text \<open>
  \<open>SkipSelf\<close> and \<open>Self\<close> entries of a dependency array have no effect:
  removing them never changes the result, because their flags are already set
  in \<open>OptionFlags.Default\<close>, where the scan starts.
\<close>

theorem getInjector_scope_entries_ignored:
  "getInjector n i (DList a (filter (\<lambda>op. op \<noteq> OpSkipSelf \<and> op \<noteq> OpSelf) ops)) s
   = getInjector n i (DList a ops) s"
proof (cases n)
  case 0
  then show ?thesis by simp
next
  case (Suc m)
  have "OpOptional \<in> set (filter (\<lambda>op. op \<noteq> OpSkipSelf \<and> op \<noteq> OpSelf) ops) \<longleftrightarrow> OpOptional \<in> set ops"
    by auto
  then show ?thesis
    by (simp add: Suc dep_flags_token_def scan_dep_token scan_dep_flags case_prod_beta
        map_filter_drop_scope del: injector_get.simps)
qed

theorem getInjector_scope_entries_ignored_witness:
  "getInjector 5 1 (DList 0 [OpToken (Key ''a'')]) shadow_state
   = getInjector 5 1 (DList 0 [OpSkipSelf, OpToken (Key ''a'')]) shadow_state
   \<and> getInjector 5 1 (DList 0 [OpToken (Key ''a'')]) shadow_state = Some (Ok (VNum 2), shadow_state)"
proof -
  have "getInjector 5 1 (DList 0 (filter (\<lambda>op. op \<noteq> OpSkipSelf \<and> op \<noteq> OpSelf)
          [OpSkipSelf, OpToken (Key ''a'')])) shadow_state
        = getInjector 5 1 (DList 0 [OpSkipSelf, OpToken (Key ''a'')]) shadow_state"
    by (rule getInjector_scope_entries_ignored)
  moreover have "getInjector (Suc 4) 1 (DList 0 [OpToken (Key ''a'')]) shadow_state
      = injector_get 4 1 (Key ''a'') Undef 0 shadow_state"
    by (rule getInjector_single_token)
  moreover have "injector_get 4 1 (Key ''a'') Undef 0 shadow_state = Some (Ok (VNum 2), shadow_state)"
    by (simp add: get_flags_def getOptions_def numeral_eq_Suc)
  ultimately show ?thesis by simp
qed

text \<open>
  C13. A dependency \<open>[SkipSelf, T]\<close> is resolved exactly as the bare token
  \<open>T\<close>: the injector's own record is used when it has one, and the parent is
  consulted only otherwise.
\<close>

theorem getInjector_skipSelf_is_plain:
  "getInjector n i (DList a [OpSkipSelf, OpToken t]) s = getInjector n i (DTok t) s"
  by (cases n) (simp_all only: getInjector.simps dep_flags_token_def foldl.simps scan_dep_simps
      option_flag_values or_flag_table Let_def prod.case injector_get_flags_3)

theorem getInjector_skipSelf_is_plain_witness:
  "getInjector 5 1 (DList 0 [OpSkipSelf, OpToken (Key ''a'')]) shadow_state
     = getInjector 5 1 (DTok (Key ''a'')) shadow_state
   \<and> getInjector 5 1 (DTok (Key ''a'')) shadow_state = Some (Ok (VNum 2), shadow_state)"
proof -
  have "getInjector 5 1 (DList 0 [OpSkipSelf, OpToken (Key ''a'')]) shadow_state
        = getInjector 5 1 (DTok (Key ''a'')) shadow_state"
    by (rule getInjector_skipSelf_is_plain)
  moreover have "getInjector 5 1 (DTok (Key ''a'')) shadow_state = Some (Ok (VNum 2), shadow_state)"
    by (simp add: get_flags_def getOptions_def numeral_eq_Suc)
  ultimately show ?thesis by simp
qed

text \<open>
  C22. At a root injector, an \<open>Optional\<close> dependency on a token the injector
  does not bind resolves to \<open>undefined\<close> without throwing and without
  changing the store.
\<close>

theorem getInjector_optional_root:
  assumes "records (injs s ! i) t = None" and "parent (injs s ! i) = None"
  shows "getInjector (Suc (Suc n)) i (DList a [OpOptional, OpToken t]) s = Some (Ok Undef, s)"
  using assms by (simp add: dep_flags_token_def get_flags_eq)

theorem getInjector_optional_root_witness:
  "records (injs shadow_state ! 0) (Key ''z'') = None \<and> parent (injs shadow_state ! 0) = None
   \<and> getInjector 2 0 (DList 0 [OpOptional, OpToken (Key ''z'')]) shadow_state = Some (Ok Undef, shadow_state)"
proof -
  have h1: "records (injs shadow_state ! 0) (Key ''z'') = None"
    and h2: "parent (injs shadow_state ! 0) = None" by simp_all
  show ?thesis using h1 h2 getInjector_optional_root [OF h1 h2, of 0 0] by (simp add: numeral_eq_Suc)
qed

end
