(* ===== verification/Handlers.thy ===== *)
theory Handlers
  imports Scope Register
begin

text \<open>
  The parameter-handler chain of \<open>createTypeRecord\<close> (\<open>util.ts\<close> lines
  189--215) and the handlers registered by \<open>coreInjectorFactory\<close>
  (\<open>injector.ts\<close> lines 77--110): the Optional handler turns a failure of
  the rest of the chain into \<open>undefined\<close>, the SkipSelf handler needs a
  parent, a decorator whose key no injector binds (such as \<open>Self\<close>) makes
  resolution fail, and the in-place \<open>reverse()\<close> of the decorator array
  flips the nesting order between two constructions of the same class.
\<close>

subsection \<open>Example\<close>

text \<open>
  A parameter whose metadata array holds the entries of
  \<open>@Optional() @Inject('missing')\<close>, Optional first, and no default entry.
\<close>

abbreviation opt_dec :: pdec where
  "opt_dec \<equiv> \<lparr>pd_name = OptionalMetadataKey, pd_type = Cls ''Other'', pd_args = None\<rparr>"

abbreviation inj_dec :: pdec where
  "inj_dec \<equiv> \<lparr>pd_name = InjectMetadataKey, pd_type = Cls ''Other'', pd_args = Some [Key ''missing'']\<rparr>"

abbreviation handler_meta :: "string \<Rightarrow> (nat \<times> pdec list) list" where
  "handler_meta \<equiv> (\<lambda>_. [])(''C'' := [(0, [opt_dec, inj_dec])])"

text \<open>
  The providers: the Optional and Inject handlers as \<open>coreInjectorFactory\<close>
  registers them, and two tokens \<open>k1\<close>, \<open>k2\<close> both bound to \<open>useClass: C\<close>.
\<close>

abbreviation handler_providers_example :: "provider list" where
  "handler_providers_example \<equiv>
     [PObj ((provider_base OptionalMetadataKey)\<lparr>useValue := Some (VFn HOptional)\<rparr>),
      PObj ((provider_base InjectMetadataKey)\<lparr>useValue := Some (VFn HInject)\<rparr>),
      PObj ((provider_base (Key ''k1''))\<lparr>useClass := Some ''C''\<rparr>),
      PObj ((provider_base (Key ''k2''))\<lparr>useClass := Some ''C''\<rparr>)]"

abbreviation handler_state :: state where
  "handler_state \<equiv>
     \<lparr>injs = [\<lparr>records = [Injector_token \<mapsto> 0, OptionalMetadataKey \<mapsto> 1, InjectMetadataKey \<mapsto> 2,
                          Key ''k1'' \<mapsto> 3, Key ''k2'' \<mapsto> 4], parent = None, name = None\<rparr>],
      recs = [0, 1, 2, 3, 4],
      opts = [\<lparr>factory = None, rvalue = VInj 0\<rparr>, \<lparr>factory = None, rvalue = VFn HOptional\<rparr>,
              \<lparr>factory = None, rvalue = VFn HInject\<rparr>, createTypeRecord_opts ''C'' 0,
              createTypeRecord_opts ''C'' 0],
      objs = [], meta = handler_meta, user_fns = \<lambda>_ _. Undef\<rparr>"

subsection \<open>Claims\<close>

text \<open>
  C12. The Optional handler turns a failure of the rest of the chain into
  \<open>undefined\<close>: when the inner handlers throw, the Optional handler returns
  \<open>undefined\<close>, keeping the store the inner handlers left.
\<close>

theorem optional_handler_catches:
  assumes "call_chain n i ps d s = Some (Err e, s')"
  shows "call_handler (Suc n) (VFn HOptional) i p ps d s = Some (Ok Undef, s')"
  using assms by (simp add: catch_undef_def)

theorem optional_handler_catches_witness:
  "call_chain 3 0 [inj_dec] Undef handler_state = Some (Err NotFoundError, handler_state)
   \<and> call_handler 4 (VFn HOptional) 0 opt_dec [inj_dec] Undef handler_state = Some (Ok Undef, handler_state)"
proof -
  have h: "call_chain 3 0 [inj_dec] Undef handler_state = Some (Err NotFoundError, handler_state)"
    by (simp add: metadata_keys get_flags_def getOptions_def Injector_token_def numeral_eq_Suc)
  show ?thesis using h optional_handler_catches [OF h, of opt_dec] by (simp add: numeral_eq_Suc)
qed

text \<open>
  C23. The SkipSelf handler on an injector without a parent throws
  \<open>StaticInjectorParentNotFoundError\<close> and changes nothing.
\<close>

theorem skipSelf_handler_no_parent:
  assumes "parent (injs s ! i) = None"
  shows "call_handler (Suc n) (VFn HSkipSelf) i p ps d s = Some (Err ParentNotFoundError, s)"
  using assms by simp

theorem skipSelf_handler_no_parent_witness:
  "parent (injs handler_state ! 0) = None
   \<and> call_handler 1 (VFn HSkipSelf) 0 opt_dec [] Undef handler_state
       = Some (Err ParentNotFoundError, handler_state)"
proof -
  have h: "parent (injs handler_state ! 0) = None" by simp
  show ?thesis using h skipSelf_handler_no_parent [OF h, of 0] by simp
qed

text \<open>
  C24. A decorator whose key no injector on the chain binds makes the chain
  throw \<open>StaticInjectorNotFoundError\<close> at that decorator. \<open>coreInjectorFactory\<close>
  registers no handler under \<open>SelfMetadataKey\<close>, so this is what a parameter
  decorated with \<open>@Self()\<close> does.
\<close>

theorem unbound_decorator_not_found:
  assumes "reaches_root k s i" and "getRecord k s i (pd_name p) = None"
  shows "call_chain (Suc (n + k)) i (p # ps) d s = Some (Err NotFoundError, s)"
  using get_chain_missing [OF assms, of n Undef] by simp

theorem unbound_decorator_not_found_witness:
  "reaches_root 1 handler_state 0 \<and> getRecord 1 handler_state 0 SelfMetadataKey = None
   \<and> call_chain 2 0 [\<lparr>pd_name = SelfMetadataKey, pd_type = Cls ''Other'', pd_args = None\<rparr>] Undef handler_state
       = Some (Err NotFoundError, handler_state)"
proof -
  let ?p = "\<lparr>pd_name = SelfMetadataKey, pd_type = Cls ''Other'', pd_args = None\<rparr>"
  have h1: "reaches_root 1 handler_state 0" by simp
  have h2: "getRecord 1 handler_state 0 (pd_name ?p) = None"
    by (simp add: metadata_keys Injector_token_def)
  have "call_chain (Suc (0 + 1)) 0 [?p] Undef handler_state = Some (Err NotFoundError, handler_state)"
    by (rule unbound_decorator_not_found [OF h1 h2])
  then have h3: "call_chain 2 0 [?p] Undef handler_state = Some (Err NotFoundError, handler_state)"
    by (simp only: numeral_2_eq_2 add_0 One_nat_def)
  have h2': "getRecord 1 handler_state 0 SelfMetadataKey = None"
    using h2 by (simp only: pdec.select_convs)
  show ?thesis using h1 h2' h3 by blast
qed

text \<open>
  The decorator array is reversed in place on every construction, so the
  nesting order flips between two constructions of the same class. With
  \<open>k1\<close> and \<open>k2\<close> both bound to \<open>useClass: C\<close> and C's parameter decorated
  \<open>@Optional() @Inject('missing')\<close>, \<open>get(k1)\<close> builds C with
  \<open>undefined\<close> (Optional outermost catches the failed lookup) and leaves the
  array reversed; then \<open>get(k2)\<close> throws \<open>StaticInjectorNotFoundError\<close>
  (Inject outermost looks up the missing token before Optional runs).
\<close>

theorem metadata_order_flips:
  "\<exists>s1 s2. injector_get 12 0 (Key ''k1'') Undef 0 handler_state = Some (Ok (VObj 0), s1)
     \<and> objs s1 = [(''C'', [Undef])] \<and> meta s1 ''C'' = [(0, [inj_dec, opt_dec])]
     \<and> injector_get 12 0 (Key ''k2'') Undef 0 s1 = Some (Err NotFoundError, s2)"
  by (simp add: metadata_keys get_flags_def getOptions_def Injector_token_def numeral_eq_Suc
      createTypeRecord_opts_def param_decorators_def reverse_args_def array_from_def new_obj_def
      catch_undef_def setValue_def Let_def alloc_def)

end
