(* ===== verification/Factories.thy ===== *)
theory Factories
  imports Registration
begin

text \<open>
  The \<open>StaticInjector\<close> constructor and the injector factories
  (\<open>injector.ts\<close> lines 18--26, 60--110) as sequences of registrations:
  providers are registered in order and the first rejected one stops the
  sequence, keeping what was registered before it; an injector is created at
  the next address with the parent and name it was given, which registration
  never changes; and the injector factory built by \<open>createInjectorFactory\<close>
  creates a fresh child of one shared parent on every call.
\<close>

subsection \<open>Registration keeps the injectors' parents and names\<close>

lemma record_set_parent_name [simp]:
  "parent (injs (record_set i t r s) ! j) = parent (injs s ! j)"
  "name (injs (record_set i t r s) ! j) = name (injs s ! j)"
  "length (injs (record_set i t r s)) = length (injs s)"
  by (cases "i < length (injs s)";
      simp add: record_set_def nth_list_update list_update_beyond split: if_splits)+

lemma registration_keeps_injectors:
  "createProviderRecord p i s = (out, s') \<Longrightarrow>
     length (injs s') = length (injs s) \<and>
     (\<forall>j. parent (injs s' ! j) = parent (injs s ! j) \<and> name (injs s' ! j) = name (injs s ! j))"
  "createProviderRecords ps i s = (out, s') \<Longrightarrow>
     length (injs s') = length (injs s) \<and>
     (\<forall>j. parent (injs s' ! j) = parent (injs s ! j) \<and> name (injs s' ! j) = name (injs s ! j))"
proof (induction p i s and ps i s arbitrary: out s' and out s' rule: createProviderRecord_createProviderRecords.induct)
  case (5 p ps i s)
  obtain o1 s1 where c1: "createProviderRecord p i s = (o1, s1)" by fastforce
  show ?case
  proof (cases o1)
    case (Ok u)
    then have "createProviderRecords ps i s1 = (out, s')" using 5(3) c1 by (cases u) simp
    moreover have "(Ok (), s1) = createProviderRecord p i s" using c1 Ok by (cases u) simp
    ultimately show ?thesis using 5(1) [OF c1] 5(2) [OF _ refl] by simp
  next
    case (Err e)
    then show ?thesis using 5(1) [OF c1] 5(3) c1 by simp
  qed
qed (auto simp: Let_def case_prod_beta getRecordHandler_def setRecord_def new_record_def alloc_def
      split: option.splits)

text \<open>The injector \<open>createInjector\<close> allocates, with the parent and name it was given.\<close>

lemma createInjector_fresh_child:
  assumes "createInjector providers nm par s = (out, s')"
  shows "length (injs s') = Suc (length (injs s))
         \<and> parent (injs s' ! length (injs s)) = par \<and> name (injs s' ! length (injs s)) = nm
         \<and> (\<forall>j < length (injs s). parent (injs s' ! j) = parent (injs s ! j))
         \<and> (\<forall>i. out = Ok i \<longrightarrow> i = length (injs s))"
proof -
  let ?i = "length (injs s)"
  let ?s1 = "s\<lparr>injs := injs s @ [\<lparr>records = Map.empty, parent = par, name = nm\<rparr>]\<rparr>"
  let ?opt = "\<lparr>factory = None, rvalue = VInj ?i\<rparr>"
  let ?s3 = "record_set ?i Injector_token (fst (new_record ?opt ?s1)) (snd (new_record ?opt ?s1))"
  obtain o4 s4 where c: "createProviderRecords providers ?i ?s3 = (o4, s4)" by fastforce
  have r: "s' = s4 \<and> (\<forall>i. out = Ok i \<longrightarrow> i = ?i)"
  proof (cases o4)
    case (Ok u)
    then show ?thesis using assms c by (auto simp: createInjector_def Let_def case_prod_beta)
  next
    case (Err e)
    then show ?thesis using assms c by (auto simp: createInjector_def Let_def case_prod_beta)
  qed
  have k: "length (injs s4) = length (injs ?s3)"
    "\<forall>j. parent (injs s4 ! j) = parent (injs ?s3 ! j) \<and> name (injs s4 ! j) = name (injs ?s3 ! j)"
    using registration_keeps_injectors(2) [OF c] by simp_all
  show ?thesis using r k by (simp add: new_record_def alloc_def nth_append del: createProviderRecords.simps)
qed

subsection \<open>Claims\<close>

text \<open>
  C32. Providers are registered in order and the first rejected one stops the
  sequence: its error is the result, the providers before it stay registered,
  and the ones after it are never looked at.
\<close>

theorem registration_stops_at_error:
  assumes "createProviderRecords ps i s = (Ok (), s1)" and "createProviderRecord p i s1 = (Err e, s2)"
  shows "createProviderRecords (ps @ p # qs) i s = (Err e, s2)"
  using assms
proof (induction ps arbitrary: s)
  case Nil
  then show ?case by simp
next
  case (Cons p' ps)
  obtain o1 s' where c1: "createProviderRecord p' i s = (o1, s')" by fastforce
  then show ?case using Cons by (cases o1) simp_all
qed

theorem registration_stops_at_error_witness:
  "createProviderRecords [PType ''C''] 0 one_value_state
     = (Ok (), record_set 0 (Cls ''C'') 1 (snd (new_record (createTypeRecord_opts ''C'' 0) one_value_state)))
   \<and> createProviderRecords [PType ''C'', PObj (provider_base (Key ''b'')), PType ''D''] 0 one_value_state
     = (Err UnknownProviderError,
        record_set 0 (Cls ''C'') 1 (snd (new_record (createTypeRecord_opts ''C'' 0) one_value_state)))"
proof -
  let ?s1 = "record_set 0 (Cls ''C'') 1 (snd (new_record (createTypeRecord_opts ''C'' 0) one_value_state))"
  have h1: "createProviderRecords [PType ''C''] 0 one_value_state = (Ok (), ?s1)"
    by (simp add: new_record_def alloc_def)
  have h2: "createProviderRecord (PObj (provider_base (Key ''b''))) 0 ?s1 = (Err UnknownProviderError, ?s1)"
    by (simp add: provider_base_def classify_def isUseValue_def isUseClass_def isUseFactory_def
        isUseExisting_def)
  have "createProviderRecords ([PType ''C''] @ PObj (provider_base (Key ''b'')) # [PType ''D'']) 0 one_value_state
        = (Err UnknownProviderError, ?s1)"
    by (rule registration_stops_at_error [OF h1 h2])
  then show ?thesis using h1 by simp
qed

text \<open>
  C33. The injector factory of \<open>createInjectorFactory(parent, name, providers)\<close>
  creates a fresh child of the one parent injector built when the factory was
  made: every call gives a new injector at the next address whose parent is
  that injector and whose name is the factory's name.
\<close>

theorem injector_factory_children:
  assumes "createInjectorFactory par nm providers s = (Ok F, s1)"
    and "F all s2 = (out, s3)"
  shows "\<exists>p. par providers s = (Ok p, s1) \<and> length (injs s3) = Suc (length (injs s2))
           \<and> parent (injs s3 ! length (injs s2)) = Some p \<and> name (injs s3 ! length (injs s2)) = Some nm"
proof -
  obtain p where p: "par providers s = (Ok p, s1)" and F: "F = (\<lambda>all. createInjector all (Some nm) (Some p))"
    using assms(1) by (auto simp: createInjectorFactory_def split: prod.splits outcome.splits)
  have "createInjector all (Some nm) (Some p) s2 = (out, s3)" using assms(2) F by simp
  note c = createInjector_fresh_child [OF this]
  show ?thesis using p c by (intro exI [of _ p]) simp
qed

theorem injector_factory_children_witness:
  "createInjectorFactory topInjectorFactory ''core'' [] (init_state (\<lambda>_. []) (\<lambda>_ _. Undef))
     = (Ok (\<lambda>all. createInjector all (Some ''core'') (Some 0)),
        snd (topInjectorFactory [] (init_state (\<lambda>_. []) (\<lambda>_ _. Undef))))
   \<and> parent (injs (snd (createInjector [] (Some ''core'') (Some 0)
        (snd (topInjectorFactory [] (init_state (\<lambda>_. []) (\<lambda>_ _. Undef)))))) ! 1) = Some 0
   \<and> name (injs (snd (createInjector [] (Some ''core'') (Some 0)
        (snd (topInjectorFactory [] (init_state (\<lambda>_. []) (\<lambda>_ _. Undef)))))) ! 1) = Some ''core''"
proof -
  let ?s0 = "init_state (\<lambda>_. []) (\<lambda>_ _. Undef)"
  let ?T = "snd (topInjectorFactory [] ?s0)"
  let ?F = "\<lambda>all. createInjector all (Some ''core'') (Some 0)"
  have h1: "createInjectorFactory topInjectorFactory ''core'' [] ?s0 = (Ok ?F, ?T)"
    by (simp add: createInjectorFactory_def topInjectorFactory_def createInjector_def Let_def
        case_prod_beta init_state_def)
  have h2: "?F [] ?T = (fst (?F [] ?T), snd (?F [] ?T))" by simp
  have "\<exists>p. topInjectorFactory [] ?s0 = (Ok p, ?T) \<and> length (injs (snd (?F [] ?T))) = Suc (length (injs ?T))
          \<and> parent (injs (snd (?F [] ?T)) ! length (injs ?T)) = Some p
          \<and> name (injs (snd (?F [] ?T)) ! length (injs ?T)) = Some ''core''"
    by (rule injector_factory_children [OF h1 h2])
  then show ?thesis using h1
    by (simp add: topInjectorFactory_def createInjector_def Let_def case_prod_beta init_state_def
        new_record_def alloc_def record_set_def)
qed

end
