(* ===== verification/MultiSafety.thy ===== *)
theory MultiSafety
  imports Multi Invariant
begin

text \<open>
  A record that a second \<open>multi\<close> registration has made refer to itself never
  yields a value, whatever the shape of the provider: every \<open>create\<close> of it
  throws or does not return. The proof carries two invariants through all nine
  resolution functions at once: the store is well formed including its factory
  closures (each captures an existing injector, and a multi closure an existing
  record), and the self-referential record keeps its falsy value and its
  self-capturing factory, because the only write that could change them would
  follow a successful creation of that record.
\<close>

subsection \<open>Well-formed factory closures\<close>

definition fact_ok :: "state \<Rightarrow> fact \<Rightarrow> bool" where
  "fact_ok s f = (case f of
      FConstructor c ds i \<Rightarrow> i < length (injs s)
    | FUseClassDeps c d i \<Rightarrow> i < length (injs s)
    | FType c i \<Rightarrow> i < length (injs s)
    | FUseExisting t i \<Rightarrow> i < length (injs s)
    | FUseFactory g d i \<Rightarrow> i < length (injs s)
    | FMulti sh ds i pr \<Rightarrow> i < length (injs s) \<and>
        (case pr of PrevRec r' \<Rightarrow> r' < length (recs s) | _ \<Rightarrow> True))"

definition res_ok :: "state \<Rightarrow> bool" where
  "res_ok s \<longleftrightarrow> store_ok s \<and>
     list_all (\<lambda>x. pred_option (fact_ok s) (factory x)) (opts s)"

text \<open>A finished result keeps both invariants and, under \<open>P\<close>, is not a value.\<close>

definition keeps_loop :: "nat \<Rightarrow> ('a, error, state) res \<Rightarrow> bool \<Rightarrow> bool" where
  "keeps_loop r m P \<longleftrightarrow>
     (\<forall>out s'. m = Some (out, s') \<longrightarrow> res_ok s' \<and> multi_self_loop r s' \<and> (P \<longrightarrow> (\<forall>v. out \<noteq> Ok v)))"

subsection \<open>Combinators\<close>

lemma keeps_loop_None [simp]: "keeps_loop r None P"
  by (simp add: keeps_loop_def)

lemma keeps_loop_Some [simp]:
  "keeps_loop r (Some (out, s')) P \<longleftrightarrow> res_ok s' \<and> multi_self_loop r s' \<and> (P \<longrightarrow> (\<forall>v. out \<noteq> Ok v))"
  by (simp add: keeps_loop_def)

lemma keeps_loop_weaken: "keeps_loop r m P \<Longrightarrow> keeps_loop r m False"
  by (simp add: keeps_loop_def)

lemma keeps_loop_bindr:
  assumes "keeps_loop r m False"
    and "\<And>v s1. m = Some (Ok v, s1) \<Longrightarrow> res_ok s1 \<Longrightarrow> multi_self_loop r s1 \<Longrightarrow> keeps_loop r (f v s1) P"
  shows "keeps_loop r (bindr m f) P"
  using assms by (auto simp: keeps_loop_def bindr_def split: option.splits outcome.splits)

lemma keeps_loop_bindr_stop:
  assumes "keeps_loop r m True"
  shows "keeps_loop r (bindr m f) P"
  using assms by (auto simp: keeps_loop_def bindr_def split: option.splits outcome.splits)

lemma keeps_loop_catch_undef: "keeps_loop r m False \<Longrightarrow> keeps_loop r (catch_undef m) False"
  by (auto simp: keeps_loop_def catch_undef_def split: option.splits outcome.splits)

subsection \<open>Store operations\<close>

lemma fact_ok_frame: "fact_ok s f \<Longrightarrow> frame s s' \<Longrightarrow> fact_ok s' f"
  by (auto simp: fact_ok_def frame_def split: fact.splits prev.splits)

lemma fact_ok_lengths:
  "fact_ok s f \<Longrightarrow> length (injs s') = length (injs s) \<Longrightarrow> length (recs s) \<le> length (recs s') \<Longrightarrow> fact_ok s' f"
  by (auto simp: fact_ok_def split: fact.splits prev.splits)

lemma fact_ok_same_lengths:
  "length (injs s') = length (injs s) \<Longrightarrow> length (recs s') = length (recs s) \<Longrightarrow> fact_ok s' = fact_ok s"
  by (rule ext) (auto simp: fact_ok_def split: fact.splits prev.splits)

lemma res_ok_factory:
  assumes "res_ok s" and "r < length (recs s)" and "factory (getOptions s r) = Some f"
  shows "fact_ok s f"
proof -
  have k: "recs s ! r < length (opts s)"
    using assms(1,2) by (simp add: res_ok_def store_ok_def recs_ok_nth)
  have "list_all (\<lambda>x. pred_option (fact_ok s) (factory x)) (opts s)"
    using assms(1) by (simp add: res_ok_def)
  then have "pred_option (fact_ok s) (factory (opts s ! (recs s ! r)))"
    using k by (simp add: list_all_length)
  then show ?thesis using assms(3) by (simp add: getOptions_def)
qed

lemma res_ok_new_record:
  assumes "res_ok s" and "pred_option (fact_ok s) (factory opt)"
  shows "res_ok (snd (new_record opt s))"
proof -
  have len: "length (injs (snd (new_record opt s))) = length (injs s)"
    "length (recs s) \<le> length (recs (snd (new_record opt s)))"
    by (simp_all add: new_record_def alloc_def)
  have "store_ok (snd (new_record opt s))" using assms(1) res_ok_def store_ok_new_record by blast
  moreover have "list_all (\<lambda>x. pred_option (fact_ok (snd (new_record opt s))) (factory x))
      (opts (snd (new_record opt s)))"
    using assms len by (auto simp: res_ok_def new_record_def alloc_def list_all_iff fact_ok_lengths
        option.pred_set)
  ultimately show ?thesis by (simp add: res_ok_def)
qed

lemma res_ok_setValue: "res_ok s \<Longrightarrow> res_ok (setValue r0 v s)"
proof -
  assume ok: "res_ok s"
  have "list_all (\<lambda>x. pred_option (fact_ok s) (factory x)) (opts (setValue r0 v s))"
    using ok
    by (cases "recs s ! r0 < length (opts s)")
       (auto simp: res_ok_def setValue_def Let_def list_all_length nth_list_update list_update_beyond)
  moreover have "store_ok (setValue r0 v s)"
    using ok by (auto simp: res_ok_def store_ok_def recs_ok_def setValue_def Let_def)
  moreover have "fact_ok (setValue r0 v s) = fact_ok s"
    by (rule fact_ok_same_lengths) (simp_all add: setValue_def Let_def)
  ultimately show ?thesis by (simp add: res_ok_def)
qed

lemma loop_setValue_other:
  "multi_self_loop r s \<Longrightarrow> recs s ! r0 \<noteq> recs s ! r \<Longrightarrow> multi_self_loop r (setValue r0 v s)"
  by (simp add: multi_self_loop_def getOptions_setValue_other) (simp add: setValue_def Let_def)

lemma loop_new_record: "multi_self_loop r s \<Longrightarrow> multi_self_loop r (snd (new_record opt s))"
  by (auto simp: multi_self_loop_def getOptions_new_record_old new_record_lengths new_record_recs_old less_SucI)

lemma keeps_loop_new_obj:
  assumes "res_ok s" and "multi_self_loop r s"
  shows "keeps_loop r (new_obj c args s) False"
proof -
  let ?s' = "s\<lparr>objs := objs s @ [(c, args)]\<rparr>"
  have "fact_ok ?s' = fact_ok s" by (rule fact_ok_same_lengths) simp_all
  then have "res_ok ?s'" using assms(1) by (simp add: res_ok_def store_ok_def recs_ok_def)
  moreover have "multi_self_loop r ?s'" using assms(2) by (simp add: multi_self_loop_def getOptions_def)
  ultimately show ?thesis by (simp add: new_obj_def alloc_def)
qed

lemma res_ok_reverse_args: "res_ok s \<Longrightarrow> res_ok (reverse_args c k s)"
proof -
  have "fact_ok (reverse_args c k s) = fact_ok s"
    by (rule fact_ok_same_lengths) (simp_all add: reverse_args_def)
  then show "res_ok s \<Longrightarrow> res_ok (reverse_args c k s)"
    by (simp add: res_ok_def store_ok_def recs_ok_def reverse_args_def)
qed

lemma loop_reverse_args: "multi_self_loop r s \<Longrightarrow> multi_self_loop r (reverse_args c k s)"
  by (simp add: multi_self_loop_def getOptions_def reverse_args_def)

lemma fact_ok_createTypeRecord:
  "i < length (injs s) \<Longrightarrow> pred_option (fact_ok s) (factory (createTypeRecord_opts c i))"
  by (simp add: createTypeRecord_opts_def fact_ok_def)

lemma fact_ok_createRecord:
  "i < length (injs s) \<Longrightarrow> pred_option (fact_ok s) (factory (createRecord_opts sh ds i))"
  by (cases sh) (simp_all add: createUseValueRecord_opts_def createUseClassRecord_opts_def
      createTypeRecord_opts_def createUseFactoryRecord_opts_def createUseExistingRecord_opts_def
      createConstructorRecord_opts_def fact_ok_def split: option.splits)

lemma frames_result: "frames s m \<Longrightarrow> m = Some (out, s1) \<Longrightarrow> frame s s1"
  by (simp add: frames_def)

lemma frame_injs: "frame s s1 \<Longrightarrow> injs s1 = injs s"
  by (simp add: frame_def)

lemma frame_recs_length: "frame s s1 \<Longrightarrow> length (recs s) \<le> length (recs s1)"
  by (auto simp: frame_def)

text \<open>Sequencing a resolution step that keeps the loop with a continuation that keeps it
  from every state the step can leave.\<close>

lemma keeps_loop_bindr_frames:
  assumes "keeps_loop r m False" and "frames s m"
    and "\<And>v s1. m = Some (Ok v, s1) \<Longrightarrow> frame s s1 \<Longrightarrow> res_ok s1 \<Longrightarrow> multi_self_loop r s1 \<Longrightarrow>
           keeps_loop r (f v s1) P"
  shows "keeps_loop r (bindr m f) P"
  using assms(1) by (rule keeps_loop_bindr) (simp add: assms(3) frames_result [OF assms(2)])

lemma res_ok_store_ok: "res_ok s \<Longrightarrow> store_ok s"
  by (simp add: res_ok_def)

lemma store_ok_records:
  "store_ok s \<Longrightarrow> i < length (injs s) \<Longrightarrow> records (injs s ! i) t = Some r' \<Longrightarrow> r' < length (recs s)"
  by (auto simp: store_ok_def ran_def)

lemma store_ok_parent:
  "store_ok s \<Longrightarrow> i < length (injs s) \<Longrightarrow> parent (injs s ! i) = Some q \<Longrightarrow> q < length (injs s)"
  by (auto simp: store_ok_def)

lemma loop_alias_options:
  "multi_self_loop r s \<Longrightarrow> recs s ! r0 = recs s ! r \<Longrightarrow> getOptions s r0 = getOptions s r"
  by (simp add: getOptions_def)

subsection \<open>The loop is kept through every resolution function\<close>

lemma multi_loop_kept:
  "res_ok s \<Longrightarrow> multi_self_loop r s \<Longrightarrow> i < length (injs s) \<Longrightarrow>
     keeps_loop r (injector_get n i t d flags s) False"
  "res_ok s \<Longrightarrow> multi_self_loop r s \<Longrightarrow> r0 < length (recs s) \<Longrightarrow>
     keeps_loop r (record_create n r0 s) (recs s ! r0 = recs s ! r)"
  "res_ok s \<Longrightarrow> multi_self_loop r s \<Longrightarrow> fact_ok s f \<Longrightarrow>
     keeps_loop r (run_factory n f s) (\<exists>sh ds i. f = FMulti sh ds i (PrevRec r))"
  "res_ok s \<Longrightarrow> multi_self_loop r s \<Longrightarrow> cur < length (recs s) \<Longrightarrow>
     (case pr of PrevRec r' \<Rightarrow> r' < length (recs s) | _ \<Rightarrow> True) \<Longrightarrow>
     keeps_loop r (createMulti n cur pr s) (pr = PrevRec r)"
  "res_ok s \<Longrightarrow> multi_self_loop r s \<Longrightarrow> i < length (injs s) \<Longrightarrow>
     keeps_loop r (getInjector n i dp s) False"
  "res_ok s \<Longrightarrow> multi_self_loop r s \<Longrightarrow> i < length (injs s) \<Longrightarrow>
     keeps_loop r (resolve_deps n i ds s) False"
  "res_ok s \<Longrightarrow> multi_self_loop r s \<Longrightarrow> i < length (injs s) \<Longrightarrow>
     keeps_loop r (type_params n i c ks acc s) False"
  "res_ok s \<Longrightarrow> multi_self_loop r s \<Longrightarrow> i < length (injs s) \<Longrightarrow>
     keeps_loop r (call_chain n i ps d s) False"
  "res_ok s \<Longrightarrow> multi_self_loop r s \<Longrightarrow> i < length (injs s) \<Longrightarrow>
     keeps_loop r (call_handler n h i p ps d s) False"
proof (induction n i t d flags s and n r0 s and n f s and n cur pr s and n i dp s and n i ds s
    and n i c ks acc s and n i ps d s and n h i p ps d s
    rule: injector_get_record_create_run_factory_createMulti_getInjector_resolve_deps_type_params_call_chain_call_handler.induct)
  case (2 n i t d flags s)
  obtain isSelf isParent isOptional where gf: "get_flags flags = (isSelf, isParent, isOptional)"
    by (cases "get_flags flags") auto
  have ok: "store_ok s" using "2.prems"(1) by (rule res_ok_store_ok)
  show ?case
  proof (cases "if isSelf then records (injs s ! i) t else None")
    case (Some r')
    have "r' < length (recs s)"
      using store_ok_records [OF ok "2.prems"(3)] Some by (simp split: if_splits)
    then have "keeps_loop r (record_create n r' s) (recs s ! r' = recs s ! r)"
      by (rule "2.IH"(2) [OF refl gf [symmetric] refl refl Some "2.prems"(1,2)])
    then show ?thesis using Some gf by (simp add: Let_def keeps_loop_weaken)
  next
    case None
    show ?thesis
    proof (cases "parent (injs s ! i) \<noteq> None \<and> isParent")
      case True
      then obtain q where q: "parent (injs s ! i) = Some q" by auto
      have "q < length (injs s)" using store_ok_parent [OF ok "2.prems"(3) q] .
      then have "keeps_loop r (injector_get n (the (parent (injs s ! i))) t d InjectFlags_Default s) False"
        using "2.IH"(1) [OF refl gf [symmetric] refl refl None True "2.prems"(1,2)] q by simp
      then show ?thesis using None True gf by (simp add: Let_def)
    next
      case False
      then show ?thesis using None gf "2.prems"(1,2) by (auto simp: Let_def)
    qed
  qed
next
  case (4 n r0 s)
  let ?opt = "getOptions s r0"
  show ?case
  proof (cases "truthy (rvalue ?opt)")
    case True
    have "recs s ! r0 \<noteq> recs s ! r"
      using "4.prems"(2) True by (auto simp: multi_self_loop_def getOptions_def)
    then show ?thesis using True "4.prems"(1,2) by simp
  next
    case nt: False
    show ?thesis
    proof (cases "factory ?opt")
      case None
      then show ?thesis using nt "4.prems"(1,2) by (simp add: Let_def)
    next
      case (Some f)
      have fo: "fact_ok s f" using res_ok_factory [OF "4.prems"(1,3) Some] .
      have ih: "keeps_loop r (run_factory n f s) (\<exists>sh ds i. f = FMulti sh ds i (PrevRec r))"
        using "4.IH" [OF refl nt Some "4.prems"(1,2) fo] .
      have eq: "record_create (Suc n) r0 s = bindr (run_factory n f s) (\<lambda>v s'. Some (Ok v, setValue r0 v s'))"
        using nt Some by (simp add: Let_def)
      show ?thesis
      proof (cases "recs s ! r0 = recs s ! r")
        case True
        then have "factory ?opt = factory (getOptions s r)" by (simp add: getOptions_def)
        then have "\<exists>sh ds i. f = FMulti sh ds i (PrevRec r)"
          using "4.prems"(2) Some by (auto simp: multi_self_loop_def split: option.splits fact.splits prev.splits)
        then show ?thesis using ih unfolding eq by (simp add: keeps_loop_bindr_stop)
      next
        case False
        have "keeps_loop r (bindr (run_factory n f s) (\<lambda>v s'. Some (Ok v, setValue r0 v s'))) False"
        proof (rule keeps_loop_bindr_frames [OF keeps_loop_weaken [OF ih] resolution_frames(3)])
          fix v s1
          assume fr: "frame s s1" and ok1: "res_ok s1" and l1: "multi_self_loop r s1"
          have rl: "r < length (recs s)" using "4.prems"(2) by (simp add: multi_self_loop_def)
          have "recs s1 ! r0 \<noteq> recs s1 ! r"
            using False frame_recs_nth [OF fr "4.prems"(3)] frame_recs_nth [OF fr rl] by simp
          then show "keeps_loop r (Some (Ok v, setValue r0 v s1)) False"
            using ok1 l1 by (simp add: res_ok_setValue loop_setValue_other)
        qed
        then show ?thesis using False unfolding eq by simp
      qed
    qed
  qed
next
  case 1
  show ?case by simp
next
  case 3
  show ?case by simp
next
  case 5
  show ?case by simp
next
  case (6 n c ds i s)
  have il: "i < length (injs s)" using "6.prems"(3) by (simp add: fact_ok_def)
  show ?case
  proof (cases ds)
    case (Some dl)
    have "keeps_loop r (bindr (resolve_deps n i dl s) (\<lambda>ps s'. new_obj c ps s')) False"
      by (rule keeps_loop_bindr_frames [OF "6.IH"(2) [OF Some "6.prems"(1,2) il] resolution_frames(6)])
         (simp add: keeps_loop_new_obj)
    then show ?thesis using Some by simp
  next
    case None
    obtain r1 s1 where nr: "new_record (createTypeRecord_opts c i) s = (r1, s1)" by fastforce
    have ok1: "res_ok s1" using res_ok_new_record [OF "6.prems"(1) fact_ok_createTypeRecord [OF il, of c]] nr
      by simp
    have l1: "multi_self_loop r s1" using loop_new_record [OF "6.prems"(2)] nr by (metis snd_conv)
    have rl: "r1 < length (recs s1)" using new_record_fst_valid [of "createTypeRecord_opts c i" s] nr by simp
    have "keeps_loop r (record_create n r1 s1) False"
      using "6.IH"(1) [OF None nr [symmetric] refl ok1 l1 rl] by (rule keeps_loop_weaken)
    then show ?thesis using None nr by simp
  qed
next
  case (7 n c d i s)
  have il: "i < length (injs s)" using "7.prems"(3) by (simp add: fact_ok_def)
  have "keeps_loop r (bindr (resolve_deps n i d s) (\<lambda>ps s'. new_obj c ps s')) False"
    by (rule keeps_loop_bindr_frames [OF "7.IH" [OF "7.prems"(1,2) il] resolution_frames(6)])
       (simp add: keeps_loop_new_obj)
  then show ?case by simp
next
  case (8 n c i s)
  have il: "i < length (injs s)" using "8.prems"(3) by (simp add: fact_ok_def)
  show ?case
  proof (cases "map fst (meta s c) = []")
    case True
    then show ?thesis using keeps_loop_new_obj [OF "8.prems"(1,2)] by (simp add: Let_def)
  next
    case False
    let ?ks = "map fst (meta s c)"
    have "keeps_loop r (bindr (type_params n i c ?ks [] s)
        (\<lambda>res s'. new_obj c (array_from (length ?ks) res) s')) False"
      by (rule keeps_loop_bindr_frames [OF "8.IH" [OF refl False "8.prems"(1,2) il] resolution_frames(7)])
         (simp add: keeps_loop_new_obj)
    then show ?thesis using False by (simp add: Let_def)
  qed
next
  case (9 n t i s)
  have il: "i < length (injs s)" using "9.prems"(3) by (simp add: fact_ok_def)
  show ?case using "9.IH" [OF "9.prems"(1,2) il] by simp
next
  case (10 n g d i s)
  have il: "i < length (injs s)" using "10.prems"(3) by (simp add: fact_ok_def)
  have "keeps_loop r (bindr (resolve_deps n i d s) (\<lambda>ps s'. Some (Ok (user_fns s' g ps), s'))) False"
    by (rule keeps_loop_bindr_frames [OF "10.IH" [OF "10.prems"(1,2) il] resolution_frames(6)]) simp
  then show ?case by simp
next
  case (11 n sh ds i pr s)
  have il: "i < length (injs s)" using "11.prems"(3) by (simp add: fact_ok_def)
  have pv: "case pr of PrevRec r' \<Rightarrow> r' < length (recs s) | _ \<Rightarrow> True"
    using "11.prems"(3) by (simp add: fact_ok_def)
  obtain cur s1 where nr: "new_record (createRecord_opts sh ds i) s = (cur, s1)" by fastforce
  have ok1: "res_ok s1" using res_ok_new_record [OF "11.prems"(1) fact_ok_createRecord [OF il, of sh ds]] nr
    by simp
  have l1: "multi_self_loop r s1" using loop_new_record [OF "11.prems"(2)] nr by (metis snd_conv)
  have cl: "cur < length (recs s1)" using new_record_fst_valid [of "createRecord_opts sh ds i" s] nr by simp
  have len: "length (recs s) \<le> length (recs s1)" using new_record_lengths(1) [of "createRecord_opts sh ds i" s] nr
    by simp
  have pv1: "case pr of PrevRec r' \<Rightarrow> r' < length (recs s1) | _ \<Rightarrow> True"
    using pv len by (auto split: prev.splits)
  show ?case using "11.IH" [OF nr [symmetric] refl ok1 l1 cl pv1] nr by simp
next
  case 12
  show ?case by simp
next
  case (13 n cur pr s)
  have ih1: "keeps_loop r (record_create n cur s) False"
    using "13.IH"(1) [OF "13.prems"(1,2,3)] by (rule keeps_loop_weaken)
  show ?case
    unfolding createMulti.simps(2)
  proof (rule keeps_loop_bindr_frames [OF ih1 resolution_frames(2)])
    fix v s1
    assume m: "record_create n cur s = Some (Ok v, s1)" and fr: "frame s s1"
      and ok1: "res_ok s1" and l1: "multi_self_loop r s1"
    show "keeps_loop r (case pr of PrevNone \<Rightarrow> Some (Ok (VArr [v]), s1)
        | PrevInj _ \<Rightarrow> Some (Err TypeError, s1)
        | PrevRec r' \<Rightarrow> bindr (record_create n r' s1) (\<lambda>pre s2. case spread pre of
              Some xs \<Rightarrow> Some (Ok (VArr (xs @ [v])), s2) | None \<Rightarrow> Some (Err TypeError, s2)))
        (pr = PrevRec r)"
    proof (cases pr)
      case (PrevRec r')
      have rl: "r' < length (recs s1)"
        using "13.prems"(4) PrevRec frame_recs_length [OF fr] by simp
      have ih2: "keeps_loop r (record_create n r' s1) (recs s1 ! r' = recs s1 ! r)"
        using "13.IH"(2) [OF m PrevRec ok1 l1 rl] .
      show ?thesis
      proof (cases "r' = r")
        case True
        then show ?thesis using PrevRec ih2 by (simp add: keeps_loop_bindr_stop)
      next
        case False
        have "keeps_loop r (bindr (record_create n r' s1) (\<lambda>pre s2. case spread pre of
              Some xs \<Rightarrow> Some (Ok (VArr (xs @ [v])), s2) | None \<Rightarrow> Some (Err TypeError, s2))) False"
          by (rule keeps_loop_bindr_frames [OF keeps_loop_weaken [OF ih2] resolution_frames(2)])
             (simp split: option.splits)
        then show ?thesis using PrevRec False by simp
      qed
    qed (simp_all add: ok1 l1)
  qed
next
  case 14
  show ?case by simp
next
  case (15 n i t s)
  then show ?case by simp
next
  case (16 n i a ops s)
  obtain fl tk where dt: "dep_flags_token a ops = (fl, tk)" by fastforce
  show ?case using "16.IH" [OF refl dt [symmetric] "16.prems"] dt by simp
next
  case 17
  show ?case by simp
next
  case 18
  then show ?case by simp
next
  case (19 n i dp ds s)
  show ?case
    unfolding resolve_deps.simps(3)
  proof (rule keeps_loop_bindr_frames [OF "19.IH"(1) [OF "19.prems"] resolution_frames(5)])
    fix v s1
    assume m: "getInjector n i dp s = Some (Ok v, s1)" and fr: "frame s s1"
      and ok1: "res_ok s1" and l1: "multi_self_loop r s1"
    have il: "i < length (injs s1)" using "19.prems"(3) frame_injs [OF fr] by simp
    show "keeps_loop r (bindr (resolve_deps n i ds s1) (\<lambda>vs s2. Some (Ok (v # vs), s2))) False"
      by (rule keeps_loop_bindr_frames [OF "19.IH"(2) [OF m ok1 l1 il] resolution_frames(6)]) simp
  qed
next
  case 20
  show ?case by simp
next
  case 21
  then show ?case by simp
next
  case (22 n i c k ks acc s)
  let ?s1 = "reverse_args c k s"
  have ok1: "res_ok ?s1" using "22.prems"(1) by (rule res_ok_reverse_args)
  have l1: "multi_self_loop r ?s1" using "22.prems"(2) by (rule loop_reverse_args)
  have il: "i < length (injs ?s1)" using "22.prems"(3) frame_injs [OF frame_reverse_args] by simp
  have "keeps_loop r (bindr (call_chain n i (param_decorators s c k) Undef ?s1)
      (\<lambda>v s2. type_params n i c ks (acc @ [(k, v)]) s2)) False"
  proof (rule keeps_loop_bindr_frames [OF "22.IH"(1) [OF refl refl ok1 l1 il] resolution_frames(8)])
    fix v s2
    assume m: "call_chain n i (param_decorators s c k) Undef ?s1 = Some (Ok v, s2)" and fr: "frame ?s1 s2"
      and ok2: "res_ok s2" and l2: "multi_self_loop r s2"
    have "i < length (injs s2)" using il frame_injs [OF fr] by simp
    then show "keeps_loop r (type_params n i c ks (acc @ [(k, v)]) s2) False"
      by (rule "22.IH"(2) [OF refl refl m ok2 l2])
  qed
  then show ?case by (simp add: Let_def)
next
  case 23
  show ?case by simp
next
  case 24
  then show ?case by simp
next
  case (25 n i p ps d s)
  show ?case
    unfolding call_chain.simps(3)
  proof (rule keeps_loop_bindr_frames [OF "25.IH"(1) [OF "25.prems"] resolution_frames(1)])
    fix v s1
    assume m: "injector_get n i (pd_name p) Undef InjectFlags_Default s = Some (Ok v, s1)"
      and fr: "frame s s1" and ok1: "res_ok s1" and l1: "multi_self_loop r s1"
    have "i < length (injs s1)" using "25.prems"(3) frame_injs [OF fr] by simp
    then show "keeps_loop r (call_handler n v i p ps d s1) False"
      by (rule "25.IH"(2) [OF m ok1 l1])
  qed
next
  case 26
  show ?case by simp
next
  case (27 n h i p ps d s)
  have chain: "keeps_loop r (bindr (injector_get n i t0 d0 InjectFlags_Default s) (\<lambda>r s1. call_chain n i ps r s1)) False"
    if ig: "keeps_loop r (injector_get n i t0 d0 InjectFlags_Default s) False"
      and ih: "\<And>v s1. injector_get n i t0 d0 InjectFlags_Default s = Some (Ok v, s1) \<Longrightarrow>
                 res_ok s1 \<Longrightarrow> multi_self_loop r s1 \<Longrightarrow> i < length (injs s1) \<Longrightarrow>
                 keeps_loop r (call_chain n i ps v s1) False" for t0 d0
  proof (rule keeps_loop_bindr_frames [OF ig resolution_frames(1)])
    fix v s1
    assume m: "injector_get n i t0 d0 InjectFlags_Default s = Some (Ok v, s1)"
      and fr: "frame s s1" and ok1: "res_ok s1" and l1: "multi_self_loop r s1"
    have "i < length (injs s1)" using "27.prems"(3) frame_injs [OF fr] by simp
    then show "keeps_loop r (call_chain n i ps v s1) False" by (rule ih [OF m ok1 l1])
  qed
  show ?case
  proof (cases "\<exists>x. h = VFn x \<and> x \<in> {HDefault, HOptional, HSkipSelf, HInject}")
    case False
    then have "call_handler (Suc n) h i p ps d s = Some (Err TypeError, s)"
      by (cases h; simp; rename_tac x; case_tac x; simp)
    then show ?thesis using "27.prems"(1,2) by simp
  next
    case True
    then obtain x where h: "h = VFn x" and x: "x \<in> {HDefault, HOptional, HSkipSelf, HInject}" by blast
    show ?thesis
    proof (cases x)
      case HDefault
      show ?thesis
      proof (cases "truthy d")
        case True
        then show ?thesis using "27.IH"(1) [OF h HDefault True "27.prems"] h HDefault by simp
      next
        case False
        have "keeps_loop r (bindr (injector_get n i (pd_type p) d InjectFlags_Default s)
            (\<lambda>r s1. call_chain n i ps r s1)) False"
          by (rule chain [OF "27.IH"(2) [OF h HDefault False "27.prems"] "27.IH"(3) [OF h HDefault False]])
        then show ?thesis using h HDefault False by simp
      qed
    next
      case HOptional
      then show ?thesis
        using keeps_loop_catch_undef [OF "27.IH"(4) [OF h HOptional "27.prems"]] h by simp
    next
      case HSkipSelf
      show ?thesis
      proof (cases "parent (injs s ! i)")
        case None
        then show ?thesis using h HSkipSelf "27.prems"(1,2) by simp
      next
        case (Some q)
        have "q < length (injs s)" using store_ok_parent [OF res_ok_store_ok [OF "27.prems"(1)] "27.prems"(3) Some] .
        then show ?thesis using "27.IH"(5) [OF h HSkipSelf Some "27.prems"(1,2)] h HSkipSelf Some by simp
      qed
    next
      case HInject
      let ?t = "case pd_args p of None \<Rightarrow> pd_type p | Some [] \<Rightarrow> TUndef | Some (t # _) \<Rightarrow> t"
      have "keeps_loop r (bindr (injector_get n i ?t Undef InjectFlags_Default s)
          (\<lambda>r s1. call_chain n i ps r s1)) False"
        by (rule chain [OF "27.IH"(6) [OF h HInject refl "27.prems"] "27.IH"(7) [OF h HInject refl]])
      then show ?thesis using h HInject by (simp add: Let_def)
    qed (use x in simp)
  qed
qed

subsection \<open>Registration makes the loop\<close>

lemma res_ok_getRecordHandler:
  assumes ok: "res_ok s" and il: "i < length (injs s)"
    and found: "getRecord (length (injs s)) s i (provide p) = found"
  shows "res_ok (getRecordHandler p sh found i s)"
proof -
  define opt where "opt = (if multi p then createMultiRecord_opts sh (deps p) i found
                           else createRecord_opts sh (deps p) i)"
  have fl: "pred_option (\<lambda>r. r < length (recs s)) found"
    using getRecord_in_store [OF res_ok_store_ok [OF ok] il] found by (cases found) auto
  have "pred_option (fact_ok s) (factory (createMultiRecord_opts sh (deps p) i found))"
    using fl il by (cases sh) (auto simp: fact_ok_def createMultiUseValueRecord_opts_def split: option.splits)
  then have "pred_option (fact_ok s) (factory opt)"
    using fact_ok_createRecord [OF il, of sh "deps p"] unfolding opt_def by simp
  then have ok1: "res_ok (snd (new_record opt s))" by (rule res_ok_new_record [OF ok])
  obtain r' s1 where nr: "new_record opt s = (r', s1)" by fastforce
  have h: "getRecordHandler p sh found i s =
      (case found of Some r \<Rightarrow> setRecord r r' s1 | None \<Rightarrow> record_set i (provide p) r' s1)"
    unfolding getRecordHandler_def Let_def opt_def [symmetric] using nr by simp
  have rl: "r' < length (recs s1)" using new_record_fst_valid [of opt s] nr by simp
  have ok1': "res_ok s1" using ok1 nr by simp
  show ?thesis
  proof (cases found)
    case None
    have "fact_ok (record_set i (provide p) r' s1) = fact_ok s1"
      by (rule fact_ok_same_lengths) (simp_all add: record_set_def)
    then have "res_ok (record_set i (provide p) r' s1)"
      using ok1' rl store_ok_record_set [OF res_ok_store_ok [OF ok1'] rl]
      by (simp add: res_ok_def record_set_def)
    then show ?thesis using None h by simp
  next
    case (Some r)
    have "fact_ok (setRecord r r' s1) = fact_ok s1"
      by (rule fact_ok_same_lengths) (simp_all add: setRecord_def)
    then have "res_ok (setRecord r r' s1)"
      using ok1' rl store_ok_setRecord [OF res_ok_store_ok [OF ok1'] rl]
      by (simp add: res_ok_def setRecord_def)
    then show ?thesis using Some h by simp
  qed
qed

lemma multi_registration_loop:
  assumes "multi p" and "classify p = Some sh" and "\<forall>v. sh \<noteq> SUseValue v"
    and "getRecord (length (injs s)) s i (provide p) = Some r" and "r < length (recs s)"
    and "createProviderRecord (PObj p) i s = (Ok (), s')"
  shows "multi_self_loop r s'" and "injs s' = injs s"
proof -
  let ?opt = "\<lparr>factory = Some (FMulti sh (deps p) i (PrevRec r)), rvalue = Undef\<rparr>"
  have opt: "createMultiRecord_opts sh (deps p) i (Some r) = ?opt"
    using assms(3) by (cases sh) simp_all
  have "s' = getRecordHandler p sh (Some r) i s"
    using assms(2,4,6) by simp
  then have s': "s' = setRecord r (length (recs s)) (snd (new_record ?opt s))"
    using assms(1) opt by (simp add: getRecordHandler_def new_record_eq)
  show "multi_self_loop r s'"
    using assms(5) unfolding s' by (simp add: multi_self_loop_def setRecord_def getOptions_def new_record_eq nth_append)
  show "injs s' = injs s"
    unfolding s' by (simp add: setRecord_def new_record_eq)
qed

lemma get_found_record:
  assumes "getRecord k s i t = Some r" and "injector_get n i t d InjectFlags_Default s = Some res"
  shows "\<exists>m. record_create m r s = Some res"
proof -
  obtain j where j: "\<forall>m. injector_get (Suc (m + j)) i t d InjectFlags_Default s = record_create m r s"
    using get_chain_found [OF assms(1)] by blast
  have "n \<le> Suc (n + j)" by simp
  then have "fuel_le (injector_get n i t d InjectFlags_Default s)
                     (injector_get (Suc (n + j)) i t d InjectFlags_Default s)"
    using resolution_fuel_mono(1) [of n i t d InjectFlags_Default s] by blast
  then have "injector_get (Suc (n + j)) i t d InjectFlags_Default s = Some res"
    using assms(2) by (simp only: fuel_le_Some)
  then show ?thesis using j by metis
qed

lemma loop_record_no_value:
  assumes "res_ok s" and "multi_self_loop r s"
  shows "record_create n r s \<noteq> Some (Ok v, s')"
proof -
  have "r < length (recs s)" using assms(2) by (simp add: multi_self_loop_def)
  then have "keeps_loop r (record_create n r s) True"
    using multi_loop_kept(2) [OF assms, of r n] by simp
  then show ?thesis by (auto simp: keeps_loop_def)
qed

subsection \<open>Example\<close>

text \<open>
  A second \<open>multi\<close> provider for \<open>m\<close>, now \<open>useClass: C\<close>, registered into
  \<open>multi_store1\<close>, and the store it leaves: the new record's closure captured the
  record it overwrote, record 1.
\<close>

abbreviation multi_class_provider :: provider_obj where
  "multi_class_provider \<equiv> (provider_base (Key ''m''))\<lparr>multi := True, useClass := Some ''C''\<rparr>"

abbreviation multi_class_store2 :: state where
  "multi_class_store2 \<equiv> setRecord 1 2 (snd (new_record
     \<lparr>factory = Some (FMulti (SUseClass ''C'') None 0 (PrevRec 1)), rvalue = Undef\<rparr> multi_store1))"

lemma res_ok_multi_store1: "res_ok multi_store1"
  by (auto simp: res_ok_def store_ok_def recs_ok_def fact_ok_def ran_def Injector_token_def)

lemma multi_class_registered:
  "createProviderRecord (PObj multi_class_provider) 0 multi_store1 = (Ok (), multi_class_store2)"
  by (simp add: multi_example_simps Injector_token_def createMultiRecord_opts.simps)

text \<open>
  C2. A second \<open>multi\<close> registration of any shape but \<open>useValue\<close> makes its token
  yield no value: from a well-formed store, after \<open>createProviderRecord\<close> of a
  \<open>multi\<close> provider (\<open>useClass\<close>, \<open>useFactory\<close>, \<open>useExisting\<close> or a bare
  class) for a token that already has a record, no \<open>get\<close> of that token, under any
  call-depth bound, returns a value: it throws or overflows the stack.
\<close>

theorem multi_rebinding_never_value:
  assumes "res_ok s" and "i < length (injs s)" and "multi p" and "classify p = Some sh"
    and "\<forall>v. sh \<noteq> SUseValue v"
    and "getRecord (length (injs s)) s i (provide p) = Some r"
    and "createProviderRecord (PObj p) i s = (Ok (), s')"
  shows "injector_get n i (provide p) d InjectFlags_Default s' \<noteq> Some (Ok v, s'')"
proof
  assume get: "injector_get n i (provide p) d InjectFlags_Default s' = Some (Ok v, s'')"
  have rl: "r < length (recs s)"
    using getRecord_in_store [OF res_ok_store_ok [OF assms(1)] assms(2,6)] .
  note reg = multi_registration_loop [OF assms(3,4,5,6) rl assms(7)]
  have ok': "res_ok s'"
    using res_ok_getRecordHandler [OF assms(1,2,6), of sh] assms(4,6,7) by simp
  have "getRecord (length (injs s)) s' i (provide p) = Some r"
    using assms(6) by (simp only: getRecord_same_injs [OF reg(2)])
  then obtain m where "record_create m r s' = Some (Ok v, s'')"
    using get_found_record [OF _ get] by blast
  then show False using loop_record_no_value [OF ok' reg(1)] by simp
qed

theorem multi_rebinding_never_value_witness:
  "res_ok multi_store1 \<and> 0 < length (injs multi_store1) \<and> multi multi_class_provider \<and>
   classify multi_class_provider = Some (SUseClass ''C'') \<and> (\<forall>v. SUseClass ''C'' \<noteq> SUseValue v) \<and>
   getRecord (length (injs multi_store1)) multi_store1 0 (provide multi_class_provider) = Some 1 \<and>
   createProviderRecord (PObj multi_class_provider) 0 multi_store1 = (Ok (), multi_class_store2) \<and>
   (\<forall>n v s''. injector_get n 0 (Key ''m'') Undef InjectFlags_Default multi_class_store2 \<noteq> Some (Ok v, s''))"
proof -
  have h2: "classify multi_class_provider = Some (SUseClass ''C'')" by (simp add: multi_example_simps)
  have h4: "getRecord (length (injs multi_store1)) multi_store1 0 (provide multi_class_provider) = Some 1"
    by (simp add: provider_base_def Injector_token_def)
  have "\<forall>n v s''. injector_get n 0 (provide multi_class_provider) Undef InjectFlags_Default multi_class_store2
      \<noteq> Some (Ok v, s'')"
    using multi_rebinding_never_value [OF res_ok_multi_store1 _ _ h2 _ h4 multi_class_registered] by simp
  then show ?thesis using res_ok_multi_store1 h2 h4 multi_class_registered by (simp add: provider_base_def)
qed

end
