(* ===== verification/Decorators.thy ===== *)
theory Decorators
  imports Scope Multi
begin

text \<open>
  The decorator declarations of \<open>decorator.ts\<close> and the metadata they leave on a
  class. \<open>Optional\<close>, \<open>SkipSelf\<close>, \<open>Self\<close> and \<open>Inject\<close> are made by
  \<open>createParameterDecorator(key, options, Def)\<close> of the external library
  \<open>@noding/decorator\<close>: applied to a constructor parameter, each records an
  entry (\<open>IParameterDecorator\<close>, the record \<open>pdec\<close>) holding its metadata key,
  the parameter's declared type and the arguments of the decorator call. How
  the library collects the entries of a class (\<open>ctor_params\<close>) is modelled
  from the contract of the spec (sections 4.2, 4.5 and 6): every constructor
  parameter has an entry list, holding its decorators from the outermost to
  the one closest to the parameter and, last and innermost, the implicit entry
  of the default handler, which resolves the declared type. The theorems
  compose the layers: they give the result of constructing a class whose
  parameter is declared \<open>@Optional()\<close> or \<open>@Inject(t)\<close>, through the chain of
  \<open>createTypeRecord\<close> and the handlers of \<open>coreInjectorFactory\<close>.
\<close>

subsection \<open>The parameter decorators\<close>

text \<open>\<open>@Optional()\<close> on a parameter of declared type \<open>ty\<close> (line 22).\<close>

definition Optional :: "token \<Rightarrow> pdec" where
  "Optional ty = \<lparr>pd_name = OptionalMetadataKey, pd_type = ty, pd_args = None\<rparr>"

text \<open>\<open>@SkipSelf()\<close> (line 33).\<close>

definition SkipSelf :: "token \<Rightarrow> pdec" where
  "SkipSelf ty = \<lparr>pd_name = SkipSelfMetadataKey, pd_type = ty, pd_args = None\<rparr>"

text \<open>\<open>@Self()\<close> (line 44).\<close>

definition Self :: "token \<Rightarrow> pdec" where
  "Self ty = \<lparr>pd_name = SelfMetadataKey, pd_type = ty, pd_args = None\<rparr>"

text \<open>\<open>@Inject(token)\<close> (lines 57--61): the call's argument list is \<open>[token]\<close>.\<close>

definition Inject :: "token \<Rightarrow> token \<Rightarrow> pdec" where
  "Inject t ty = \<lparr>pd_name = InjectMetadataKey, pd_type = ty, pd_args = Some [t]\<rparr>"

subsection \<open>Constructor declarations\<close>

text \<open>
  A constructor parameter as written: its index, its declared type and its
  decorators from the outermost to the one closest to the parameter.
\<close>

type_synonym param_decl = "nat \<times> token \<times> (token \<Rightarrow> pdec) list"

text \<open>The implicit entry of the default handler, keyed \<open>defaultParameterHandlerToken\<close>.\<close>

definition default_entry :: "token \<Rightarrow> pdec" where
  "default_entry ty = \<lparr>pd_name = defaultParameterHandlerToken, pd_type = ty, pd_args = None\<rparr>"

text \<open>
  The per-parameter metadata \<open>getDecorator(type).parameters.constructor\<close>
  returns: for every parameter its decorators, outermost first, and the
  default entry innermost. \<open>createTypeRecord\<close> makes the first entry of the
  array the outermost handler, so the decorator closest to the parameter wraps
  only the default handler, as section 4.5 of the spec says.
\<close>

definition ctor_params :: "param_decl list \<Rightarrow> (nat \<times> pdec list) list" where
  "ctor_params ps = map (\<lambda>(k, ty, ds). (k, map (\<lambda>d. d ty) ds @ [default_entry ty])) ps"

text \<open>
  An injector on whose parent chain a token is bound to a stored truthy value
  (the handlers of \<open>coreInjectorFactory\<close> are such \<open>useValue\<close> bindings).
\<close>

definition binds_value :: "state \<Rightarrow> nat \<Rightarrow> token \<Rightarrow> val \<Rightarrow> bool" where
  "binds_value s i t v \<longleftrightarrow> truthy v \<and>
     (case getRecord (length (injs s)) s i t of Some r \<Rightarrow> rvalue (getOptions s r) = v | None \<Rightarrow> False)"

subsection \<open>Lookups of bound handlers\<close>

lemma binds_value_get:
  assumes b: "binds_value s i t v" and n: "length (injs s) \<le> n"
  shows "injector_get (Suc (Suc n)) i t d InjectFlags_Default s = Some (Ok v, s)"
proof -
  obtain r where gr: "getRecord (length (injs s)) s i t = Some r" and rv: "rvalue (getOptions s r) = v"
    and tv: "truthy v"
    using b by (auto simp: binds_value_def split: option.splits)
  obtain j where j: "j < length (injs s)"
    and path: "\<forall>m. injector_get (Suc (m + j)) i t d InjectFlags_Default s = record_create m r s"
    using get_chain_found [OF gr] by blast
  have "Suc (Suc n) = Suc (Suc (n - j) + j)" using j n by simp
  then have "injector_get (Suc (Suc n)) i t d InjectFlags_Default s = record_create (Suc (n - j)) r s"
    using path by metis
  then show ?thesis using rv tv by simp
qed

lemma binds_value_reverse_args [simp]: "binds_value (reverse_args c k s) = binds_value s"
proof (intro ext)
  fix i t v
  have gr: "getRecord (length (injs s)) (reverse_args c k s) i t = getRecord (length (injs s)) s i t"
    by (rule getRecord_same_injs) (simp add: reverse_args_def)
  have go: "getOptions (reverse_args c k s) = getOptions s"
    by (rule ext) (simp add: getOptions_def reverse_args_def)
  have li: "length (injs (reverse_args c k s)) = length (injs s)"
    by (simp add: reverse_args_def)
  show "binds_value (reverse_args c k s) i t v = binds_value s i t v"
    by (simp only: binds_value_def li gr go)
qed

lemma reverse_args_injs [simp]: "injs (reverse_args c k s) = injs s"
  by (simp add: reverse_args_def)

lemma ctor_params_single:
  "ctor_params [(k, ty, ds)] = [(k, map (\<lambda>d. d ty) ds @ [default_entry ty])]"
  by (simp add: ctor_params_def)

lemma param_decorators_single:
  "meta s c = [(k, ps)] \<Longrightarrow> param_decorators s c k = ps"
  by (simp add: param_decorators_def)

text \<open>
  A class with one constructor parameter: creation runs the parameter's
  handler chain once on the store whose array has been reversed, and allocates
  the instance with the chain's result.
\<close>

lemma single_param_construct:
  assumes m: "meta s c = [(0, ps)]"
  shows "run_factory (Suc (Suc (Suc n))) (FType c i) s =
           bindr (call_chain (Suc n) i ps Undef (reverse_args c 0 s)) (\<lambda>v s'. new_obj c [v] s')"
proof (cases "call_chain (Suc n) i ps Undef (reverse_args c 0 s)")
  case None
  then show ?thesis using m by (simp add: param_decorators_single Let_def)
next
  case (Some a)
  then show ?thesis using m
    by (cases a; cases "fst a") (auto simp: param_decorators_single Let_def array_from_def)
qed

subsection \<open>Example store\<close>

text \<open>
  One injector binding the Inject, Optional and default handlers and the key
  \<open>t\<close> to \<open>7\<close>, and a class \<open>C\<close> with the given parameter metadata.
\<close>

abbreviation dec_store :: "(nat \<times> pdec list) list \<Rightarrow> state" where
  "dec_store ps \<equiv>
     \<lparr>injs = [\<lparr>records = [InjectMetadataKey \<mapsto> 0, OptionalMetadataKey \<mapsto> 1,
                          defaultParameterHandlerToken \<mapsto> 2, Key ''t'' \<mapsto> 3],
               parent = None, name = None\<rparr>],
      recs = [0, 1, 2, 3],
      opts = [\<lparr>factory = None, rvalue = VFn HInject\<rparr>, \<lparr>factory = None, rvalue = VFn HOptional\<rparr>,
              \<lparr>factory = None, rvalue = VFn HDefault\<rparr>, \<lparr>factory = None, rvalue = VNum 7\<rparr>],
      objs = [], meta = (\<lambda>_. [])(''C'' := ps), user_fns = \<lambda>_ _. Undef\<rparr>"

lemmas dec_store_simps = metadata_keys getOptions_def get_flags_def binds_value_def numeral_eq_Suc
  reverse_args_def ctor_params_def Inject_def Optional_def default_entry_def new_obj_def alloc_def

subsection \<open>Claims\<close>

text \<open>
  C21. A parameter declared \<open>@Optional()\<close> gets its declared type, or
  \<open>undefined\<close> when resolving that type throws: creating a class whose single
  constructor parameter is so declared, with the Optional and default handlers
  bound, allocates one instance whose argument is \<open>get(type)\<close> with any error
  turned into \<open>undefined\<close>. The lookup runs on the store in which the parameter's
  decorator array has been reversed in place.
\<close>

theorem optional_decorator_param:
  assumes md: "meta s c = ctor_params [(0, ty, [Optional])]"
    and ho: "binds_value s i OptionalMetadataKey (VFn HOptional)"
    and hd: "binds_value s i defaultParameterHandlerToken (VFn HDefault)"
    and n: "length (injs s) \<le> n"
  shows "run_factory (n + 7) (FType c i) s =
           bindr (catch_undef (injector_get (n + 1) i ty Undef InjectFlags_Default (reverse_args c 0 s)))
             (\<lambda>w s3. new_obj c [w] s3)"
proof -
  let ?sr = "reverse_args c 0 s"
  have m: "meta s c = [(0, [Optional ty, default_entry ty])]" using md by (simp add: ctor_params_single)
  have go: "injector_get (Suc (Suc (Suc (Suc n)))) i OptionalMetadataKey Undef 0 ?sr = Some (Ok (VFn HOptional), ?sr)"
    using binds_value_get [of ?sr i OptionalMetadataKey "VFn HOptional" "Suc (Suc n)" Undef] ho n
    by (simp del: injector_get.simps)
  have gd: "injector_get (Suc (Suc n)) i defaultParameterHandlerToken Undef 0 ?sr = Some (Ok (VFn HDefault), ?sr)"
    using binds_value_get [of ?sr i defaultParameterHandlerToken "VFn HDefault" n Undef] hd n
    by (simp del: injector_get.simps)
  have ch: "call_chain (Suc (Suc (Suc (Suc (Suc n))))) i [Optional ty, default_entry ty] Undef ?sr =
      catch_undef (injector_get (Suc n) i ty Undef 0 ?sr)"
    using go gd
    by (simp del: injector_get.simps add: Optional_def default_entry_def bindr_def catch_undef_def
        split: option.splits outcome.splits)
  have "run_factory (n + 7) (FType c i) s =
      bindr (call_chain (Suc (Suc (Suc (Suc (Suc n))))) i [Optional ty, default_entry ty] Undef ?sr)
        (\<lambda>v s'. new_obj c [v] s')"
    using single_param_construct [OF m, of "Suc (Suc (Suc (Suc n)))" i] by (simp add: eval_nat_numeral)
  then show ?thesis using ch by (simp del: injector_get.simps)
qed

theorem optional_decorator_param_witness:
  "meta (dec_store (ctor_params [(0, Key ''u'', [Optional])])) ''C'' = ctor_params [(0, Key ''u'', [Optional])] \<and>
   binds_value (dec_store (ctor_params [(0, Key ''u'', [Optional])])) 0 OptionalMetadataKey (VFn HOptional) \<and>
   binds_value (dec_store (ctor_params [(0, Key ''u'', [Optional])])) 0 defaultParameterHandlerToken (VFn HDefault) \<and>
   run_factory 8 (FType ''C'' 0) (dec_store (ctor_params [(0, Key ''u'', [Optional])]))
     = Some (Ok (VObj 0), (reverse_args ''C'' 0 (dec_store (ctor_params [(0, Key ''u'', [Optional])])))
                            \<lparr>objs := [(''C'', [Undef])]\<rparr>)"
proof -
  let ?s = "dec_store (ctor_params [(0, Key ''u'', [Optional])])"
  have ho: "binds_value ?s 0 OptionalMetadataKey (VFn HOptional)" by (simp add: dec_store_simps)
  have hd: "binds_value ?s 0 defaultParameterHandlerToken (VFn HDefault)" by (simp add: dec_store_simps)
  have n: "length (injs ?s) \<le> 1" by simp
  have "run_factory (1 + 7) (FType ''C'' 0) ?s =
      bindr (catch_undef (injector_get (1 + 1) 0 (Key ''u'') Undef InjectFlags_Default (reverse_args ''C'' 0 ?s)))
        (\<lambda>w s3. new_obj ''C'' [w] s3)"
    using optional_decorator_param [OF _ ho hd n] by simp
  also have "\<dots> = Some (Ok (VObj 0), (reverse_args ''C'' 0 ?s)\<lparr>objs := [(''C'', [Undef])]\<rparr>)"
    by (simp add: dec_store_simps catch_undef_def)
  finally show ?thesis using ho hd by simp
qed

text \<open>
  C31. A parameter declared \<open>@Inject(t)\<close> gets \<open>get(t)\<close> when that value is
  truthy; when it is falsy, the default handler innermost resolves the
  parameter's declared type with that value as default. Creating a class whose
  single constructor parameter is so declared, with the Inject handler bound and
  the default handler bound in the store \<open>get(t)\<close> leaves, allocates one instance
  whose argument is that value.
\<close>

theorem inject_decorator_param:
  assumes md: "meta s c = ctor_params [(0, ty, [Inject t])]"
    and hi: "binds_value s i InjectMetadataKey (VFn HInject)"
    and n: "length (injs s) \<le> n"
    and g: "injector_get (n + 3) i t Undef InjectFlags_Default (reverse_args c 0 s) = Some (Ok v, s2)"
    and hd: "binds_value s2 i defaultParameterHandlerToken (VFn HDefault)"
  shows "run_factory (n + 7) (FType c i) s =
           (if truthy v then new_obj c [v] s2
            else bindr (injector_get (n + 1) i ty v InjectFlags_Default s2) (\<lambda>w s3. new_obj c [w] s3))"
proof -
  let ?sr = "reverse_args c 0 s"
  have m: "meta s c = [(0, [Inject t ty, default_entry ty])]" using md by (simp add: ctor_params_single)
  have l2: "length (injs s2) = length (injs s)"
    using resolution_frames(1) [of ?sr "n + 3" i t Undef InjectFlags_Default] g by (simp add: frame_def)
  have gi: "injector_get (Suc (Suc (Suc (Suc n)))) i InjectMetadataKey Undef 0 ?sr = Some (Ok (VFn HInject), ?sr)"
    using binds_value_get [of ?sr i InjectMetadataKey "VFn HInject" "Suc (Suc n)" Undef] hi n
    by (simp del: injector_get.simps)
  have gd: "injector_get (Suc (Suc n)) i defaultParameterHandlerToken Undef 0 s2 = Some (Ok (VFn HDefault), s2)"
    using binds_value_get [OF hd, of n Undef] n l2 by (simp del: injector_get.simps)
  have g': "injector_get (Suc (Suc (Suc n))) i t Undef 0 ?sr = Some (Ok v, s2)"
    using g by (simp del: injector_get.simps add: eval_nat_numeral)
  have ch: "call_chain (Suc (Suc (Suc (Suc (Suc n))))) i [Inject t ty, default_entry ty] Undef ?sr =
      (if truthy v then Some (Ok v, s2)
       else bindr (injector_get (Suc n) i ty v 0 s2) (\<lambda>r s3. Some (Ok r, s3)))"
    using gi g' gd
    by (simp del: injector_get.simps add: Inject_def default_entry_def bindr_def
        split: option.splits outcome.splits)
  have "run_factory (n + 7) (FType c i) s =
      bindr (call_chain (Suc (Suc (Suc (Suc (Suc n))))) i [Inject t ty, default_entry ty] Undef ?sr)
        (\<lambda>v s'. new_obj c [v] s')"
    using single_param_construct [OF m, of "Suc (Suc (Suc (Suc n)))" i] by (simp add: eval_nat_numeral)
  then show ?thesis using ch by (simp del: injector_get.simps add: bindr_def split: option.splits outcome.splits)
qed

theorem inject_decorator_param_witness:
  "meta (dec_store (ctor_params [(0, Key ''ty'', [Inject (Key ''t'')])])) ''C''
     = ctor_params [(0, Key ''ty'', [Inject (Key ''t'')])] \<and>
   binds_value (dec_store (ctor_params [(0, Key ''ty'', [Inject (Key ''t'')])])) 0 InjectMetadataKey (VFn HInject) \<and>
   injector_get 4 0 (Key ''t'') Undef InjectFlags_Default
       (reverse_args ''C'' 0 (dec_store (ctor_params [(0, Key ''ty'', [Inject (Key ''t'')])])))
     = Some (Ok (VNum 7), reverse_args ''C'' 0 (dec_store (ctor_params [(0, Key ''ty'', [Inject (Key ''t'')])]))) \<and>
   run_factory 8 (FType ''C'' 0) (dec_store (ctor_params [(0, Key ''ty'', [Inject (Key ''t'')])]))
     = Some (Ok (VObj 0), (reverse_args ''C'' 0 (dec_store (ctor_params [(0, Key ''ty'', [Inject (Key ''t'')])])))
                            \<lparr>objs := [(''C'', [VNum 7])]\<rparr>)"
proof -
  let ?s = "dec_store (ctor_params [(0, Key ''ty'', [Inject (Key ''t'')])])"
  let ?sr = "reverse_args ''C'' 0 ?s"
  have hi: "binds_value ?s 0 InjectMetadataKey (VFn HInject)" by (simp add: dec_store_simps)
  have n: "length (injs ?s) \<le> 1" by simp
  have g: "injector_get (1 + 3) 0 (Key ''t'') Undef InjectFlags_Default ?sr = Some (Ok (VNum 7), ?sr)"
    by (simp add: dec_store_simps)
  have hd: "binds_value ?sr 0 defaultParameterHandlerToken (VFn HDefault)" by (simp add: dec_store_simps)
  have "run_factory (1 + 7) (FType ''C'' 0) ?s =
      (if truthy (VNum 7) then new_obj ''C'' [VNum 7] ?sr
       else bindr (injector_get (1 + 1) 0 (Key ''ty'') (VNum 7) InjectFlags_Default ?sr) (\<lambda>w s3. new_obj ''C'' [w] s3))"
    using inject_decorator_param [OF _ hi n g hd] by simp
  also have "\<dots> = Some (Ok (VObj 0), ?sr\<lparr>objs := [(''C'', [VNum 7])]\<rparr>)"
    by (simp add: new_obj_def alloc_def reverse_args_def)
  finally show ?thesis using hi g by simp
qed

end
