(* ===== verification/Alias.thy ===== *)
theory Alias
  imports Invariant
begin

text \<open>
  Memoized values and later registrations. \<open>Record.create\<close> stores the first
  truthy result of a record's factory, and a registration rewrites only the
  record it finds for its own token (or adds a map entry). So once \<open>get(b)\<close> has
  returned a truthy value, registering a provider for another token leaves
  \<open>get(b)\<close> returning that value. For an alias \<open>{provide: b, useExisting: a}\<close>
  this means that rebinding \<open>a\<close> is not seen through \<open>b\<close>: the alias record
  caches the value of its first lookup.
\<close>

subsection \<open>The ancestor walk after a registration\<close>

lemma getRecord_found_mono:
  "getRecord k s i t = Some r \<Longrightarrow> k \<le> k' \<Longrightarrow> getRecord k' s i t = Some r"
proof (induction k arbitrary: k' i)
  case 0
  then show ?case by simp
next
  case (Suc k)
  then obtain k'' where k': "k' = Suc k''" and le: "k \<le> k''" by (cases k') simp_all
  show ?case
  proof (cases "records (injs s ! i) t")
    case None
    then obtain p where p: "parent (injs s ! i) = Some p" and g: "getRecord k s p t = Some r"
      using Suc.prems(1) by (auto split: option.splits)
    then show ?thesis using None Suc.IH [OF g le] by (simp add: k')
  qed (use Suc.prems(1) k' in simp)
qed

lemma getRecord_record_set_other:
  "t \<noteq> b \<Longrightarrow> getRecord k (record_set i' t r s) i b = getRecord k s i b"
proof (induction k arbitrary: i)
  case 0
  then show ?case by simp
next
  case (Suc k)
  have rec: "records (injs (record_set i' t r s) ! i) b = records (injs s ! i) b"
    using Suc.prems
    by (cases "i' < length (injs s)") (auto simp: record_set_def nth_list_update list_update_beyond)
  have par: "parent (injs (record_set i' t r s) ! i) = parent (injs s ! i)"
    by (cases "i' < length (injs s)") (auto simp: record_set_def nth_list_update list_update_beyond)
  show ?case using Suc.IH [OF Suc.prems] by (simp add: rec par split: option.splits)
qed

text \<open>
  A registration that does not find the record \<open>rb\<close> leaves its options and
  the walk to it unchanged.
\<close>

lemma registration_keeps_record:
  assumes reg: "createProviderRecord (PObj p) i' s = (Ok (), s')"
    and found: "getRecord (length (injs s)) s i' (provide p) \<noteq> Some rb"
    and other: "provide p \<noteq> b"
    and rb: "rb < length (recs s)" "recs s ! rb < length (opts s)"
    and gb: "getRecord k s i b = Some rb"
  shows "getOptions s' rb = getOptions s rb" and "getRecord k s' i b = Some rb"
proof -
  obtain sh where sh: "classify p = Some sh"
    and s': "s' = getRecordHandler p sh (getRecord (length (injs s)) s i' (provide p)) i' s"
    using reg by (auto split: option.splits)
  define opt where "opt = (if multi p then createMultiRecord_opts sh (deps p) i' (getRecord (length (injs s)) s i' (provide p))
                           else createRecord_opts sh (deps p) i')"
  let ?s1 = "s\<lparr>opts := opts s @ [opt], recs := recs s @ [length (opts s)]\<rparr>"
  have h: "s' = (case getRecord (length (injs s)) s i' (provide p) of
                   Some r \<Rightarrow> setRecord r (length (recs s)) ?s1
                 | None \<Rightarrow> record_set i' (provide p) (length (recs s)) ?s1)"
    unfolding s' getRecordHandler_def Let_def opt_def [symmetric] by (simp add: new_record_eq)
  have o1: "getOptions ?s1 rb = getOptions s rb" using rb by (simp add: getOptions_def nth_append)
  have g1: "getRecord k ?s1 i b = Some rb"
    using gb getRecord_same_injs [of ?s1 s k i b] by simp
  show "getOptions s' rb = getOptions s rb" and "getRecord k s' i b = Some rb"
  proof (atomize (full), cases "getRecord (length (injs s)) s i' (provide p)")
    case None
    then show "getOptions s' rb = getOptions s rb \<and> getRecord k s' i b = Some rb"
      using h o1 g1 other getRecord_record_set_other [OF other, of k i' "length (recs s)" ?s1 i]
      by (simp add: getOptions_def record_set_def)
  next
    case (Some ra)
    then have ne: "ra \<noteq> rb" using found by simp
    have s'': "s' = setRecord ra (length (recs s)) ?s1" using h Some by simp
    have "getRecord k s' i b = getRecord k ?s1 i b"
      unfolding s'' by (rule getRecord_same_injs) (simp add: setRecord_def)
    moreover have "getOptions s' rb = getOptions ?s1 rb"
      unfolding s'' using ne by (simp add: getOptions_def setRecord_def)
    ultimately show "getOptions s' rb = getOptions s rb \<and> getRecord k s' i b = Some rb"
      using o1 g1 by simp
  qed
qed

subsection \<open>Example\<close>

text \<open>
  One injector binding \<open>a\<close> to \<open>1\<close> and \<open>b\<close> as an alias of \<open>a\<close>, the store
  \<open>createInjector([{provide: 'a', useValue: 1}, {provide: 'b', useExisting: 'a'}])\<close>
  builds.
\<close>

abbreviation alias_store :: state where
  "alias_store \<equiv>
     \<lparr>injs = [\<lparr>records = [Injector_token \<mapsto> 0, Key ''a'' \<mapsto> 1, Key ''b'' \<mapsto> 2], parent = None, name = None\<rparr>],
      recs = [0, 1, 2],
      opts = [\<lparr>factory = None, rvalue = VInj 0\<rparr>, \<lparr>factory = None, rvalue = VNum 1\<rparr>,
              \<lparr>factory = Some (FUseExisting (Key ''a'') 0), rvalue = Undef\<rparr>],
      objs = [], meta = \<lambda>_. [], user_fns = \<lambda>_ _. Undef\<rparr>"

abbreviation rebind_a :: provider_obj where
  "rebind_a \<equiv> (provider_base (Key ''a''))\<lparr>useValue := Some (VNum 2)\<rparr>"

abbreviation alias_store2 :: state where
  "alias_store2 \<equiv> setRecord 1 3 (snd (new_record \<lparr>factory = None, rvalue = VNum 2\<rparr>
                    (setValue 2 (VNum 1) alias_store)))"

subsection \<open>Claims\<close>

text \<open>
  C30. A memoized value survives later registrations: in a well-formed store,
  once \<open>get(b)\<close> with default flags has returned a truthy value, registering a
  provider for another token, whose lookup does not find \<open>b\<close>'s record, leaves
  \<open>get(b)\<close> returning the same value under the same call-depth bound and
  changing nothing. In particular an alias \<open>{provide: b, useExisting: a}\<close> keeps
  the value of its first lookup after \<open>a\<close> is rebound, where the spec (section
  4.2) says the alias re-resolves \<open>a\<close> on every access.
\<close>

theorem cached_value_survives_registration:
  assumes ok: "store_ok s" and il: "i < length (injs s)" and il': "i' < length (injs s)"
    and g: "injector_get n i b d InjectFlags_Default s = Some (Ok v, s1)" and tv: "truthy v"
    and reg: "createProviderRecord (PObj p) i' s1 = (Ok (), s2)"
    and other: "provide p \<noteq> b"
    and nb: "getRecord (length (injs s)) s i' (provide p) \<noteq> getRecord (length (injs s)) s i b"
  shows "injector_get n i b d InjectFlags_Default s2 = Some (Ok v, s2)"
proof -
  obtain m j rb where n: "n = Suc (m + j)" and gr: "getRecord (Suc j) s i b = Some rb"
    and rc: "record_create m rb s = Some (Ok v, s1)"
    using get_default_path g by fastforce
  obtain m0 where m: "m = Suc m0" using rc by (cases m) simp_all
  have fr: "frame s s1" using resolution_frames(2) [of s m rb] rc by simp
  have inj1: "injs s1 = injs s" using fr by (simp add: frame_def)
  have rb: "rb < length (recs s)" using getRecord_in_store [OF ok il gr] .
  have rbo: "recs s ! rb < length (opts s)" using ok rb by (simp add: store_ok_def recs_ok_nth)
  have o1: "getOptions s1 rb = (getOptions s rb)\<lparr>rvalue := v\<rparr>"
    using create_stores_value rc rb rbo m by blast
  have rb1: "rb < length (recs s1)" "recs s1 ! rb < length (opts s1)"
    using fr rb rbo frame_recs_nth [OF fr rb] frame_opts_length [OF fr rbo] by (auto simp: frame_def)
  have gl: "getRecord (length (injs s)) s i b = Some rb"
  proof -
    have "getRecord (length (injs s) + Suc j) s i b = Some rb"
      by (rule getRecord_found_mono [OF gr]) simp
    then show ?thesis using getRecord_bound_enough [OF ok il, of "Suc j" b] by simp
  qed
  have found: "getRecord (length (injs s1)) s1 i' (provide p) \<noteq> Some rb"
    using nb gl getRecord_same_injs [OF inj1, of "length (injs s)" i' "provide p"] inj1 by simp
  have gr1: "getRecord (Suc j) s1 i b = Some rb"
    using gr getRecord_same_injs [OF inj1, of "Suc j" i b] by simp
  note keep = registration_keeps_record [OF reg found other rb1 gr1]
  have val: "record_create (Suc k) rb s2 = Some (Ok v, s2)" for k
    using keep(1) o1 tv by simp
  obtain j' where "j' < Suc j"
    and path: "\<forall>k. injector_get (Suc (k + j')) i b d InjectFlags_Default s2 = record_create k rb s2"
    using get_chain_found [OF keep(2)] by blast
  then have nn: "n = Suc (Suc (m0 + j - j') + j')" using n m by simp
  have "injector_get (Suc (Suc (m0 + j - j') + j')) i b d InjectFlags_Default s2
      = record_create (Suc (m0 + j - j')) rb s2"
    using path by blast
  then show ?thesis unfolding nn using val by simp
qed

theorem cached_value_survives_registration_witness:
  "store_ok alias_store \<and>
   injector_get 5 0 (Key ''b'') Undef InjectFlags_Default alias_store
     = Some (Ok (VNum 1), setValue 2 (VNum 1) alias_store) \<and>
   createProviderRecord (PObj rebind_a) 0 (setValue 2 (VNum 1) alias_store) = (Ok (), alias_store2) \<and>
   injector_get 5 0 (Key ''a'') Undef InjectFlags_Default alias_store2 = Some (Ok (VNum 2), alias_store2) \<and>
   injector_get 5 0 (Key ''b'') Undef InjectFlags_Default alias_store2 = Some (Ok (VNum 1), alias_store2)"
proof -
  have ok: "store_ok alias_store"
    by (auto simp: store_ok_def recs_ok_def ran_def Injector_token_def)
  have g: "injector_get 5 0 (Key ''b'') Undef InjectFlags_Default alias_store
     = Some (Ok (VNum 1), setValue 2 (VNum 1) alias_store)"
    by (simp add: get_flags_def getOptions_def Injector_token_def numeral_eq_Suc)
  have reg: "createProviderRecord (PObj rebind_a) 0 (setValue 2 (VNum 1) alias_store) = (Ok (), alias_store2)"
    by (simp add: Injector_token_def classify_def isUseValue_def provider_base_def getRecordHandler_def
        createUseValueRecord_opts_def setValue_def new_record_eq numeral_eq_Suc)
  have nb: "getRecord (length (injs alias_store)) alias_store 0 (provide rebind_a)
      \<noteq> getRecord (length (injs alias_store)) alias_store 0 (Key ''b'')"
    by (simp add: provider_base_def Injector_token_def)
  have a: "injector_get 5 0 (Key ''a'') Undef InjectFlags_Default alias_store2 = Some (Ok (VNum 2), alias_store2)"
    by (simp add: get_flags_def getOptions_def Injector_token_def numeral_eq_Suc setRecord_def
        new_record_def alloc_def setValue_def)
  have "injector_get 5 0 (Key ''b'') Undef InjectFlags_Default alias_store2 = Some (Ok (VNum 1), alias_store2)"
    by (rule cached_value_survives_registration [OF ok _ _ g _ reg _ nb]) (simp_all add: provider_base_def)
  then show ?thesis using ok g reg a by simp
qed

end
