(* ===== verification/Spec2Isabelle.thy ===== *)
theory Spec2Isabelle
  imports Invariant Deps Handlers Factories MultiSafety Decorators Alias
begin

text \<open>
  \<^bold>\<open>A model of the noding-platform/di dependency-injection library.\<close>

  \<^bold>\<open>The program.\<close> \<open>src/src/types.ts\<close> declares tokens, the scope flags
  \<open>InjectFlags\<close>/\<open>OptionFlags\<close>, the provider shapes with their type guards
  (\<open>isUseValue\<close> \<dots>) and the \<open>Record\<close> class (an options object holding
  \<open>factory?\<close> and \<open>value?\<close>, with \<open>create\<close>, \<open>setValue\<close>,
  \<open>setFactory\<close>, \<open>setRecord\<close>). \<open>src/src/injector.ts\<close> is the
  \<open>StaticInjector\<close> (a token map, a parent, \<open>get\<close> and \<open>getRecord\<close>), the
  injector factories and the four parameter handlers that
  \<open>coreInjectorFactory\<close> registers. \<open>src/src/util.ts\<close> turns providers into
  records (\<open>createProviderRecord\<close>, \<open>getRecordHandler\<close>, the
  \<open>createXRecord\<close> and \<open>createMultiXRecord\<close> builders, \<open>createMulti\<close>),
  resolves dependency declarations (\<open>getInjector\<close>) and builds the handler
  chain of a class from its decorator metadata (\<open>createTypeRecord\<close>).
  \<open>src/src/decorator.ts\<close> gives the metadata keys and modifier classes.
  \<open>src/src/test.ts\<close> is a demo that builds an injector and resolves a class.
  Registration fills token maps with records; \<open>get\<close> creates records, whose
  factories call \<open>get\<close> again, directly or through the handler chain.

  \<^bold>\<open>Theories and what they model.\<close>
  \<^item> \<open>DI_Prelude\<close>: the result type of a computation that may throw
    (\<open>Ok\<close>/\<open>Err\<close>) or run out of fuel (\<open>None\<close>), its bind \<open>bindr\<close>, and
    allocation in a list heap.
  \<^item> \<open>Types\<close>: \<open>types.ts\<close> and \<open>decorator.ts\<close> data: \<open>token\<close>, \<open>val\<close>
    (JavaScript values with \<open>truthy\<close>), \<open>error\<close>, the flag constants,
    \<open>dep_op\<close>/\<open>dep\<close>, \<open>provider_obj\<close>/\<open>provider\<close> with the type guards, the
    decorator entries \<open>pdec\<close> and the metadata keys.
  \<^item> \<open>Store\<close>: the heap as a record \<open>state\<close>: injectors (\<open>injs\<close>), records
    pointing to shared options objects (\<open>recs\<close>, \<open>opts\<close>, so that
    \<open>setRecord\<close> aliasing is exact), instances (\<open>objs\<close>), decorator metadata
    (\<open>meta\<close>, mutable as \<open>reverse()\<close> mutates it) and the user functions.
    The \<open>Record\<close> methods, the record builders (\<open>*_opts\<close>, factory closures
    as the datatype \<open>fact\<close> of their captured variables) and \<open>getRecord\<close>.
  \<^item> \<open>Resolve\<close>: \<open>get\<close>, \<open>create\<close>, the factory closures, \<open>createMulti\<close>,
    \<open>getInjector\<close>, the parameter loop of \<open>createTypeRecord\<close>, the handler
    chain and the four handlers, as one mutually recursive function with fuel.
  \<^item> \<open>Register\<close>: \<open>createProviderRecord\<close>, \<open>getRecordHandler\<close>, the
    \<open>StaticInjector\<close> constructor (\<open>createInjector\<close>) and the injector
    factories.
  \<^item> \<open>Scope\<close>: \<open>get\<close> and its flags: self first, parent fallback, refinement
    of the ancestor walk \<open>getRecord\<close>, the Optional flag.
  \<^item> \<open>Frame\<close>, \<open>Fuel\<close>: what resolution may change in the store, and fuel
    monotonicity. \<open>Memo\<close>: \<open>create\<close>'s memoization and its truthiness test.
  \<^item> \<open>Multi\<close>: multi bindings. \<open>Deps\<close>: \<open>getInjector\<close>. \<open>Handlers\<close>: the
    handler chain. \<open>Registration\<close>: registration and its round trips.
    \<open>Factories\<close>: registration order, the injector created by
    \<open>createInjector\<close>, and the children made by an injector factory.
  \<^item> \<open>Invariant\<close>: the well-formedness \<open>store_ok\<close>, its preservation,
    memoization at the level of \<open>get\<close>, the walk bound and termination.
  \<^item> \<open>MultiSafety\<close>: the self-referential record left by a second
    \<open>multi\<close> registration, for every provider shape: a joint induction over
    the nine resolution functions shows that resolution keeps the store's
    factory closures well formed (\<open>res_ok\<close>) and keeps the record
    self-referential, so creating it never yields a value.
  \<^item> \<open>Decorators\<close>: the parameter decorators of \<open>decorator.ts\<close>
    (\<open>Optional\<close>, \<open>SkipSelf\<close>, \<open>Self\<close>, \<open>Inject\<close>) as the metadata entry each
    records on a parameter, and the entry list of each constructor parameter
    (\<open>ctor_params\<close>, from the contract of the spec with the decorator
    library: decorators outermost first, the default handler's entry
    innermost). Construction of a class whose parameter is declared
    \<open>@Optional()\<close> or \<open>@Inject(t)\<close>, through the whole handler chain.
  \<^item> \<open>Alias\<close>: a memoized value and later registrations, the caching of a
    \<open>useExisting\<close> alias.
  \<^item> This theory: the demo script \<open>test.ts\<close> and the example of the spec,
    evaluated end to end as examples.

  \<^bold>\<open>What the lemmas show.\<close> Lookup follows the scope flags as the spec states,
  except that the Optional flag is lost on delegation and Optional alone skips
  the lookup; \<open>get\<close> with default flags refines \<open>getRecord\<close>. Resolution only
  extends the store (frame) and keeps it well formed, as registration does;
  more fuel never changes a result; a truthy created value is memoized both at
  \<open>create\<close> and at \<open>get\<close>, a falsy one is not. Dependency arrays: SkipSelf and
  Self entries are no-ops, the last token wins. Decorators: \<open>@Optional()\<close> gives the declared
  type's value or \<open>undefined\<close> when its lookup throws; \<open>@Inject(t)\<close> gives
  \<open>get(t)\<close> when it is truthy and otherwise falls back to the declared type,
  because the default handler innermost treats a falsy value as missing. Handlers: Optional catches,
  SkipSelf needs a parent, an unbound key (Self) fails, and the in-place
  reverse of the metadata flips the nesting between constructions.
  Registration: first-match classification, the unknown-provider error that
  stops the provider list with the earlier providers kept, a child's
  re-registration rewrites the parent's record, register/get round trips, and
  each call of an injector factory makes a fresh child of one shared parent. A
  memoized value survives registrations of other tokens, so a
  \<open>useExisting\<close> alias keeps its first value after its target is rebound. Multi bindings: one \<open>useFactory\<close> member works, a second makes the
  token unresolvable (no fuel suffices), and a second member of any shape but
  \<open>useValue\<close> makes every \<open>get\<close> of the token throw or overflow, never
  return; a \<open>useValue\<close> member always throws.

  \<^bold>\<open>Fuel.\<close> The code has no cycle detection; recursion is bounded by the
  JavaScript call stack. Each of the nine resolution functions spends one unit
  of fuel per call, and \<open>None\<close> means the call stack was deeper than the fuel.
  \<open>get_fuel_mono\<close> shows a finished result never depends on the fuel chosen,
  and the claims that something returns give the fuel that suffices (the
  number of injectors plus two for a value lookup; 5 to 30 in the examples).
  \<open>multi_rebinding_diverges\<close> shows no fuel at all suffices there. The ancestor
  walk \<open>getRecord\<close> is bounded by the number of injectors, which
  \<open>getRecord_bound_enough\<close> shows is enough.

  \<^bold>\<open>Not modelled.\<close> The decorator library \<open>@noding/decorator\<close>
  (\<open>createClassDecorator\<close>, \<open>createParameterDecorator\<close>, \<open>getDecorator\<close>) is
  external: what its parameter decorators record is modelled in
  \<open>Decorators\<close> from the spec's contract, and the recorded metadata is the
  store field \<open>meta\<close> (parameter index and entries, the outermost decorator
  first and the default handler's entry last; the code reverses the array in
  place on each construction). The class decorator \<open>Injectable\<close> and the classes
  \<open>InjectableDef\<close> and \<open>OptionalDef\<close> \<open>\<dots>\<close> record class metadata the core never
  reads; the instances \<open>new Optional()\<close> \<open>\<dots>\<close> used in \<open>deps\<close> arrays are the
  constructors of \<open>dep_op\<close>. The TypeScript type declarations (\<open>Type\<close>,
  \<open>StringType\<close>, the handler interfaces) have no run-time content.
  The module \<open>./token\<close> is missing from the sources: its
  \<open>defaultParameterHandlerToken\<close> is a fresh string key. User factory
  functions and constructors are pure: a factory is a table of results, a
  constructor allocates an instance holding its arguments. A stack overflow is
  a result \<open>None\<close> at every fuel, not a \<open>RangeError\<close> value, so the
  Optional handler's \<open>try\<close> does not catch it as JavaScript would; errors
  thrown by user code are not modelled. A user function value fetched as a
  parameter handler is not called: \<open>call_handler\<close> gives \<open>TypeError\<close> for
  it, as for any non-function value.
\<close>

subsection \<open>The demo script \<open>test.ts\<close>\<close>

text \<open>
  The parameter metadata of \<open>test.ts\<close> (lines 3--18), as \<open>ctor_params\<close>
  collects it: \<open>Demo2\<close>'s parameter \<open>demo3: Demo3\<close> has only the default entry,
  and \<open>Demo\<close>'s parameter, decorated \<open>@Optional() @Inject(Demo2)\<close>, has the
  array \<open>[Optional, Inject(Demo2), default]\<close>: Optional outermost, Inject
  inside it, as the source comment says ("Inject is resolved first, then
  Optional").
\<close>

definition demo_meta :: "string \<Rightarrow> (nat \<times> pdec list) list" where
  "demo_meta = (\<lambda>_. [])(''Demo2'' := ctor_params [(0, Cls ''Demo3'', [])],
     ''Demo'' := ctor_params [(0, Cls ''Demo2'', [Optional, Inject (Cls ''Demo2'')])])"

text \<open>The providers \<open>test.ts\<close> passes to the injector factory.\<close>

definition demo_providers :: "provider list" where
  "demo_providers =
     [PObj ((provider_base (Cls ''Demo''))\<lparr>multi := True, useClass := Some ''Demo''\<rparr>),
      PObj ((provider_base (Cls ''Demo2''))\<lparr>useClass := Some ''Demo2'',
              deps := Some [DList 0 [OpOptional, OpToken (Cls ''Demo3'')]]\<rparr>),
      PType ''Demo3'']"

subsection \<open>Example stores\<close>

text \<open>The store after module load: the \<open>top\<close> injector holding the four parameter handlers.\<close>

abbreviation top_state :: "(string \<Rightarrow> (nat \<times> pdec list) list) \<Rightarrow> (nat \<Rightarrow> val list \<Rightarrow> val) \<Rightarrow> state" where
  "top_state md fns \<equiv>
     \<lparr>injs = [\<lparr>records = [Injector_token \<mapsto> 0, defaultParameterHandlerToken \<mapsto> 1, OptionalMetadataKey \<mapsto> 2,
                          SkipSelfMetadataKey \<mapsto> 3, InjectMetadataKey \<mapsto> 4], parent = None, name = Some ''top''\<rparr>],
      recs = [0, 1, 2, 3, 4],
      opts = [\<lparr>factory = None, rvalue = VInj 0\<rparr>, \<lparr>factory = None, rvalue = VFn HDefault\<rparr>,
              \<lparr>factory = None, rvalue = VFn HOptional\<rparr>, \<lparr>factory = None, rvalue = VFn HSkipSelf\<rparr>,
              \<lparr>factory = None, rvalue = VFn HInject\<rparr>],
      objs = [], meta = md, user_fns = fns\<rparr>"

text \<open>The store after \<open>coreInjectorFactory([...])\<close> of \<open>test.ts\<close>: the \<open>core\<close> child holding the demo providers.\<close>

abbreviation demo_state :: state where
  "demo_state \<equiv>
     \<lparr>injs = [\<lparr>records = [Injector_token \<mapsto> 0, defaultParameterHandlerToken \<mapsto> 1, OptionalMetadataKey \<mapsto> 2,
                          SkipSelfMetadataKey \<mapsto> 3, InjectMetadataKey \<mapsto> 4], parent = None, name = Some ''top''\<rparr>,
             \<lparr>records = [Injector_token \<mapsto> 5, Cls ''Demo'' \<mapsto> 6, Cls ''Demo2'' \<mapsto> 7, Cls ''Demo3'' \<mapsto> 8],
               parent = Some 0, name = Some ''core''\<rparr>],
      recs = [0, 1, 2, 3, 4, 5, 6, 7, 8],
      opts = [\<lparr>factory = None, rvalue = VInj 0\<rparr>, \<lparr>factory = None, rvalue = VFn HDefault\<rparr>,
              \<lparr>factory = None, rvalue = VFn HOptional\<rparr>, \<lparr>factory = None, rvalue = VFn HSkipSelf\<rparr>,
              \<lparr>factory = None, rvalue = VFn HInject\<rparr>, \<lparr>factory = None, rvalue = VInj 1\<rparr>,
              \<lparr>factory = Some (FMulti (SUseClass ''Demo'') None 1 PrevNone), rvalue = Undef\<rparr>,
              \<lparr>factory = Some (FUseClassDeps ''Demo2'' [DList 0 [OpOptional, OpToken (Cls ''Demo3'')]] 1),
                 rvalue = Undef\<rparr>,
              \<lparr>factory = Some (FType ''Demo3'' 1), rvalue = Undef\<rparr>],
      objs = [], meta = demo_meta, user_fns = \<lambda>_ _. Undef\<rparr>"

text \<open>
  The example of the spec (section 8): \<open>[OtherClass, {provide: MainClass,
  useClass: MainClass, deps: [OtherClass]}]\<close>, and the store it registers.
\<close>

abbreviation main_providers :: "provider list" where
  "main_providers \<equiv>
     [PType ''OtherClass'',
      PObj ((provider_base (Cls ''MainClass''))\<lparr>useClass := Some ''MainClass'', deps := Some [DTok (Cls ''OtherClass'')]\<rparr>)]"

abbreviation main_state :: state where
  "main_state \<equiv>
     \<lparr>injs = [\<lparr>records = [Injector_token \<mapsto> 0, Cls ''OtherClass'' \<mapsto> 1, Cls ''MainClass'' \<mapsto> 2],
               parent = None, name = None\<rparr>],
      recs = [0, 1, 2],
      opts = [\<lparr>factory = None, rvalue = VInj 0\<rparr>, \<lparr>factory = Some (FType ''OtherClass'' 0), rvalue = Undef\<rparr>,
              \<lparr>factory = Some (FUseClassDeps ''MainClass'' [DTok (Cls ''OtherClass'')] 0), rvalue = Undef\<rparr>],
      objs = [], meta = \<lambda>_. [], user_fns = \<lambda>_ _. Undef\<rparr>"

text \<open>An alias: \<open>a\<close> bound to the value 1 and \<open>b\<close> to \<open>useExisting: a\<close>.\<close>

lemmas registration_eval = Let_def new_record_def alloc_def record_set_def classify_def isUseValue_def
  isUseClass_def isUseFactory_def isUseExisting_def provider_base_def getRecordHandler_def
  createUseValueRecord_opts_def createUseClassRecord_opts_def createTypeRecord_opts_def
  metadata_keys Injector_token_def eval_nat_numeral

lemmas resolution_eval = metadata_keys get_flags_def getOptions_def Injector_token_def fuel_numeral
  createTypeRecord_opts_def createUseClassRecord_opts_def param_decorators_def reverse_args_def
  array_from_def new_obj_def catch_undef_def setValue_def Let_def alloc_def new_record_def
  dep_flags_token_def One_nat_def mod_Suc

lemma top_created:
  "topInjectorFactory handler_providers (init_state md fns) = (Ok 0, top_state md fns)"
  by (simp add: topInjectorFactory_def handler_providers_def createInjector_def init_state_def registration_eval)

lemma core_factory:
  "coreInjectorFactory (init_state md fns) = (Ok (\<lambda>all. createInjector all (Some ''core'') (Some 0)), top_state md fns)"
  by (simp add: coreInjectorFactory_def createInjectorFactory_def top_created)

lemma demo_created:
  "createInjector demo_providers (Some ''core'') (Some 0) (top_state demo_meta (\<lambda>_ _. Undef)) = (Ok 1, demo_state)"
  by (simp add: demo_providers_def createInjector_def registration_eval)

lemma main_created:
  "createInjector main_providers None None (init_state (\<lambda>_. []) (\<lambda>_ _. Undef)) = (Ok 0, main_state)"
  by (simp add: createInjector_def init_state_def registration_eval)

subsection \<open>End-to-end examples\<close>

text \<open>
  The scenario of \<open>test.ts\<close>, end to end: the module-load
  \<open>coreInjectorFactory\<close>, the \<open>core\<close> injector over the demo providers, and
  \<open>injector.get(Demo)\<close>. The lookup returns the one-element array of the single
  multi binding; building it constructs \<open>Demo3\<close> (through the Optional
  dependency of \<open>Demo2\<close>), then \<open>Demo2\<close> with it, then \<open>Demo\<close> with that
  \<open>Demo2\<close> (through the Inject and Optional handlers).
\<close>

lemma demo_scenario:
  "\<exists>F s1 s2 s3. coreInjectorFactory (init_state demo_meta (\<lambda>_ _. Undef)) = (Ok F, s1)
     \<and> F demo_providers s1 = (Ok 1, s2)
     \<and> injector_get 30 1 (Cls ''Demo'') Undef InjectFlags_Default s2 = Some (Ok (VArr [VObj 2]), s3)
     \<and> objs s3 = [(''Demo3'', []), (''Demo2'', [VObj 0]), (''Demo'', [VObj 1])]"
proof -
  have "\<exists>s3. injector_get 30 1 (Cls ''Demo'') Undef 0 demo_state = Some (Ok (VArr [VObj 2]), s3)
     \<and> objs s3 = [(''Demo3'', []), (''Demo2'', [VObj 0]), (''Demo'', [VObj 1])]"
    by (simp add: resolution_eval demo_meta_def ctor_params_def Optional_def Inject_def default_entry_def
        del: Suc_numeral)
  then show ?thesis using core_factory [of demo_meta "\<lambda>_ _. Undef"] demo_created by simp
qed

text \<open>
  The example of the spec, section 8: \<open>get(MainClass)\<close> constructs
  \<open>OtherClass\<close> first, then \<open>MainClass\<close> with it; a second \<open>get(MainClass)\<close>
  returns the same instance and changes nothing, so neither constructor runs
  again.
\<close>

lemma spec_example_memoized:
  "\<exists>s1 s2. createInjector main_providers None None (init_state (\<lambda>_. []) (\<lambda>_ _. Undef)) = (Ok 0, s1)
     \<and> injector_get 10 0 (Cls ''MainClass'') Undef InjectFlags_Default s1 = Some (Ok (VObj 1), s2)
     \<and> objs s2 = [(''OtherClass'', []), (''MainClass'', [VObj 0])]
     \<and> injector_get 10 0 (Cls ''MainClass'') Undef InjectFlags_Default s2 = Some (Ok (VObj 1), s2)"
proof -
  have "\<exists>s2. injector_get 10 0 (Cls ''MainClass'') Undef 0 main_state = Some (Ok (VObj 1), s2)
     \<and> objs s2 = [(''OtherClass'', []), (''MainClass'', [VObj 0])]
     \<and> injector_get 10 0 (Cls ''MainClass'') Undef 0 s2 = Some (Ok (VObj 1), s2)"
    by (simp add: resolution_eval del: Suc_numeral)
  then show ?thesis using main_created by simp
qed

end
